(* ===== verification/Prelude.thy ===== *)
theory Prelude
  imports Complex_Main
begin

text \<open>
  Generic material shared by every component: the collections of simplification facts,
  results that may be errors, association lists used as Go maps, and list lemmas.
  Go errors are values of the left part of a sum, \<open>Inl e\<close>; a successful return is \<open>Inr v\<close>.
\<close>

named_theorems bytes_simps "facts about Go byte strings"
named_theorems store_simps "how the job store's operations act on rows"
named_theorems inv_intros "introduction rules for component invariants"

subsection \<open>Results\<close>

type_synonym ('e, 'a) result = "'e + 'a"

definition is_ok :: "('e, 'a) result \<Rightarrow> bool" where
  "is_ok r = (case r of Inl _ \<Rightarrow> False | Inr _ \<Rightarrow> True)"

lemma is_ok_simps [simp]: "\<not> is_ok (Inl e)" "is_ok (Inr v)"
  by (simp_all add: is_ok_def)

lemma is_ok_iff: "is_ok r \<longleftrightarrow> (\<exists>v. r = Inr v)"
  by (cases r) simp_all

lemma result_bind_Inr:
  "(case r of Inl e \<Rightarrow> Inl e | Inr p \<Rightarrow> f p) = Inr q \<longleftrightarrow> (\<exists>p. r = Inr p \<and> f p = Inr q)"
  by (cases r) simp_all

text \<open>
  A sequence of checks, each returning an error or nothing, stops at the first error:
  \<open>if err := check(); err != nil { return nil, err }\<close> repeated.
\<close>

fun first_error :: "'e option list \<Rightarrow> 'e option" where
  "first_error [] = None"
| "first_error (Some e # cs) = Some e"
| "first_error (None # cs) = first_error cs"

lemma first_error_None: "first_error cs = None \<longleftrightarrow> (\<forall>c \<in> set cs. c = None)"
  by (induction cs rule: first_error.induct) auto

lemma first_error_Some_mem: "first_error cs = Some e \<Longrightarrow> Some e \<in> set cs"
  by (induction cs rule: first_error.induct) auto

lemma first_error_append:
  "first_error (cs @ ds) = (case first_error cs of None \<Rightarrow> first_error ds | Some e \<Rightarrow> Some e)"
  by (induction cs rule: first_error.induct) auto

subsection \<open>Association lists as Go maps\<close>

text \<open>
  A Go map whose size the code reads is kept as an association list with distinct keys:
  \<open>map_of\<close> is the lookup, \<open>length\<close> is Go's \<open>len\<close>.
\<close>

type_synonym ('k, 'v) assoc = "('k \<times> 'v) list"

definition keys :: "('k, 'v) assoc \<Rightarrow> 'k list" where
  "keys m = map fst m"

definition put :: "'k \<Rightarrow> 'v \<Rightarrow> ('k, 'v) assoc \<Rightarrow> ('k, 'v) assoc" where
  "put k v m =
     (if k \<in> set (keys m) then map (\<lambda>(k', w). if k' = k then (k', v) else (k', w)) m
      else m @ [(k, v)])"

definition remove_key :: "'k \<Rightarrow> ('k, 'v) assoc \<Rightarrow> ('k, 'v) assoc" where
  "remove_key k m = filter (\<lambda>(k', _). k' \<noteq> k) m"

definition keep_if :: "('v \<Rightarrow> bool) \<Rightarrow> ('k, 'v) assoc \<Rightarrow> ('k, 'v) assoc" where
  "keep_if P m = filter (\<lambda>(_, v). P v) m"

definition distinct_keys :: "('k, 'v) assoc \<Rightarrow> bool" where
  "distinct_keys m = distinct (keys m)"

lemma keys_simps [simp]: "keys [] = []" "keys ((k, v) # m) = k # keys m"
  by (simp_all add: keys_def)

lemma length_keys [simp]: "length (keys m) = length m"
  by (simp add: keys_def)

lemma distinct_keys_Nil [simp]: "distinct_keys []"
  by (simp add: distinct_keys_def)

lemma map_of_None_keys: "map_of m k = None \<longleftrightarrow> k \<notin> set (keys m)"
  by (induction m) auto

lemma map_of_keys: "k \<in> set (keys m) \<longleftrightarrow> map_of m k \<noteq> None"
  by (simp add: map_of_None_keys)

lemma map_of_map_update:
  "map_of (map (\<lambda>(k', w). if k' = k then (k', v) else (k', w)) m) j =
     (if j = k \<and> k \<in> set (keys m) then Some v else map_of m j)"
  by (induction m) auto

lemma map_of_put [simp]: "map_of (put k v m) = (map_of m)(k \<mapsto> v)"
  by (auto simp: put_def map_of_map_update fun_eq_iff map_add_def map_of_None_keys[symmetric]
      split: option.splits)

lemma keys_map_update [simp]:
  "keys (map (\<lambda>(k', w). if k' = k then (k', v) else (k', w)) m) = keys m"
  by (induction m) auto

lemma distinct_keys_put [simp]: "distinct_keys m \<Longrightarrow> distinct_keys (put k v m)"
  by (auto simp: distinct_keys_def put_def) (simp_all add: keys_def)

lemma length_put: "length (put k v m) = (if k \<in> set (keys m) then length m else Suc (length m))"
  by (simp add: put_def)

lemma map_of_remove_key [simp]: "map_of (remove_key k m) = (map_of m)(k := None)"
  by (induction m) (auto simp: remove_key_def fun_eq_iff)

lemma keys_filter_sub: "set (keys (filter P m)) \<subseteq> set (keys m)"
  by (auto simp: keys_def)

lemma distinct_keys_filter [simp]: "distinct_keys m \<Longrightarrow> distinct_keys (filter P m)"
  by (auto simp: distinct_keys_def keys_def distinct_map intro: inj_on_subset)

lemma distinct_keys_remove_key [simp]: "distinct_keys m \<Longrightarrow> distinct_keys (remove_key k m)"
  by (simp add: remove_key_def)

lemma distinct_keys_keep_if [simp]: "distinct_keys m \<Longrightarrow> distinct_keys (keep_if P m)"
  by (simp add: keep_if_def)

lemma length_remove_key: "length (remove_key k m) \<le> length m"
  by (simp add: remove_key_def)

lemma length_keep_if: "length (keep_if P m) \<le> length m"
  by (simp add: keep_if_def)

lemma map_of_keep_if:
  assumes "distinct_keys m"
  shows "map_of (keep_if P m) k = (case map_of m k of None \<Rightarrow> None | Some v \<Rightarrow> if P v then Some v else None)"
  using assms
proof (induction m)
  case Nil
  then show ?case by (simp add: keep_if_def)
next
  case (Cons a m)
  obtain k' v where a: "a = (k', v)" by fastforce
  from Cons.prems a have d: "distinct_keys m" and nin: "k' \<notin> set (keys m)"
    by (simp_all add: distinct_keys_def)
  have none: "map_of (keep_if P m) k' = None"
    using keys_filter_sub nin by (fastforce simp: map_of_None_keys keep_if_def)
  show ?case
    using Cons.IH [OF d] none nin
    by (auto simp: a keep_if_def map_of_None_keys[symmetric] split: option.splits)
qed

subsection \<open>Lists\<close>

lemma distinct_map_filter_mem:
  "distinct (map f xs) \<Longrightarrow> x \<in> set xs \<Longrightarrow> y \<in> set xs \<Longrightarrow> f x = f y \<Longrightarrow> x = y"
  by (auto simp: distinct_map inj_on_def)

lemma find_distinct:
  "distinct (map f xs) \<Longrightarrow> find (\<lambda>x. f x = k) xs = Some x \<longleftrightarrow> x \<in> set xs \<and> f x = k"
proof (induction xs)
  case Nil
  then show ?case by simp
next
  case (Cons a xs)
  then show ?case by (auto simp: image_iff)
qed

lemma find_map_preserving:
  "(\<And>x. f (g x) = f x) \<Longrightarrow> find (\<lambda>x. f x = k) (map g xs) = map_option g (find (\<lambda>x. f x = k) xs)"
  by (induction xs) auto

text \<open>
  A stable sort keeps the order of elements with equal keys: sorting an ascending list by a
  key orders it by the key first and by the elements themselves second.
\<close>

lemma insort_key_map: "insort_key f (g x) (map g xs) = map g (insort_key (f \<circ> g) x xs)"
  by (induction xs) auto

lemma sort_key_map: "sort_key f (map g xs) = map g (sort_key (f \<circ> g) xs)"
  by (induction xs) (simp_all add: insort_key_map comp_def)

definition key_less :: "('a::linorder \<Rightarrow> 'b::linorder) \<Rightarrow> 'a \<Rightarrow> 'a \<Rightarrow> bool" where
  "key_less f x y \<longleftrightarrow> f x < f y \<or> f x = f y \<and> x < y"

lemma insort_key_key_less:
  "sorted_wrt (key_less f) xs \<Longrightarrow> \<forall>y \<in> set xs. x < y \<Longrightarrow> sorted_wrt (key_less f) (insort_key f x xs)"
  by (induction xs) (auto simp: key_less_def set_insort_key)

lemma sort_key_key_less: "sorted_wrt (<) xs \<Longrightarrow> sorted_wrt (key_less f) (sort_key f xs)"
  by (induction xs) (auto intro: insort_key_key_less)

lemma map_preserving: "(\<And>x. f (g x) = f x) \<Longrightarrow> map f (map g xs) = map f xs"
  by simp

end
