(* ===== verification/JobTypes.thy ===== *)
theory JobTypes
  imports GoString "HOL-Library.Word"
begin

text \<open>
  The job model of \<open>internal/jobs/types.go\<close>: job types, statuses, the \<open>Job\<close> struct, progress
  reports and results. A \<open>time.Time\<close> is an integer number of nanoseconds since the Unix epoch;
  a \<open>float64\<close> of the job model (a percentage that is only stored, copied and compared) is an
  exact rational.
\<close>

type_synonym Time = int
type_synonym float64 = rat

text \<open>The result of an \<open>int64\<close> operation, wrapped around.\<close>

definition wrap64 :: "int \<Rightarrow> int" where
  "wrap64 x = (x + 2 ^ 63) mod 2 ^ 64 - 2 ^ 63"

lemma wrap64_id: "- (2 ^ 63) \<le> n \<Longrightarrow> n < 2 ^ 63 \<Longrightarrow> wrap64 n = n"
  by (simp add: wrap64_def)

definition UnixMilli :: "Time \<Rightarrow> int" where
  "UnixMilli t = t div 1000000"

definition time_of_milli :: "int \<Rightarrow> Time" where
  "time_of_milli ms = ms * 1000000"

lemma UnixMilli_time_of_milli [simp]: "UnixMilli (time_of_milli ms) = ms"
  by (simp add: UnixMilli_def time_of_milli_def)

lemma UnixMilli_mono: "s \<le> t \<Longrightarrow> UnixMilli s \<le> UnixMilli t"
  by (simp add: UnixMilli_def zdiv_mono1)

lemma time_of_milli_le: "time_of_milli (UnixMilli t) \<le> t"
proof -
  have "t = t div 1000000 * 1000000 + t mod 1000000" by simp
  moreover have "0 \<le> t mod (1000000::int)" by simp
  ultimately show ?thesis unfolding time_of_milli_def UnixMilli_def by linarith
qed

subsection \<open>Durations\<close>

text \<open>
  \<open>time.Duration.String\<close> on a number of nanoseconds: \<open>12h0m0s\<close>, \<open>1.5s\<close>, \<open>250ms\<close>. The
  two bytes 194 and 181 are the micro sign.
\<close>

definition pad_zeros :: "nat \<Rightarrow> string \<Rightarrow> string" where
  "pad_zeros n s = replicate (n - length s) CHR ''0'' @ s"

definition frac_string :: "nat \<Rightarrow> nat \<Rightarrow> string" where
  "frac_string v prec =
     (let ds = TrimRight (pad_zeros prec (itoa_nat (v mod 10 ^ prec))) ''0''
      in if prec = 0 \<or> ds = [] then [] else CHR ''.'' # ds)"

definition duration_string :: "int \<Rightarrow> string" where
  "duration_string d =
     (let u = nat \<bar>d\<bar>; neg = (if d < 0 then ''-'' else []);
          sub = (\<lambda>prec unit. itoa_nat (u div 10 ^ prec) @ frac_string u prec @ unit);
          secs = u div 10 ^ 9; mins = secs div 60; hours = mins div 60
      in if u = 0 then ''0s''
         else if u < 1000 then neg @ sub 0 ''ns''
         else if u < 1000000 then neg @ sub 3 [CHR 0xC2, CHR 0xB5, CHR ''s'']
         else if u < 1000000000 then neg @ sub 6 ''ms''
         else neg @ (if hours > 0 then itoa_nat hours @ ''h'' else [])
                  @ (if mins > 0 then itoa_nat (mins mod 60) @ ''m'' else [])
                  @ itoa_nat (secs mod 60) @ frac_string u 9 @ ''s'')"


text \<open>\<open>type Type string\<close> and its constants; a string that is none of them has no value here.\<close>

datatype Type = TypeDownload | TypeConvert | TypeCompress | TypeImage | TypeEdit

fun type_string :: "Type \<Rightarrow> string" where
  "type_string TypeDownload = ''download''"
| "type_string TypeConvert = ''convert''"
| "type_string TypeCompress = ''compress''"
| "type_string TypeImage = ''image''"
| "type_string TypeEdit = ''edit''"

definition all_types :: "Type list" where
  "all_types = [TypeDownload, TypeConvert, TypeCompress, TypeImage, TypeEdit]"

text \<open>\<open>Type.Valid\<close>: the strings that are a job type.\<close>

definition valid_type :: "string \<Rightarrow> Type option" where
  "valid_type s = find (\<lambda>t. type_string t = s) all_types"

lemma valid_type_string [simp]: "valid_type (type_string t) = Some t"
  by (cases t) (simp_all add: valid_type_def all_types_def)

lemma valid_type_Some: "valid_type s = Some t \<longleftrightarrow> s = type_string t"
proof
  assume "valid_type s = Some t"
  then show "s = type_string t" by (auto simp: valid_type_def find_Some_iff)
qed simp

text \<open>\<open>type Status string\<close>; \<open>StatusUnset\<close> is its zero value, the empty string.\<close>

datatype Status =
  StatusUnset | StatusQueued | StatusRunning | StatusDone | StatusFailed | StatusCanceled
| StatusExpired

fun status_string :: "Status \<Rightarrow> string" where
  "status_string StatusUnset = ''''"
| "status_string StatusQueued = ''queued''"
| "status_string StatusRunning = ''running''"
| "status_string StatusDone = ''done''"
| "status_string StatusFailed = ''failed''"
| "status_string StatusCanceled = ''canceled''"
| "status_string StatusExpired = ''expired''"

lemma status_string_inj [simp]: "status_string a = status_string b \<longleftrightarrow> a = b"
  by (cases a; cases b) simp_all

fun Terminal :: "Status \<Rightarrow> bool" where
  "Terminal StatusDone = True"
| "Terminal StatusFailed = True"
| "Terminal StatusCanceled = True"
| "Terminal StatusExpired = True"
| "Terminal _ = False"

lemma not_Terminal_iff:
  "\<not> Terminal s \<longleftrightarrow> s = StatusUnset \<or> s = StatusQueued \<or> s = StatusRunning"
  by (cases s) simp_all

lemma Terminal_neq [simp]:
  "Terminal s \<Longrightarrow> s \<noteq> StatusQueued" "Terminal s \<Longrightarrow> s \<noteq> StatusRunning"
  by auto

record Job =
  j_ID :: string
  j_Type :: Type
  j_Title :: string
  j_Source :: string
  j_Params :: string
  j_InputPath :: string
  j_OutputPath :: string
  j_OutputName :: string
  j_OutputSize :: int
  j_Status :: Status
  j_Progress :: float64
  j_Stage :: string
  j_Error :: string
  j_CreatedAt :: Time
  j_UpdatedAt :: Time
  j_StartedAt :: "Time option"
  j_FinishedAt :: "Time option"
  j_ExpiresAt :: "Time option"

text \<open>The job a handler starts from: \<open>&jobs.Job{Type: typ}\<close>, every other field zero.\<close>

definition new_job :: "Type \<Rightarrow> Job" where
  "new_job t = \<lparr>j_ID = '''', j_Type = t, j_Title = '''', j_Source = '''', j_Params = '''',
     j_InputPath = '''', j_OutputPath = '''', j_OutputName = '''', j_OutputSize = 0,
     j_Status = StatusUnset, j_Progress = 0, j_Stage = '''', j_Error = '''',
     j_CreatedAt = 0, j_UpdatedAt = 0, j_StartedAt = None, j_FinishedAt = None,
     j_ExpiresAt = None\<rparr>"

record Progress =
  Percent :: float64
  p_Stage :: string
  Speed :: string
  ETA :: string

record Result =
  OutputPath :: string
  r_Title :: string

subsection \<open>Identifiers\<close>

definition hex_digit :: "nat \<Rightarrow> char" where
  "hex_digit d = ''0123456789abcdef'' ! d"

text \<open>\<open>hex.EncodeToString\<close>\<close>

fun hex_encode :: "8 word list \<Rightarrow> string" where
  "hex_encode [] = []"
| "hex_encode (b # bs) = hex_digit (unat b div 16) # hex_digit (unat b mod 16) # hex_encode bs"

text \<open>\<open>NewID\<close> on the twelve bytes the entropy source returned.\<close>

definition NewID :: "8 word list \<Rightarrow> string" where
  "NewID b = hex_encode b"

lemma length_hex_encode [simp]: "length (hex_encode bs) = 2 * length bs"
  by (induction bs) auto

lemma byte_hex_digit: "d < 16 \<Longrightarrow> byte (hex_digit d) = (if d < 10 then 48 + d else 87 + d)"
proof -
  assume "d < 16"
  then have "d \<in> {0, 1, 2, 3, 4, 5, 6, 7, 8, 9, 10, 11, 12, 13, 14, 15}"
    by (simp add: numeral_eq_Suc less_Suc_eq)
  then show ?thesis by (elim insertE emptyE) (simp_all add: hex_digit_def byte_def)
qed

lemma hex_digit_inj: "a < 16 \<Longrightarrow> b < 16 \<Longrightarrow> hex_digit a = hex_digit b \<Longrightarrow> a = b"
  by (drule arg_cong [where f = byte]) (auto simp: byte_hex_digit split: if_splits)

lemma unat_byte_lt: "unat (b :: 8 word) < 256"
  using unsigned_less [of b] by simp

lemma hex_encode_inj: "hex_encode as = hex_encode bs \<Longrightarrow> as = bs"
proof (induction as arbitrary: bs rule: hex_encode.induct)
  case 1
  then show ?case by (cases bs) auto
next
  case (2 a as)
  from "2.prems" obtain b bs' where bs: "bs = b # bs'" by (cases bs) auto
  from "2.prems" bs have hi: "hex_digit (unat a div 16) = hex_digit (unat b div 16)"
    and lo: "hex_digit (unat a mod 16) = hex_digit (unat b mod 16)"
    and rest: "hex_encode as = hex_encode bs'" by simp_all
  have "unat a div 16 < 16" "unat b div 16 < 16"
    using unat_byte_lt [of a] unat_byte_lt [of b] by (simp_all add: div_less_iff_less_mult)
  then have "unat a div 16 = unat b div 16" using hex_digit_inj hi by blast
  moreover have "unat a mod 16 = unat b mod 16" using hex_digit_inj [OF _ _ lo] by simp
  ultimately have "unat a = unat b" by (metis div_mult_mod_eq)
  then have "a = b" by (simp add: word_unat_eq_iff)
  with rest "2.IH" bs show ?case by simp
qed

end
