(* ===== verification/SqlTable.thy ===== *)
theory SqlTable
  imports Prelude
begin

text \<open>
  SQLite tables with a primary key, as far as the program's statements use them. A table is
  the list of its rows in rowid order: an insert appends (a new rowid is larger than every
  rowid present), an update rewrites rows in place, a delete removes them. The locale
  \<open>keyed_table\<close> is the interface the components rely on; it is interpreted by the job store
  on the \<open>jobs\<close> table and by the session store on the \<open>sessions\<close> table.
\<close>

subsection \<open>The statements\<close>

definition sql_select :: "('r \<Rightarrow> 'k) \<Rightarrow> 'r list \<Rightarrow> 'k \<Rightarrow> 'r option" where
  "sql_select key t k = find (\<lambda>r. key r = k) t"

text \<open>\<open>INSERT\<close>: refused when the primary key is taken.\<close>

definition sql_insert :: "('r \<Rightarrow> 'k) \<Rightarrow> 'r \<Rightarrow> 'r list \<Rightarrow> 'r list option" where
  "sql_insert key r t = (if list_ex (\<lambda>q. key q = key r) t then None else Some (t @ [r]))"

text \<open>\<open>UPDATE ... WHERE k = ?\<close>\<close>

definition sql_update :: "('r \<Rightarrow> 'k) \<Rightarrow> 'k \<Rightarrow> ('r \<Rightarrow> 'r) \<Rightarrow> 'r list \<Rightarrow> 'r list" where
  "sql_update key k f t = map (\<lambda>r. if key r = k then f r else r) t"

text \<open>\<open>DELETE ... WHERE k = ?\<close>\<close>

definition sql_delete :: "('r \<Rightarrow> 'k) \<Rightarrow> 'k \<Rightarrow> 'r list \<Rightarrow> 'r list" where
  "sql_delete key k t = filter (\<lambda>r. key r \<noteq> k) t"

text \<open>\<open>DELETE ... WHERE cond\<close>\<close>

definition sql_delete_where :: "('r \<Rightarrow> bool) \<Rightarrow> 'r list \<Rightarrow> 'r list" where
  "sql_delete_where P t = filter (\<lambda>r. \<not> P r) t"

definition sql_keyed :: "('r \<Rightarrow> 'k) \<Rightarrow> 'r list \<Rightarrow> bool" where
  "sql_keyed key t \<longleftrightarrow> distinct (map key t)"

subsection \<open>The interface\<close>

locale keyed_table =
  fixes key :: "'r \<Rightarrow> 'k"
    and invar :: "'t \<Rightarrow> bool"
    and empty :: "'t"
    and sel :: "'t \<Rightarrow> 'k \<Rightarrow> 'r option"
    and ins :: "'r \<Rightarrow> 't \<Rightarrow> 't option"
    and upd :: "'k \<Rightarrow> ('r \<Rightarrow> 'r) \<Rightarrow> 't \<Rightarrow> 't"
    and del :: "'k \<Rightarrow> 't \<Rightarrow> 't"
  assumes invar_empty: "invar empty"
    and sel_empty: "sel empty k = None"
    and sel_key: "sel t k = Some r \<Longrightarrow> key r = k"
    and ins_None: "ins r t = None \<longleftrightarrow> sel t (key r) \<noteq> None"
    and ins_Some: "ins r t = Some t' \<Longrightarrow> sel t' = (sel t)(key r \<mapsto> r)"
    and invar_ins: "invar t \<Longrightarrow> ins r t = Some t' \<Longrightarrow> invar t'"
    and sel_upd: "(\<And>r. key (f r) = key r) \<Longrightarrow> sel (upd k f t) = (sel t)(k := map_option f (sel t k))"
    and invar_upd: "invar t \<Longrightarrow> (\<And>r. key (f r) = key r) \<Longrightarrow> invar (upd k f t)"
    and sel_del: "sel (del k t) = (sel t)(k := None)"
    and invar_del: "invar t \<Longrightarrow> invar (del k t)"
begin

lemma sel_upd_other: "(\<And>r. key (f r) = key r) \<Longrightarrow> j \<noteq> k \<Longrightarrow> sel (upd k f t) j = sel t j"
  by (simp add: sel_upd)

lemma sel_upd_same: "(\<And>r. key (f r) = key r) \<Longrightarrow> sel (upd k f t) k = map_option f (sel t k)"
  by (simp add: sel_upd)

lemma dom_upd: "(\<And>r. key (f r) = key r) \<Longrightarrow> dom (sel (upd k f t)) = dom (sel t)"
  by (auto simp: sel_upd split: if_splits)

lemma dom_del: "dom (sel (del k t)) = dom (sel t) - {k}"
  by (auto simp: sel_del split: if_splits)

lemma dom_ins: "ins r t = Some t' \<Longrightarrow> dom (sel t') = insert (key r) (dom (sel t))"
  by (simp add: ins_Some)

text \<open>
  An upsert (\<open>INSERT ... ON CONFLICT DO UPDATE\<close>) that overwrites the row stores it in every
  case, whichever branch the database takes.
\<close>

definition upsert :: "'r \<Rightarrow> 't \<Rightarrow> 't" where
  "upsert r t = (case ins r t of Some t' \<Rightarrow> t' | None \<Rightarrow> upd (key r) (\<lambda>q. if key q = key r then r else q) t)"

lemma sel_upsert: "sel (upsert r t) = (sel t)(key r \<mapsto> r)"
proof (cases "ins r t")
  case None
  then obtain q where q: "sel t (key r) = Some q" by (auto simp: ins_None)
  then have "key q = key r" by (rule sel_key)
  with None q show ?thesis by (simp add: upsert_def sel_upd)
next
  case (Some t')
  then show ?thesis by (simp add: upsert_def ins_Some)
qed

lemma invar_upsert: "invar t \<Longrightarrow> invar (upsert r t)"
  by (auto simp: upsert_def intro: invar_ins invar_upd split: option.splits)

end

subsection \<open>List tables satisfy it\<close>

lemma sql_select_None: "sql_select key t k = None \<longleftrightarrow> k \<notin> key ` set t"
  by (auto simp: sql_select_def find_None_iff)

lemma list_ex_key: "list_ex (\<lambda>q. key q = k) t \<longleftrightarrow> k \<in> key ` set t"
  by (induction t) auto

lemma sql_insert_None: "sql_insert key r t = None \<longleftrightarrow> key r \<in> key ` set t"
  by (auto simp: sql_insert_def list_ex_key)

lemma sql_insert_Some: "sql_insert key r t = Some t' \<longleftrightarrow> key r \<notin> key ` set t \<and> t' = t @ [r]"
  by (auto simp: sql_insert_def list_ex_key)

lemma sql_select_mem: "sql_select key t k = Some r \<Longrightarrow> r \<in> set t \<and> key r = k"
  by (auto simp: sql_select_def find_Some_iff)

lemma sql_select_distinct:
  "sql_keyed key t \<Longrightarrow> sql_select key t k = Some r \<longleftrightarrow> r \<in> set t \<and> key r = k"
  by (simp add: sql_select_def sql_keyed_def find_distinct)

lemma sql_select_append:
  "sql_select key (t @ [r]) k =
     (case sql_select key t k of Some q \<Rightarrow> Some q | None \<Rightarrow> if key r = k then Some r else None)"
  by (induction t) (auto simp: sql_select_def)

lemma sql_select_update:
  "(\<And>r. key (f r) = key r) \<Longrightarrow>
     sql_select key (sql_update key k f t) = (sql_select key t)(k := map_option f (sql_select key t k))"
  by (induction t) (auto simp: sql_select_def sql_update_def fun_eq_iff)

lemma sql_select_delete: "sql_select key (sql_delete key k t) = (sql_select key t)(k := None)"
  by (induction t) (auto simp: sql_select_def sql_delete_def fun_eq_iff)

lemma sql_keyed_update:
  "sql_keyed key t \<Longrightarrow> (\<And>r. key (f r) = key r) \<Longrightarrow> sql_keyed key (sql_update key k f t)"
  by (simp add: sql_keyed_def sql_update_def comp_def if_distrib cong: if_cong)

lemma sql_keyed_filter: "sql_keyed key t \<Longrightarrow> sql_keyed key (filter P t)"
  by (simp add: sql_keyed_def distinct_map_filter)

lemma sql_keyed_insert: "sql_keyed key t \<Longrightarrow> sql_insert key r t = Some t' \<Longrightarrow> sql_keyed key t'"
  by (auto simp: sql_keyed_def sql_insert_Some)

lemma list_keyed_table:
  "keyed_table key (sql_keyed key) [] (sql_select key) (sql_insert key) (sql_update key) (sql_delete key)"
proof (unfold_locales, goal_cases)
  case 1
  then show ?case by (simp add: sql_keyed_def)
next
  case (2 k)
  then show ?case by (simp add: sql_select_def)
next
  case (3 t k r)
  then show ?case by (blast dest: sql_select_mem)
next
  case (4 r t)
  then show ?case by (simp add: sql_insert_None sql_select_None)
next
  case (5 r t t')
  then have "sql_select key t (key r) = None" and t': "t' = t @ [r]"
    by (simp_all add: sql_insert_Some sql_select_None)
  then show ?case by (auto simp: sql_select_append fun_eq_iff split: option.splits)
next
  case (6 t r t')
  then show ?case by (rule sql_keyed_insert)
next
  case (7 f k t)
  then show ?case by (rule sql_select_update)
next
  case (8 t f k)
  then show ?case by (rule sql_keyed_update)
next
  case (9 k t)
  then show ?case by (rule sql_select_delete)
next
  case (10 t k)
  then show ?case by (simp add: sql_delete_def sql_keyed_filter)
qed

end
