(* ===== verification/JobStore.thy ===== *)
theory JobStore
  imports JobTypes SqlTable "HOL-Library.Multiset"
begin

text \<open>
  The SQLite job store of \<open>internal/jobs/store.go\<close>. The \<open>jobs\<close> table is the list of its rows in
  rowid order, with the columns of \<open>internal/db/schema.sql\<close>; timestamps are Unix milliseconds,
  as the statements store them. Every method is a function of the table (and of the clock, the
  argument \<open>now\<close>, where the method reads it). Failures of the database itself, such as a
  canceled context, are a matter of the caller: the queue and the sweeper model them there.
\<close>

subsection \<open>Rows and jobs\<close>

record job_row =
  r_id :: string
  r_type :: Type
  r_title :: string
  r_source :: string
  r_params :: string
  r_input_path :: string
  r_output_path :: string
  r_output_size :: int
  r_status :: Status
  r_progress :: float64
  r_stage :: string
  r_error :: string
  r_created_at :: int
  r_updated_at :: int
  r_started_at :: "int option"
  r_finished_at :: "int option"
  r_expires_at :: "int option"

type_synonym Store = "job_row list"

datatype store_error = ErrNotFound | ErrConstraint | ErrUnavailable

definition nullMillis :: "Time option \<Rightarrow> int option" where
  "nullMillis t = map_option UnixMilli t"

definition millisPtr :: "int option \<Rightarrow> Time option" where
  "millisPtr n = map_option time_of_milli n"

definition baseName :: "string \<Rightarrow> string" where
  "baseName p = (case LastIndexByte p CHR ''/'' of Some i \<Rightarrow> drop (Suc i) p | None \<Rightarrow> p)"

definition scanJob :: "job_row \<Rightarrow> Job" where
  "scanJob r = \<lparr>j_ID = r_id r, j_Type = r_type r, j_Title = r_title r, j_Source = r_source r,
     j_Params = r_params r, j_InputPath = r_input_path r, j_OutputPath = r_output_path r,
     j_OutputName = baseName (r_output_path r), j_OutputSize = r_output_size r,
     j_Status = r_status r, j_Progress = r_progress r, j_Stage = r_stage r, j_Error = r_error r,
     j_CreatedAt = time_of_milli (r_created_at r), j_UpdatedAt = time_of_milli (r_updated_at r),
     j_StartedAt = millisPtr (r_started_at r), j_FinishedAt = millisPtr (r_finished_at r),
     j_ExpiresAt = millisPtr (r_expires_at r)\<rparr>"

text \<open>The values of the \<open>INSERT\<close> statement in \<open>Create\<close>.\<close>

definition row_of_job :: "Job \<Rightarrow> job_row" where
  "row_of_job j = \<lparr>r_id = j_ID j, r_type = j_Type j, r_title = j_Title j, r_source = j_Source j,
     r_params = j_Params j, r_input_path = j_InputPath j, r_output_path = j_OutputPath j,
     r_output_size = j_OutputSize j, r_status = j_Status j, r_progress = j_Progress j,
     r_stage = j_Stage j, r_error = j_Error j, r_created_at = UnixMilli (j_CreatedAt j),
     r_updated_at = UnixMilli (j_UpdatedAt j), r_started_at = nullMillis (j_StartedAt j),
     r_finished_at = nullMillis (j_FinishedAt j), r_expires_at = nullMillis (j_ExpiresAt j)\<rparr>"

subsection \<open>The table's statements\<close>

definition row_of :: "Store \<Rightarrow> string \<Rightarrow> job_row option" where
  "row_of = sql_select r_id"

definition insert_row :: "job_row \<Rightarrow> Store \<Rightarrow> Store option" where
  "insert_row = sql_insert r_id"

definition update_row :: "string \<Rightarrow> (job_row \<Rightarrow> job_row) \<Rightarrow> Store \<Rightarrow> Store" where
  "update_row = sql_update r_id"

definition delete_row :: "string \<Rightarrow> Store \<Rightarrow> Store" where
  "delete_row = sql_delete r_id"

definition store_ok :: "Store \<Rightarrow> bool" where
  "store_ok = sql_keyed r_id"

interpretation jobs: keyed_table r_id store_ok "[]" row_of insert_row update_row delete_row
  unfolding store_ok_def row_of_def insert_row_def update_row_def delete_row_def
  by (rule list_keyed_table)

lemmas jobs_table_defs = store_ok_def row_of_def insert_row_def update_row_def delete_row_def

subsection \<open>Operations\<close>

text \<open>
  \<open>Create\<close> returns the new table together with the job as the method leaves it: the caller's
  struct is filled in before the statement runs, also when the statement fails. \<open>nid\<close> is what
  \<open>NewID\<close> returns.
\<close>

definition prepare_job :: "Time \<Rightarrow> string \<Rightarrow> Job \<Rightarrow> Job" where
  "prepare_job now nid j =
     (let j = (if j_ID j = '''' then j\<lparr>j_ID := nid\<rparr> else j);
          j = j\<lparr>j_CreatedAt := now, j_UpdatedAt := now\<rparr>;
          j = (if j_Status j = StatusUnset then j\<lparr>j_Status := StatusQueued\<rparr> else j)
      in if j_Params j = '''' then j\<lparr>j_Params := ''{}''\<rparr> else j)"

definition Create :: "Time \<Rightarrow> string \<Rightarrow> Store \<Rightarrow> Job \<Rightarrow> (store_error, Store) result \<times> Job" where
  "Create now nid s j =
     (let j = prepare_job now nid j
      in (case insert_row (row_of_job j) s of None \<Rightarrow> Inl ErrConstraint | Some s' \<Rightarrow> Inr s', j))"

definition Get :: "Store \<Rightarrow> string \<Rightarrow> (store_error, Job) result" where
  "Get s i = (case row_of s i of None \<Rightarrow> Inl ErrNotFound | Some r \<Rightarrow> Inr (scanJob r))"

text \<open>\<open>ORDER BY created_at, rowid\<close>: a stable sort of the rows, which are in rowid order.\<close>

definition by_creation :: "Store \<Rightarrow> Store" where
  "by_creation s = sort_key r_created_at s"

definition list_limit :: "int \<Rightarrow> nat" where
  "list_limit limit = (if limit \<le> 0 \<or> limit > 500 then 200 else nat limit)"

definition List_jobs :: "Store \<Rightarrow> string \<Rightarrow> int \<Rightarrow> Job list" where
  "List_jobs s status limit =
     map scanJob (take (list_limit limit) (rev (by_creation
       (if status \<noteq> '''' then filter (\<lambda>r. status_string (r_status r) = status) s else s))))"

definition coalesce :: "'a option \<Rightarrow> 'a option \<Rightarrow> 'a option" where
  "coalesce a b = (case a of Some x \<Rightarrow> Some x | None \<Rightarrow> b)"

definition status_update :: "Time \<Rightarrow> Status \<Rightarrow> string \<Rightarrow> job_row \<Rightarrow> job_row" where
  "status_update now st errText r =
     (let started = (if st = StatusRunning then Some (UnixMilli now) else None);
          finished = (if st \<noteq> StatusRunning \<and> Terminal st then Some (UnixMilli now) else None)
      in r\<lparr>r_status := st, r_error := errText, r_updated_at := UnixMilli now,
           r_started_at := coalesce started (r_started_at r),
           r_finished_at := coalesce finished (r_finished_at r)\<rparr>)"

definition SetStatus :: "Time \<Rightarrow> Store \<Rightarrow> string \<Rightarrow> Status \<Rightarrow> string \<Rightarrow> Store" where
  "SetStatus now s i st errText = update_row i (status_update now st errText) s"

definition progress_update :: "Time \<Rightarrow> float64 \<Rightarrow> string \<Rightarrow> job_row \<Rightarrow> job_row" where
  "progress_update now pct stage r =
     r\<lparr>r_progress := pct, r_stage := stage, r_updated_at := UnixMilli now\<rparr>"

definition SetProgress :: "Time \<Rightarrow> Store \<Rightarrow> string \<Rightarrow> float64 \<Rightarrow> string \<Rightarrow> Store" where
  "SetProgress now s i pct stage = update_row i (progress_update now pct stage) s"

definition output_update :: "Time \<Rightarrow> string \<Rightarrow> string \<Rightarrow> int \<Rightarrow> job_row \<Rightarrow> job_row" where
  "output_update now path name sz r =
     r\<lparr>r_output_path := path, r_output_size := sz,
       r_title := (if name = '''' then r_title r else name), r_updated_at := UnixMilli now\<rparr>"

definition SetOutput :: "Time \<Rightarrow> Store \<Rightarrow> string \<Rightarrow> string \<Rightarrow> string \<Rightarrow> int \<Rightarrow> Store" where
  "SetOutput now s i path name sz = update_row i (output_update now path name sz) s"

definition Delete :: "Store \<Rightarrow> string \<Rightarrow> (store_error, Store) result" where
  "Delete s i = (if row_of s i = None then Inl ErrNotFound else Inr (delete_row i s))"

definition row_expired :: "Time \<Rightarrow> job_row \<Rightarrow> bool" where
  "row_expired now r \<longleftrightarrow>
     (case r_expires_at r of None \<Rightarrow> False | Some e \<Rightarrow> e \<le> UnixMilli now) \<and> r_status r \<noteq> StatusExpired"

definition Expired :: "Store \<Rightarrow> Time \<Rightarrow> Job list" where
  "Expired s now = map scanJob (filter (row_expired now) s)"

text \<open>\<open>FailInterrupted\<close>: the new table and the number of rows affected.\<close>

definition interrupt_row :: "Time \<Rightarrow> job_row \<Rightarrow> job_row" where
  "interrupt_row now r =
     (if r_status r = StatusRunning
      then r\<lparr>r_status := StatusFailed, r_error := ''interrupted by restart'',
             r_updated_at := UnixMilli now\<rparr>
      else r)"

definition FailInterrupted :: "Time \<Rightarrow> Store \<Rightarrow> Store \<times> nat" where
  "FailInterrupted now s =
     (map (interrupt_row now) s, length (filter (\<lambda>r. r_status r = StatusRunning) s))"

text \<open>\<open>SELECT DISTINCT input_path\<close>; the Go map it fills is a set, here its members.\<close>

definition InputPaths :: "Store \<Rightarrow> string list" where
  "InputPaths s = remdups (map r_input_path (filter (\<lambda>r. r_input_path r \<noteq> '''') s))"

definition InputPathShared :: "Store \<Rightarrow> string \<Rightarrow> string \<Rightarrow> bool" where
  "InputPathShared s path exceptID =
     (if path = '''' then False
      else list_ex (\<lambda>r. r_input_path r = path \<and> r_id r \<noteq> exceptID) s)"

definition QueuedIDs :: "Store \<Rightarrow> string list" where
  "QueuedIDs s = map r_id (by_creation (filter (\<lambda>r. r_status r = StatusQueued) s))"

subsection \<open>How the operations act on rows\<close>

lemma r_id_updates [simp]:
  "r_id (status_update now st e r) = r_id r"
  "r_id (progress_update now p g r) = r_id r"
  "r_id (output_update now a b c r) = r_id r"
  "r_id (interrupt_row now r) = r_id r"
  by (simp_all add: status_update_def progress_update_def output_update_def interrupt_row_def Let_def)

lemma r_status_updates [simp]:
  "r_status (status_update now st e r) = st"
  "r_status (progress_update now p g r) = r_status r"
  "r_status (output_update now a b c r) = r_status r"
  by (simp_all add: status_update_def progress_update_def output_update_def Let_def)

lemma row_of_SetStatus [store_simps]:
  "row_of (SetStatus now s i st e) = (row_of s)(i := map_option (status_update now st e) (row_of s i))"
  by (simp add: SetStatus_def jobs.sel_upd)

lemma row_of_SetProgress [store_simps]:
  "row_of (SetProgress now s i p g) = (row_of s)(i := map_option (progress_update now p g) (row_of s i))"
  by (simp add: SetProgress_def jobs.sel_upd)

lemma row_of_SetOutput [store_simps]:
  "row_of (SetOutput now s i a b c) = (row_of s)(i := map_option (output_update now a b c) (row_of s i))"
  by (simp add: SetOutput_def jobs.sel_upd)

lemma row_of_delete_row [store_simps]: "row_of (delete_row i s) = (row_of s)(i := None)"
  by (rule jobs.sel_del)

lemma row_of_interrupt: "row_of (map (interrupt_row now) s) i = map_option (interrupt_row now) (row_of s i)"
  by (simp add: row_of_def sql_select_def find_map_preserving)

lemma store_ok_updates [simp, inv_intros]:
  "store_ok s \<Longrightarrow> store_ok (SetStatus now s i st e)"
  "store_ok s \<Longrightarrow> store_ok (SetProgress now s i p g)"
  "store_ok s \<Longrightarrow> store_ok (SetOutput now s i a b c)"
  "store_ok s \<Longrightarrow> store_ok (delete_row i s)"
  by (simp_all add: SetStatus_def SetProgress_def SetOutput_def jobs.invar_upd jobs.invar_del)

lemma row_of_mem: "row_of s i = Some r \<Longrightarrow> r \<in> set s \<and> r_id r = i"
  unfolding row_of_def by (rule sql_select_mem)

lemma row_of_iff: "store_ok s \<Longrightarrow> row_of s i = Some r \<longleftrightarrow> r \<in> set s \<and> r_id r = i"
  unfolding row_of_def store_ok_def by (rule sql_select_distinct)

lemma row_of_None: "row_of s i = None \<longleftrightarrow> i \<notin> r_id ` set s"
  unfolding row_of_def by (rule sql_select_None)

lemma r_id_row_of_job [simp]: "r_id (row_of_job j) = j_ID j"
  by (simp add: row_of_job_def)

lemma scanJob_simps [simp]:
  "j_ID (scanJob r) = r_id r" "j_Type (scanJob r) = r_type r" "j_Status (scanJob r) = r_status r"
  "j_InputPath (scanJob r) = r_input_path r" "j_OutputPath (scanJob r) = r_output_path r"
  "j_OutputSize (scanJob r) = r_output_size r"
  by (simp_all add: scanJob_def)

lemma Get_Inr: "Get s i = Inr j \<longleftrightarrow> (\<exists>r. row_of s i = Some r \<and> j = scanJob r)"
  by (auto simp: Get_def split: option.splits)

lemma Create_Inr:
  "Create now nid s j = (Inr s', j') \<longleftrightarrow>
     j' = prepare_job now nid j \<and> insert_row (row_of_job j') s = Some s'"
  by (auto simp: Create_def Let_def split: option.splits)

lemma row_of_Create [store_simps]:
  "Create now nid s j = (Inr s', j') \<Longrightarrow> row_of s' = (row_of s)(j_ID j' \<mapsto> row_of_job j')"
  by (auto simp: Create_Inr dest: jobs.ins_Some)

lemma store_ok_Create: "store_ok s \<Longrightarrow> Create now nid s j = (Inr s', j') \<Longrightarrow> store_ok s'"
  by (auto simp: Create_Inr intro: jobs.invar_ins)

lemma store_ok_FailInterrupted [simp]: "store_ok s \<Longrightarrow> store_ok (map (interrupt_row now) s)"
  by (simp add: store_ok_def sql_keyed_def comp_def)

subsection \<open>Properties\<close>

text \<open>
  What a job looks like once it has been through the table: timestamps cut to milliseconds,
  the output name recomputed from the output path.
\<close>

definition stored_view :: "Job \<Rightarrow> Job" where
  "stored_view j = (let cut = (\<lambda>t. time_of_milli (UnixMilli t)) in
     j\<lparr>j_OutputName := baseName (j_OutputPath j), j_CreatedAt := cut (j_CreatedAt j),
       j_UpdatedAt := cut (j_UpdatedAt j), j_StartedAt := map_option cut (j_StartedAt j),
       j_FinishedAt := map_option cut (j_FinishedAt j),
       j_ExpiresAt := map_option cut (j_ExpiresAt j)\<rparr>)"

lemma scanJob_row_of_job: "scanJob (row_of_job j) = stored_view j"
  by (simp add: scanJob_def row_of_job_def stored_view_def Let_def millisPtr_def nullMillis_def
      option.map_comp comp_def)

lemma prepare_job_ID: "j_ID (prepare_job now nid j) = (if j_ID j = '''' then nid else j_ID j)"
  by (simp add: prepare_job_def Let_def)

lemma create_get:
  assumes "Create now nid s j = (Inr s', j')"
  shows "Get s' i = (if i = j_ID j' then Inr (stored_view j') else Get s i)"
  by (simp add: Get_def row_of_Create [OF assms] scanJob_row_of_job)

lemma create_conflict:
  "Create now nid s j = (Inl e, j') \<longleftrightarrow>
     e = ErrConstraint \<and> j' = prepare_job now nid j \<and> (\<exists>k. Get s (j_ID j') = Inr k)"
proof (cases "insert_row (row_of_job (prepare_job now nid j)) s")
  case None
  then have "\<exists>r. row_of s (j_ID (prepare_job now nid j)) = Some r" by (simp add: jobs.ins_None)
  with None show ?thesis by (auto simp: Create_def Let_def Get_def)
next
  case (Some s')
  then have "row_of s (j_ID (prepare_job now nid j)) = None"
    by (metis jobs.ins_None option.simps(3) r_id_row_of_job)
  with Some show ?thesis by (auto simp: Create_def Let_def Get_def)
qed

text \<open>Row \<open>p\<close> of the table is listed before row \<open>q\<close>: created later, or inserted later on a tie.\<close>

definition newer :: "Store \<Rightarrow> nat \<Rightarrow> nat \<Rightarrow> bool" where
  "newer s p q \<longleftrightarrow> r_created_at (s ! q) < r_created_at (s ! p) \<or>
     r_created_at (s ! q) = r_created_at (s ! p) \<and> q < p"

definition listed :: "Store \<Rightarrow> string \<Rightarrow> nat set" where
  "listed s status =
     {p. p < length s \<and> (status = '''' \<or> status_string (r_status (s ! p)) = status)}"

lemma filter_nth: "filter P s = map ((!) s) (filter (\<lambda>p. P (s ! p)) [0..<length s])"
proof -
  have "filter P (map ((!) s) [0..<length s]) = map ((!) s) (filter (P \<circ> (!) s) [0..<length s])"
    by (rule filter_map)
  then show ?thesis by (simp add: map_nth comp_def)
qed

lemma by_creation_positions:
  "\<exists>ps. by_creation (filter P s) = map ((!) s) ps \<and> distinct ps \<and>
     set ps = {p. p < length s \<and> P (s ! p)} \<and> sorted_wrt (\<lambda>p q. newer s q p) ps"
proof -
  let ?qs = "filter (\<lambda>p. P (s ! p)) [0..<length s]"
  let ?ps = "sort_key (\<lambda>p. r_created_at (s ! p)) ?qs"
  have "by_creation (filter P s) = map ((!) s) ?ps"
    by (simp add: by_creation_def filter_nth [of P s] sort_key_map comp_def)
  moreover have "sorted_wrt (key_less (\<lambda>p. r_created_at (s ! p))) ?ps"
    by (rule sort_key_key_less) (simp add: sorted_wrt_filter)
  then have "sorted_wrt (\<lambda>p q. newer s q p) ?ps"
    by (simp add: key_less_def [abs_def] newer_def)
  moreover have "set ?ps = {p. p < length s \<and> P (s ! p)}" by auto
  ultimately show ?thesis by (intro exI [of _ ?ps]) (simp add: distinct_sort)
qed

lemma list_jobs_newest_first:
  "\<exists>ps. List_jobs s status limit = map (\<lambda>p. scanJob (s ! p)) ps \<and> sorted_wrt (newer s) ps \<and>
     set ps \<subseteq> listed s status \<and> length ps = min (list_limit limit) (card (listed s status)) \<and>
     (listed s status - set ps) \<times> set ps \<subseteq> {(p, q). newer s q p}"
proof -
  let ?P = "\<lambda>r. status = '''' \<or> status_string (r_status r) = status"
  obtain qs where qs: "by_creation (filter ?P s) = map ((!) s) qs" "distinct qs"
      "set qs = {p. p < length s \<and> ?P (s ! p)}" "sorted_wrt (\<lambda>p q. newer s q p) qs"
    using by_creation_positions [of ?P s] by blast
  let ?n = "list_limit limit"
  let ?ps = "take ?n (rev qs)" and ?rest = "drop ?n (rev qs)"
  have all: "set qs = listed s status" using qs(3) by (auto simp: listed_def)
  have sel: "(if status \<noteq> '''' then filter (\<lambda>r. status_string (r_status r) = status) s else s) = filter ?P s"
    by auto
  have "List_jobs s status limit = map (\<lambda>p. scanJob (s ! p)) ?ps"
    by (simp only: List_jobs_def sel qs(1)) (simp add: rev_map take_map comp_def)
  moreover have srt: "sorted_wrt (newer s) (rev qs)"
    using qs(4) by (simp add: sorted_wrt_rev)
  then have "sorted_wrt (newer s) (?ps @ ?rest)" by simp
  then have "sorted_wrt (newer s) ?ps" and cross: "\<forall>q \<in> set ?ps. \<forall>p \<in> set ?rest. newer s q p"
    unfolding sorted_wrt_append by blast+
  moreover have "set ?ps \<subseteq> listed s status"
    using set_take_subset [of ?n "rev qs"] all by simp
  moreover have "length ?ps = min ?n (card (listed s status))"
    using distinct_card [OF qs(2)] all by (simp add: min.commute)
  moreover have "listed s status - set ?ps \<subseteq> set ?rest"
    using all by (metis Diff_subset_conv append_take_drop_id set_append set_rev subset_refl)
  then have "(listed s status - set ?ps) \<times> set ?ps \<subseteq> {(p, q). newer s q p}"
    using cross by blast
  ultimately show ?thesis by blast
qed

lemma QueuedIDs_set: "set (QueuedIDs s) = r_id ` {r \<in> set s. r_status r = StatusQueued}"
  by (simp add: QueuedIDs_def by_creation_def)

lemma QueuedIDs_distinct: "store_ok s \<Longrightarrow> distinct (QueuedIDs s)"
proof -
  assume "store_ok s"
  then have "distinct (map r_id (filter (\<lambda>r. r_status r = StatusQueued) s))"
    by (simp add: store_ok_def sql_keyed_def distinct_map_filter)
  moreover have "mset (QueuedIDs s) = mset (map r_id (filter (\<lambda>r. r_status r = StatusQueued) s))"
    by (simp add: QueuedIDs_def by_creation_def)
  ultimately show ?thesis by (metis mset_eq_imp_distinct_iff)
qed

lemma QueuedIDs_row:
  assumes "store_ok s"
  shows "i \<in> set (QueuedIDs s) \<longleftrightarrow> (\<exists>r. row_of s i = Some r \<and> r_status r = StatusQueued)"
  using assms by (auto simp: QueuedIDs_set row_of_iff)

lemma InputPathShared_iff:
  "InputPathShared s path i \<longleftrightarrow> path \<noteq> '''' \<and> (\<exists>r \<in> set s. r_input_path r = path \<and> r_id r \<noteq> i)"
  by (simp add: InputPathShared_def list_ex_iff)

lemma InputPaths_set: "set (InputPaths s) = r_input_path ` set s - {''''}"
  by (auto simp: InputPaths_def)

lemma Expired_mem:
  "j \<in> set (Expired s now) \<longleftrightarrow> (\<exists>r \<in> set s. row_expired now r \<and> j = scanJob r)"
  by (auto simp: Expired_def)

text \<open>
  Recovery at startup: nothing is left running, only running rows change, and the count is
  the number of rows changed.
\<close>

lemma FailInterrupted_rows:
  assumes "FailInterrupted now s = (s', n)"
  shows "row_of s' i = map_option (interrupt_row now) (row_of s i)"
    and "n = card {i \<in> {..<length s}. r_status (s ! i) = StatusRunning}"
  using assms
  by (auto simp: FailInterrupted_def row_of_interrupt length_filter_conv_card lessThan_def
      intro!: arg_cong [where f = card])

lemma interrupt_row_status:
  "r_status (interrupt_row now r) = (if r_status r = StatusRunning then StatusFailed else r_status r)"
  by (simp add: interrupt_row_def)

end
