(* ===== verification/Bus.thy ===== *)
theory Bus
  imports JobTypes "HOL-Library.Sublist"
begin

text \<open>
  The event bus of \<open>internal/jobs/bus.go\<close>. A subscriber's channel is the list of the events in
  its buffer; \<open>Publish\<close> appends to every channel that has room and drops the event for the
  others. \<open>closed\<close> records the channels a cancel function has closed.
\<close>

datatype EventKind = EventCreated | EventProgress | EventStatus | EventDeleted

record Event =
  Kind :: EventKind
  JobID :: string
  e_Job :: "Job option"
  e_Progress :: "Progress option"

record Bus =
  next_sub :: nat
  subs :: "(nat, Event list) assoc"
  closed :: "nat list"

definition chan_cap :: nat where
  "chan_cap = 64"

definition NewBus :: Bus where
  "NewBus = \<lparr>next_sub = 0, subs = [], closed = []\<rparr>"

definition Subscribe :: "Bus \<Rightarrow> nat \<times> Bus" where
  "Subscribe b = (next_sub b, b\<lparr>next_sub := Suc (next_sub b), subs := put (next_sub b) [] (subs b)\<rparr>)"

text \<open>The cancel function of subscription \<open>i\<close>; \<open>once\<close> makes a second call do nothing.\<close>

definition Unsubscribe :: "nat \<Rightarrow> Bus \<Rightarrow> Bus" where
  "Unsubscribe i b =
     (if i \<in> set (closed b) then b
      else b\<lparr>subs := remove_key i (subs b), closed := i # closed b\<rparr>)"

definition try_send :: "Event \<Rightarrow> Event list \<Rightarrow> Event list" where
  "try_send e buf = (if length buf < chan_cap then buf @ [e] else buf)"

definition Publish :: "Event \<Rightarrow> Bus \<Rightarrow> Bus" where
  "Publish e b = b\<lparr>subs := map (\<lambda>(i, buf). (i, try_send e buf)) (subs b)\<rparr>"

definition Subscribers :: "Bus \<Rightarrow> nat" where
  "Subscribers b = length (subs b)"

text \<open>The subscriber takes the oldest event of its buffer.\<close>

definition Receive :: "nat \<Rightarrow> Bus \<Rightarrow> Event option \<times> Bus" where
  "Receive i b = (case map_of (subs b) i of
      Some (e # buf) \<Rightarrow> (Some e, b\<lparr>subs := put i buf (subs b)\<rparr>)
    | _ \<Rightarrow> (None, b))"

subsection \<open>Invariant\<close>

definition open_sub :: "Bus \<Rightarrow> nat \<Rightarrow> bool" where
  "open_sub b i \<longleftrightarrow> map_of (subs b) i \<noteq> None"

definition buffer :: "Bus \<Rightarrow> nat \<Rightarrow> Event list" where
  "buffer b i = (case map_of (subs b) i of None \<Rightarrow> [] | Some buf \<Rightarrow> buf)"

definition bus_inv :: "Bus \<Rightarrow> bool" where
  "bus_inv b \<longleftrightarrow> (\<forall>i. open_sub b i \<longrightarrow> i < next_sub b) \<and> (\<forall>i. length (buffer b i) \<le> chan_cap) \<and>
     (\<forall>i \<in> set (closed b). \<not> open_sub b i \<and> i < next_sub b)"

lemma next_sub_ops [simp]:
  "next_sub (Publish e b) = next_sub b" "next_sub (Unsubscribe i b) = next_sub b"
  "next_sub (snd (Subscribe b)) = Suc (next_sub b)" "next_sub (snd (Receive i b)) = next_sub b"
  by (auto simp: Publish_def Unsubscribe_def Subscribe_def Receive_def split: option.splits list.splits)

lemma closed_ops [simp]:
  "closed (Publish e b) = closed b" "closed (snd (Subscribe b)) = closed b"
  "closed (snd (Receive i b)) = closed b" "set (closed (Unsubscribe i b)) = insert i (set (closed b))"
  by (auto simp: Publish_def Unsubscribe_def Subscribe_def Receive_def split: option.splits list.splits)

lemma map_of_Publish: "map_of (subs (Publish e b)) i = map_option (try_send e) (map_of (subs b) i)"
  by (simp add: Publish_def map_of_map)

lemma open_sub_ops [simp]:
  "open_sub (Publish e b) j = open_sub b j"
  "open_sub (snd (Subscribe b)) j = (j = next_sub b \<or> open_sub b j)"
  "open_sub (snd (Receive i b)) j = open_sub b j"
  "i \<notin> set (closed b) \<Longrightarrow> open_sub (Unsubscribe i b) j = (j \<noteq> i \<and> open_sub b j)"
  by (auto simp: open_sub_def map_of_Publish Subscribe_def Receive_def Unsubscribe_def
      split: option.splits list.splits)

lemma buffer_closed: "\<not> open_sub b i \<Longrightarrow> buffer b i = []"
  by (simp add: buffer_def open_sub_def)

lemma buffer_Publish:
  "buffer (Publish e b) i = (if open_sub b i then try_send e (buffer b i) else [])"
  by (auto simp: buffer_def map_of_Publish open_sub_def split: option.splits)

lemma buffer_Subscribe: "buffer (snd (Subscribe b)) i = (if i = next_sub b then [] else buffer b i)"
  by (simp add: buffer_def Subscribe_def)

lemma buffer_Unsubscribe:
  "buffer (Unsubscribe i b) j = (if i \<notin> set (closed b) \<and> j = i then [] else buffer b j)"
  by (simp add: buffer_def Unsubscribe_def)

lemma Receive_Some:
  "Receive i b = (Some e, b') \<Longrightarrow>
     buffer b i = e # buffer b' i \<and> b' = snd (Receive i b) \<and> (\<forall>j. j \<noteq> i \<longrightarrow> buffer b' j = buffer b j)"
  by (auto simp: Receive_def buffer_def split: option.splits list.splits)

lemma Receive_None: "Receive i b = (None, b') \<Longrightarrow> b' = b"
  by (auto simp: Receive_def split: option.splits list.splits)

lemma length_buffer_Receive: "length (buffer (snd (Receive i b)) j) \<le> length (buffer b j)"
  by (auto simp: Receive_def buffer_def split: option.splits list.splits)

lemma bus_inv_NewBus: "bus_inv NewBus"
  by (simp add: bus_inv_def NewBus_def open_sub_def buffer_def)

lemma bus_inv_Subscribe: "bus_inv b \<Longrightarrow> bus_inv (snd (Subscribe b))"
  by (auto simp: bus_inv_def buffer_Subscribe less_Suc_eq)

lemma bus_inv_Unsubscribe: "bus_inv b \<Longrightarrow> i < next_sub b \<Longrightarrow> bus_inv (Unsubscribe i b)"
proof (cases "i \<in> set (closed b)")
  case True
  assume "bus_inv b"
  with True show ?thesis by (simp add: Unsubscribe_def)
next
  case False
  assume "bus_inv b" "i < next_sub b"
  with False show ?thesis by (auto simp: bus_inv_def buffer_Unsubscribe)
qed

lemma bus_inv_Publish: "bus_inv b \<Longrightarrow> bus_inv (Publish e b)"
  by (auto simp: bus_inv_def buffer_Publish try_send_def)

lemma bus_inv_Receive: "bus_inv b \<Longrightarrow> bus_inv (snd (Receive i b))"
  unfolding bus_inv_def open_sub_ops next_sub_ops closed_ops
  using length_buffer_Receive [of i b] by (auto intro: order_trans)

subsection \<open>Runs: what a subscriber sees\<close>

text \<open>
  A run interleaves publishers, subscribers and clients. Beside the bus, the trace keeps for
  every subscription the events published while it was open and the events its client took.
\<close>

datatype bus_op = Pub Event | Sub | Unsub nat | Recv nat

record bus_trace =
  tr_bus :: Bus
  tr_published :: "nat \<Rightarrow> Event list"
  tr_received :: "nat \<Rightarrow> Event list"

fun bus_step :: "bus_trace \<Rightarrow> bus_op \<Rightarrow> bus_trace" where
  "bus_step t (Pub e) = t\<lparr>tr_bus := Publish e (tr_bus t),
     tr_published := (\<lambda>i. if open_sub (tr_bus t) i then tr_published t i @ [e] else tr_published t i)\<rparr>"
| "bus_step t Sub = t\<lparr>tr_bus := snd (Subscribe (tr_bus t))\<rparr>"
| "bus_step t (Unsub i) =
     (if i < next_sub (tr_bus t) then t\<lparr>tr_bus := Unsubscribe i (tr_bus t)\<rparr> else t)"
| "bus_step t (Recv i) = (case Receive i (tr_bus t) of
      (None, _) \<Rightarrow> t
    | (Some e, b) \<Rightarrow> t\<lparr>tr_bus := b, tr_received := (tr_received t)(i := tr_received t i @ [e])\<rparr>)"

definition bus_start :: bus_trace where
  "bus_start = \<lparr>tr_bus = NewBus, tr_published = (\<lambda>_. []), tr_received = (\<lambda>_. [])\<rparr>"

definition bus_run :: "bus_op list \<Rightarrow> bus_trace" where
  "bus_run ops = foldl bus_step bus_start ops"

definition trace_inv :: "bus_trace \<Rightarrow> bool" where
  "trace_inv t \<longleftrightarrow> bus_inv (tr_bus t) \<and>
     (\<forall>i. next_sub (tr_bus t) \<le> i \<longrightarrow> tr_published t i = [] \<and> tr_received t i = []) \<and>
     (\<forall>i. subseq (tr_received t i @ buffer (tr_bus t) i) (tr_published t i))"

lemma trace_invD:
  assumes "trace_inv t"
  shows "bus_inv (tr_bus t)" and "next_sub (tr_bus t) \<le> i \<Longrightarrow> tr_published t i = []"
    and "next_sub (tr_bus t) \<le> i \<Longrightarrow> tr_received t i = []"
    and "subseq (tr_received t i @ buffer (tr_bus t) i) (tr_published t i)"
  using assms by (auto simp: trace_inv_def)

lemma bus_inv_open: "bus_inv b \<Longrightarrow> open_sub b i \<Longrightarrow> i < next_sub b"
  by (simp add: bus_inv_def)

lemma subseq_try_send: "subseq (xs @ buf) ys \<Longrightarrow> subseq (xs @ try_send e buf) (ys @ [e])"
  using list_emb_append_mono [of "(=)" "xs @ buf" ys "[e]" "[e]"]
  by (auto simp: try_send_def intro: list_emb_append2 subseq_order.trans)

lemma subseq_append_left: "subseq (xs @ zs) ys \<Longrightarrow> subseq xs ys"
  by (rule subseq_order.trans [OF _ _]) (auto intro: list_emb_append2)

lemma trace_inv_Pub: "trace_inv t \<Longrightarrow> trace_inv (bus_step t (Pub e))"
proof -
  assume t: "trace_inv t"
  have "subseq (tr_received t i @ buffer (Publish e (tr_bus t)) i)
      (if open_sub (tr_bus t) i then tr_published t i @ [e] else tr_published t i)" for i
    using trace_invD(4) [OF t, of i] by (auto simp: buffer_Publish buffer_closed intro: subseq_try_send)
  with t show ?thesis
    by (auto simp: trace_inv_def bus_inv_Publish dest: bus_inv_open)
qed

lemma trace_inv_Sub: "trace_inv t \<Longrightarrow> trace_inv (bus_step t Sub)"
  by (auto simp: trace_inv_def bus_inv_Subscribe buffer_Subscribe)

lemma trace_inv_Unsub: "trace_inv t \<Longrightarrow> trace_inv (bus_step t (Unsub i))"
proof -
  assume t: "trace_inv t"
  have "subseq (tr_received t j @ buffer (Unsubscribe i (tr_bus t)) j) (tr_published t j)" for j
    using trace_invD(4) [OF t, of j] by (auto simp: buffer_Unsubscribe intro: subseq_append_left)
  with t show ?thesis by (auto simp: trace_inv_def bus_inv_Unsubscribe)
qed

lemma trace_inv_Recv: "trace_inv t \<Longrightarrow> trace_inv (bus_step t (Recv i))"
proof -
  assume t: "trace_inv t"
  obtain o' b where r: "Receive i (tr_bus t) = (o', b)" by fastforce
  show ?thesis
  proof (cases o')
    case None
    with t r show ?thesis by simp
  next
    case (Some e)
    with r have eq: "buffer (tr_bus t) i = e # buffer b i" "b = snd (Receive i (tr_bus t))"
        "\<And>j. j \<noteq> i \<Longrightarrow> buffer b j = buffer (tr_bus t) j"
      using Receive_Some [of i "tr_bus t" e b] by blast+
    have "open_sub (tr_bus t) i" using eq(1) buffer_closed by fastforce
    then have "i < next_sub (tr_bus t)" using trace_invD(1) [OF t] bus_inv_open by blast
    moreover have "subseq (((tr_received t)(i := tr_received t i @ [e])) j @ buffer b j) (tr_published t j)" for j
      using trace_invD(4) [OF t, of j] eq(1,3) by (cases "j = i") auto
    moreover have "bus_inv b" "next_sub b = next_sub (tr_bus t)"
      using eq(2) bus_inv_Receive trace_invD(1) [OF t] by auto
    ultimately show ?thesis
      using r Some trace_invD(2,3) [OF t] by (auto simp: trace_inv_def)
  qed
qed

lemma trace_inv_run: "trace_inv t \<Longrightarrow> trace_inv (foldl bus_step t ops)"
proof (induction ops arbitrary: t)
  case Nil
  then show ?case by simp
next
  case (Cons op ops)
  then have "trace_inv (bus_step t op)"
    by (cases op) (blast intro: trace_inv_Pub trace_inv_Sub trace_inv_Unsub trace_inv_Recv)+
  with Cons.IH show ?case by simp
qed

lemma trace_inv_bus_run: "trace_inv (bus_run ops)"
  unfolding bus_run_def
  by (rule trace_inv_run)
    (simp add: trace_inv_def bus_start_def bus_inv_NewBus, simp add: NewBus_def buffer_def)

end
