(* ===== verification/Queue.thy ===== *)
theory Queue
  imports JobStore Bus
begin

text \<open>
  The worker pool of \<open>internal/jobs/queue.go\<close>. The state holds the job table, the bus, the
  buffered channel of job ids, the map \<open>running\<close> of cancel functions, one record per worker
  goroutine, and the submissions that have created their row and not yet sent its id. Each
  function below is one piece of the code that no other goroutine can observe half-done: a
  database statement with what surrounds it, a channel operation, or a critical section. Their
  interleavings are the relation \<open>qstep\<close> of the theory \<open>QueueRuns\<close>.

  The field \<open>q_dropped\<close> is bookkeeping of the model: the ids the code gave up on while their row
  still said "queued".
\<close>

subsection \<open>State\<close>

datatype cause = CtxCanceled | CtxTimedOut

text \<open>
  What \<open>execute\<close> still has to do after the runner has returned, one statement at a time:
  remove a partial output, the three updates of the row, and the status event.
\<close>

datatype act =
  ARemove string
| ASetOutput string string int
| ASetProgress float64 string
| ASetStatus Status string
| APublish

datatype phase =
  Idle
| Received string
| Loaded Job
| Registered Job
| Marked Job
| Running Job "Time option" "Time option"
| Finishing Job "act list"
| Exited

record worker =
  w_phase :: phase
  w_cause :: "cause option"

record queue =
  q_store :: Store
  q_bus :: Bus
  q_files :: "string \<Rightarrow> int option"
  q_runners :: "Type list"
  q_depth :: nat
  q_ch :: "string list"
  q_closed :: bool
  q_timeout :: int
  q_running :: "string \<Rightarrow> nat option"
  q_workers :: "worker list"
  q_pending :: "Job list"
  q_parent_done :: bool
  q_dropped :: "string list"

datatype queue_error = ErrQueueFull | ErrNoRunner | ErrNotCancelable | ErrCreate store_error | SendOnClosed

definition dbProgressInterval :: int where "dbProgressInterval = 2 * 1000000000"
definition busProgressInterval :: int where "busProgressInterval = 400 * 1000000"

definition NewQueue :: "Store \<Rightarrow> Bus \<Rightarrow> (string \<Rightarrow> int option) \<Rightarrow> int \<Rightarrow> queue" where
  "NewQueue s b fs depth = \<lparr>q_store = s, q_bus = b, q_files = fs, q_runners = [],
     q_depth = (if depth \<le> 0 then 256 else nat depth), q_ch = [], q_closed = False, q_timeout = 0,
     q_running = Map.empty, q_workers = [], q_pending = [], q_parent_done = False, q_dropped = []\<rparr>"

definition Register :: "Type \<Rightarrow> queue \<Rightarrow> queue" where
  "Register t q = q\<lparr>q_runners := List.insert t (q_runners q)\<rparr>"

definition SetTimeout :: "int \<Rightarrow> queue \<Rightarrow> queue" where
  "SetTimeout d q = q\<lparr>q_timeout := d\<rparr>"

definition Start :: "nat \<Rightarrow> queue \<Rightarrow> queue" where
  "Start n q = q\<lparr>q_workers := q_workers q @ replicate n \<lparr>w_phase = Idle, w_cause = None\<rparr>\<rparr>"

text \<open>\<open>Stop\<close> closes the channel; the workers then drain it and exit.\<close>

definition Stop :: "queue \<Rightarrow> queue" where
  "Stop q = q\<lparr>q_closed := True\<rparr>"

subsection \<open>Shared pieces\<close>

text \<open>\<open>publishStatus\<close>: the row is read back; a deleted row (or a canceled context) publishes nothing.\<close>

definition publishStatus :: "bool \<Rightarrow> string \<Rightarrow> queue \<Rightarrow> queue" where
  "publishStatus ctx_live i q =
     (case (if ctx_live then Get (q_store q) i else Inl ErrUnavailable) of
        Inl _ \<Rightarrow> q
      | Inr j \<Rightarrow> q\<lparr>q_bus := Publish \<lparr>Kind = EventStatus, JobID = i, e_Job = Some j, e_Progress = None\<rparr> (q_bus q)\<rparr>)"

definition fail :: "Time \<Rightarrow> string \<Rightarrow> string \<Rightarrow> queue \<Rightarrow> queue" where
  "fail now i errText q =
     publishStatus True i (q\<lparr>q_store := SetStatus now (q_store q) i StatusFailed errText\<rparr>)"

text \<open>\<open>cleanup\<close>: an empty path is left alone, a missing file is no error.\<close>

definition cleanup :: "string \<Rightarrow> queue \<Rightarrow> queue" where
  "cleanup path q = (if path = '''' then q else q\<lparr>q_files := (q_files q)(path := None)\<rparr>)"

definition set_worker :: "nat \<Rightarrow> worker \<Rightarrow> queue \<Rightarrow> queue" where
  "set_worker w x q = q\<lparr>q_workers := (q_workers q)[w := x]\<rparr>"

definition set_phase :: "nat \<Rightarrow> phase \<Rightarrow> queue \<Rightarrow> queue" where
  "set_phase w p q = set_worker w ((q_workers q ! w)\<lparr>w_phase := p\<rparr>) q"

definition phase_of :: "queue \<Rightarrow> nat \<Rightarrow> phase" where
  "phase_of q w = w_phase (q_workers q ! w)"

definition cause_of :: "queue \<Rightarrow> nat \<Rightarrow> cause option" where
  "cause_of q w = w_cause (q_workers q ! w)"

subsection \<open>Submitting\<close>

text \<open>
  The first half of \<open>Submit\<close>: the runner check, the row, the event. \<open>nid\<close> is what \<open>NewID\<close>
  returns. The job moves to \<open>q_pending\<close> until its id is sent.
\<close>

definition submit_create :: "Time \<Rightarrow> string \<Rightarrow> Job \<Rightarrow> queue \<Rightarrow> (queue_error, Job) result \<times> queue" where
  "submit_create now nid j q =
     (if j_Type j \<notin> set (q_runners q) then (Inl ErrNoRunner, q)
      else case Create now nid (q_store q) (j\<lparr>j_Status := StatusQueued\<rparr>) of
          (Inl e, _) \<Rightarrow> (Inl (ErrCreate e), q)
        | (Inr s, j') \<Rightarrow> (Inr j', q\<lparr>q_store := s,
            q_bus := Publish \<lparr>Kind = EventCreated, JobID = j_ID j', e_Job = Some j', e_Progress = None\<rparr> (q_bus q),
            q_pending := j' # q_pending q\<rparr>))"

text \<open>
  The second half: the non-blocking send. A full channel fails the row under the caller's
  context; \<open>ctx_live\<close> says whether that context is still alive. A send on the closed channel panics.
\<close>

definition send_or_fail :: "Time \<Rightarrow> bool \<Rightarrow> string \<Rightarrow> queue \<Rightarrow> (queue_error, unit) result \<times> queue" where
  "send_or_fail now ctx_live i q =
     (if q_closed q then (Inl SendOnClosed, q\<lparr>q_dropped := i # q_dropped q\<rparr>)
      else if length (q_ch q) < q_depth q then (Inr (), q\<lparr>q_ch := q_ch q @ [i]\<rparr>)
      else (Inl ErrQueueFull,
        if ctx_live then fail now i ''job queue is full'' q else q\<lparr>q_dropped := i # q_dropped q\<rparr>))"

definition submit_send :: "Time \<Rightarrow> bool \<Rightarrow> Job \<Rightarrow> queue \<Rightarrow> (queue_error, unit) result \<times> queue" where
  "submit_send now ctx_live j q =
     send_or_fail now ctx_live (j_ID j) (q\<lparr>q_pending := remove1 j (q_pending q)\<rparr>)"

text \<open>\<open>Submit\<close> run without interference: both halves in a row.\<close>

definition Submit :: "Time \<Rightarrow> string \<Rightarrow> Job \<Rightarrow> queue \<Rightarrow> (queue_error, Job) result \<times> queue" where
  "Submit now nid j q =
     (case submit_create now nid j q of
        (Inl e, q') \<Rightarrow> (Inl e, q')
      | (Inr j', q') \<Rightarrow> (case submit_send now True j' q' of
            (Inl e, q'') \<Rightarrow> (Inl e, q'')
          | (Inr _, q'') \<Rightarrow> (Inr j', q'')))"

fun resume_loop :: "Time \<Rightarrow> string list \<Rightarrow> nat \<times> queue \<Rightarrow> nat \<times> queue" where
  "resume_loop now [] (n, q) = (n, q)"
| "resume_loop now (i # ids) (n, q) =
     resume_loop now ids
       (case send_or_fail now True i q of (Inr _, q') \<Rightarrow> (Suc n, q') | (Inl _, q') \<Rightarrow> (n, q'))"

definition Resume :: "Time \<Rightarrow> queue \<Rightarrow> nat \<times> queue" where
  "Resume now q = resume_loop now (QueuedIDs (q_store q)) (0, q)"

subsection \<open>Canceling\<close>

definition cancel_worker :: "cause \<Rightarrow> worker \<Rightarrow> worker" where
  "cancel_worker c x = (if w_cause x = None then x\<lparr>w_cause := Some c\<rparr> else x)"

definition Cancel :: "string \<Rightarrow> queue \<Rightarrow> (queue_error, unit) result \<times> queue" where
  "Cancel i q = (case q_running q i of
      None \<Rightarrow> (Inl ErrNotCancelable, q)
    | Some w \<Rightarrow> (Inr (), set_worker w (cancel_worker CtxCanceled (q_workers q ! w)) q))"

text \<open>The root context is canceled: every derived context is canceled with it.\<close>

definition shutdown :: "queue \<Rightarrow> queue" where
  "shutdown q = q\<lparr>q_parent_done := True, q_workers := map (cancel_worker CtxCanceled) (q_workers q)\<rparr>"

definition expire_timeout :: "nat \<Rightarrow> queue \<Rightarrow> queue" where
  "expire_timeout w q = set_worker w (cancel_worker CtxTimedOut (q_workers q ! w)) q"

subsection \<open>A worker\<close>

text \<open>\<open>case id := <-q.ch\<close>, and the derived context \<open>execute\<close> opens.\<close>

definition worker_take :: "nat \<Rightarrow> queue \<Rightarrow> queue" where
  "worker_take w q = (case q_ch q of
      [] \<Rightarrow> q
    | i # ids \<Rightarrow> set_worker w \<lparr>w_phase = Received i,
          w_cause = (if q_parent_done q then Some CtxCanceled else None)\<rparr> (q\<lparr>q_ch := ids\<rparr>))"

definition exec_load :: "Time \<Rightarrow> nat \<Rightarrow> string \<Rightarrow> queue \<Rightarrow> queue" where
  "exec_load now w i q =
     (if cause_of q w \<noteq> None then set_phase w Idle (q\<lparr>q_dropped := i # q_dropped q\<rparr>)
      else case Get (q_store q) i of
          Inl _ \<Rightarrow> set_phase w Idle q
        | Inr j \<Rightarrow>
            (if j_Type j \<in> set (q_runners q) then set_phase w (Loaded j) q
             else set_phase w Idle
               (fail now i (''no runner registered for job type: '' @ type_string (j_Type j)) q)))"

definition exec_register :: "nat \<Rightarrow> Job \<Rightarrow> queue \<Rightarrow> queue" where
  "exec_register w j q =
     set_phase w (Registered j) (q\<lparr>q_running := (q_running q)(j_ID j \<mapsto> w)\<rparr>)"

definition exec_mark :: "Time \<Rightarrow> nat \<Rightarrow> Job \<Rightarrow> queue \<Rightarrow> queue" where
  "exec_mark now w j q = set_phase w (Marked j)
     (if cause_of q w = None then q\<lparr>q_store := SetStatus now (q_store q) (j_ID j) StatusRunning ''''\<rparr> else q)"

definition exec_announce :: "nat \<Rightarrow> Job \<Rightarrow> queue \<Rightarrow> queue" where
  "exec_announce w j q =
     set_phase w (Running j None None) (publishStatus (cause_of q w = None) (j_ID j) q)"

definition due :: "int \<Rightarrow> Time \<Rightarrow> Time option \<Rightarrow> bool" where
  "due interval now prev = (case prev of None \<Rightarrow> True | Some t \<Rightarrow> interval \<le> now - t)"

text \<open>The \<open>emit\<close> closure, with its two throttles.\<close>

definition exec_emit :: "Time \<Rightarrow> Progress \<Rightarrow> nat \<Rightarrow> Job \<Rightarrow> Time option \<Rightarrow> Time option \<Rightarrow> queue \<Rightarrow> queue" where
  "exec_emit now p w j lastDB lastBus q =
     (let db = due dbProgressInterval now lastDB;
          bus = (due busProgressInterval now lastBus \<or> Percent p \<ge> 100);
          q = (if db then q\<lparr>q_store := SetProgress now (q_store q) (j_ID j) (Percent p) (p_Stage p)\<rparr> else q);
          q = (if bus then q\<lparr>q_bus := Publish \<lparr>Kind = EventProgress, JobID = j_ID j, e_Job = None,
                 e_Progress = Some p\<rparr> (q_bus q)\<rparr> else q)
      in set_phase w (Running j (if db then Some now else lastDB) (if bus then Some now else lastBus)) q)"

text \<open>
  What is left to do once \<open>runner.Run\<close> has returned \<open>res\<close> and \<open>err\<close>: the branches on the
  error, on the context's cause and on \<open>os.Stat\<close>, in the code's order.
\<close>

definition timeout_text :: "int \<Rightarrow> string" where
  "timeout_text d = ''job stopped after hitting the '' @ duration_string d @ '' time limit (JOB_TIMEOUT_MINUTES)''"

definition finish_acts :: "int \<Rightarrow> cause option \<Rightarrow> (string \<Rightarrow> int option) \<Rightarrow> Result \<Rightarrow> string option \<Rightarrow> act list" where
  "finish_acts timeout cse files res err =
     (case err of
        Some e \<Rightarrow>
          [ARemove (OutputPath res),
           (if cse = Some CtxTimedOut then ASetStatus StatusFailed (timeout_text timeout)
            else if cse \<noteq> None then ASetStatus StatusCanceled ''canceled''
            else ASetStatus StatusFailed e),
           APublish]
      | None \<Rightarrow>
          (case files (OutputPath res) of
             None \<Rightarrow> [ASetStatus StatusFailed (''output missing: stat '' @ OutputPath res @ '': no such file or directory''), APublish]
           | Some sz \<Rightarrow> [ASetOutput (OutputPath res) (r_Title res) sz, ASetProgress 100 ''done'',
               ASetStatus StatusDone '''', APublish]))"

text \<open>The runner returns; \<open>files\<close> is the file system it leaves behind.\<close>

definition exec_return :: "(string \<Rightarrow> int option) \<Rightarrow> Result \<Rightarrow> string option \<Rightarrow> nat \<Rightarrow> Job \<Rightarrow> queue \<Rightarrow> queue" where
  "exec_return files res err w j q =
     set_phase w (Finishing j (finish_acts (q_timeout q) (cause_of q w) files res err))
       (q\<lparr>q_files := files\<rparr>)"

text \<open>The bookkeeping runs under a context that cannot be canceled (\<open>context.WithoutCancel\<close>).\<close>

fun do_act :: "Time \<Rightarrow> string \<Rightarrow> act \<Rightarrow> queue \<Rightarrow> queue" where
  "do_act now i (ARemove path) q = cleanup path q"
| "do_act now i (ASetOutput path title sz) q = q\<lparr>q_store := SetOutput now (q_store q) i path title sz\<rparr>"
| "do_act now i (ASetProgress pct stage) q = q\<lparr>q_store := SetProgress now (q_store q) i pct stage\<rparr>"
| "do_act now i (ASetStatus st e) q = q\<lparr>q_store := SetStatus now (q_store q) i st e\<rparr>"
| "do_act now i APublish q = publishStatus True i q"

definition exec_act :: "Time \<Rightarrow> nat \<Rightarrow> Job \<Rightarrow> act \<Rightarrow> act list \<Rightarrow> queue \<Rightarrow> queue" where
  "exec_act now w j a as q = set_phase w (Finishing j as) (do_act now (j_ID j) a q)"

text \<open>The deferred calls of \<open>execute\<close>: the id leaves \<open>running\<close>, the worker is free again.\<close>

definition exec_done :: "nat \<Rightarrow> Job \<Rightarrow> queue \<Rightarrow> queue" where
  "exec_done w j q = set_phase w Idle (q\<lparr>q_running := (q_running q)(j_ID j := None)\<rparr>)"

definition worker_exit :: "nat \<Rightarrow> queue \<Rightarrow> queue" where
  "worker_exit w q = set_phase w Exited q"

text \<open>Another component (the DELETE handler, the sweeper) removes a row.\<close>

definition drop_row :: "string \<Rightarrow> queue \<Rightarrow> queue" where
  "drop_row i q = q\<lparr>q_store := delete_row i (q_store q)\<rparr>"

end
