(* ===== verification/QueueRuns.thy ===== *)
theory QueueRuns
  imports Queue
begin

text \<open>
  All interleavings of submissions, workers, cancellations, deletions and shutdown, as a step
  relation on the queue of the theory \<open>Queue\<close>; the invariant that ties every row of the job
  table to the one place that is responsible for it; and restarts after a crash at any point.
\<close>

subsection \<open>Where a job is\<close>

datatype place = InChan | InPending | At phase

fun held :: "phase \<Rightarrow> string option" where
  "held Idle = None"
| "held Exited = None"
| "held (Received i) = Some i"
| "held (Loaded j) = Some (j_ID j)"
| "held (Registered j) = Some (j_ID j)"
| "held (Marked j) = Some (j_ID j)"
| "held (Running j _ _) = Some (j_ID j)"
| "held (Finishing j _) = Some (j_ID j)"

definition phase_tokens :: "phase \<Rightarrow> (string \<times> place) list" where
  "phase_tokens p = (case held p of None \<Rightarrow> [] | Some i \<Rightarrow> [(i, At p)])"

definition worker_tokens :: "worker \<Rightarrow> (string \<times> place) list" where
  "worker_tokens x = phase_tokens (w_phase x)"

definition tokens_of :: "string list \<Rightarrow> Job list \<Rightarrow> worker list \<Rightarrow> (string \<times> place) multiset" where
  "tokens_of ch pend ws = image_mset (\<lambda>i. (i, InChan)) (mset ch) +
     image_mset (\<lambda>j. (j_ID j, InPending)) (mset pend) + mset (concat (map worker_tokens ws))"

definition tokens :: "queue \<Rightarrow> (string \<times> place) multiset" where
  "tokens q = tokens_of (q_ch q) (q_pending q) (q_workers q)"

definition in_flight :: "queue \<Rightarrow> string set" where
  "in_flight q = fst ` set_mset (tokens q)"

text \<open>The tokens of everything but worker \<open>w\<close>.\<close>

definition rest_of :: "string list \<Rightarrow> Job list \<Rightarrow> worker list \<Rightarrow> nat \<Rightarrow> (string \<times> place) multiset" where
  "rest_of ch pend ws w = tokens_of ch pend (take w ws @ drop (Suc w) ws)"

lemma tokens_of_split:
  "w < length ws \<Longrightarrow> tokens_of ch pend ws = mset (worker_tokens (ws ! w)) + rest_of ch pend ws w"
  by (subst (1) id_take_nth_drop, assumption) (simp add: tokens_of_def rest_of_def)

lemma tokens_of_update:
  "w < length ws \<Longrightarrow> tokens_of ch pend (ws[w := x]) = mset (worker_tokens x) + rest_of ch pend ws w"
  by (simp add: upd_conv_take_nth_drop tokens_of_def rest_of_def)

subsection \<open>The steps\<close>

inductive qstep :: "queue \<Rightarrow> queue \<Rightarrow> bool" where
  create: "j_ID j = '''' \<Longrightarrow> nid \<notin> in_flight q \<Longrightarrow> qstep q (snd (submit_create now nid j q))"
| send: "j \<in> set (q_pending q) \<Longrightarrow> qstep q (snd (submit_send now live j q))"
| cancel: "qstep q (snd (Cancel i q))"
| shut: "qstep q (shutdown q)"
| stop: "qstep q (Stop q)"
| timeout: "w < length (q_workers q) \<Longrightarrow> 0 < q_timeout q \<Longrightarrow>
     (\<exists>j. phase_of q w = Registered j \<or> phase_of q w = Marked j \<or> (\<exists>a b. phase_of q w = Running j a b)) \<Longrightarrow>
     qstep q (expire_timeout w q)"
| take: "w < length (q_workers q) \<Longrightarrow> phase_of q w = Idle \<Longrightarrow> q_ch q \<noteq> [] \<Longrightarrow> qstep q (worker_take w q)"
| load: "w < length (q_workers q) \<Longrightarrow> phase_of q w = Received i \<Longrightarrow> qstep q (exec_load now w i q)"
| register: "w < length (q_workers q) \<Longrightarrow> phase_of q w = Loaded j \<Longrightarrow> qstep q (exec_register w j q)"
| mark: "w < length (q_workers q) \<Longrightarrow> phase_of q w = Registered j \<Longrightarrow> qstep q (exec_mark now w j q)"
| announce: "w < length (q_workers q) \<Longrightarrow> phase_of q w = Marked j \<Longrightarrow> qstep q (exec_announce w j q)"
| emit: "w < length (q_workers q) \<Longrightarrow> phase_of q w = Running j a b \<Longrightarrow> qstep q (exec_emit now p w j a b q)"
| return: "w < length (q_workers q) \<Longrightarrow> phase_of q w = Running j a b \<Longrightarrow>
     qstep q (exec_return files res err w j q)"
| act: "w < length (q_workers q) \<Longrightarrow> phase_of q w = Finishing j (x # as) \<Longrightarrow> qstep q (exec_act now w j x as q)"
| finish: "w < length (q_workers q) \<Longrightarrow> phase_of q w = Finishing j [] \<Longrightarrow> qstep q (exec_done w j q)"
| exit: "w < length (q_workers q) \<Longrightarrow> phase_of q w = Idle \<Longrightarrow>
     q_parent_done q \<or> (q_closed q \<and> q_ch q = []) \<Longrightarrow> qstep q (worker_exit w q)"
| drop: "qstep q (drop_row i q)"

text \<open>Starting the program on a job table: recovery, wiring, re-enqueueing, workers. The clock is read twice.\<close>

definition boot :: "Time \<Rightarrow> Time \<Rightarrow> Bus \<Rightarrow> (string \<Rightarrow> int option) \<Rightarrow> int \<Rightarrow> int \<Rightarrow> nat \<Rightarrow> Store \<Rightarrow> queue" where
  "boot now later b fs depth timeout n s =
     Start n (snd (Resume later (fold Register all_types
       (SetTimeout timeout (NewQueue (fst (FailInterrupted now s)) b fs depth)))))"

text \<open>
  Reachable states: the program boots on an empty table, takes steps, and may at any moment be
  killed and booted again on the table it left.
\<close>

inductive reachable :: "queue \<Rightarrow> bool" where
  first_boot: "reachable (boot now later b fs depth timeout n [])"
| step: "reachable q \<Longrightarrow> qstep q q' \<Longrightarrow> reachable q'"
| restart: "reachable q \<Longrightarrow> reachable (boot now later b fs depth timeout n (q_store q))"

subsection \<open>The invariant\<close>

definition final :: "Status \<Rightarrow> bool" where
  "final st \<longleftrightarrow> st = StatusDone \<or> st = StatusFailed \<or> st = StatusCanceled"

definition unfinished :: "Status \<Rightarrow> bool" where
  "unfinished st \<longleftrightarrow> st = StatusQueued \<or> st = StatusRunning"

fun acts_ok :: "act list \<Rightarrow> Status \<Rightarrow> bool" where
  "acts_ok [] cur = final cur"
| "acts_ok (ASetStatus st e # as) cur = (unfinished cur \<and> final st \<and> acts_ok as st)"
| "acts_ok (_ # as) cur = acts_ok as cur"

fun place_ok :: "place \<Rightarrow> Status \<Rightarrow> bool" where
  "place_ok (At (Marked j)) st = unfinished st"
| "place_ok (At (Running j a b)) st = unfinished st"
| "place_ok (At (Finishing j as)) st = acts_ok as st"
| "place_ok _ st = (st = StatusQueued)"

definition settled :: "queue \<Rightarrow> string \<Rightarrow> Status \<Rightarrow> bool" where
  "settled q i st \<longleftrightarrow> final st \<or> st = StatusQueued \<and> i \<in> set (q_dropped q)"

definition one_place :: "(string \<times> place) multiset \<Rightarrow> bool" where
  "one_place T \<longleftrightarrow> (\<forall>i. count (image_mset fst T) i \<le> 1)"

definition job_inv :: "queue \<Rightarrow> bool" where
  "job_inv q \<longleftrightarrow> store_ok (q_store q) \<and> one_place (tokens q) \<and>
     (\<forall>i r. row_of (q_store q) i = Some r \<longrightarrow>
        (\<forall>p. (i, p) \<in># tokens q \<longrightarrow> place_ok p (r_status r)) \<and>
        (i \<notin> in_flight q \<longrightarrow> settled q i (r_status r)))"

lemma job_invD:
  assumes "job_inv q"
  shows "store_ok (q_store q)" and "one_place (tokens q)"
    and "row_of (q_store q) i = Some r \<Longrightarrow> (i, p) \<in># tokens q \<Longrightarrow> place_ok p (r_status r)"
    and "row_of (q_store q) i = Some r \<Longrightarrow> i \<notin> in_flight q \<Longrightarrow> settled q i (r_status r)"
  using assms by (auto simp: job_inv_def)

lemma one_place_add_iff: "one_place (add_mset (i, p) R) \<longleftrightarrow> one_place R \<and> i \<notin> fst ` set_mset R"
proof -
  have "i \<notin> fst ` set_mset R \<longleftrightarrow> count (image_mset fst R) i = 0"
    by (simp only: count_eq_zero_iff set_image_mset)
  moreover have "one_place (add_mset (i, p) R) \<longleftrightarrow>
      (\<forall>k. (if k = i then 1 else 0) + count (image_mset fst R) k \<le> 1)"
    by (auto simp: one_place_def)
  moreover have "(\<forall>k. (if k = i then 1 else 0) + c k \<le> 1) \<longleftrightarrow> (\<forall>k. c k \<le> (1::nat)) \<and> c i = 0"
    for c :: "string \<Rightarrow> nat"
  proof
    assume a: "\<forall>k. (if k = i then 1 else 0) + c k \<le> 1"
    have "c i = 0" using spec [OF a, of i] by simp
    moreover have "c k \<le> 1" for k using spec [OF a, of k] by (simp split: if_splits)
    ultimately show "(\<forall>k. c k \<le> 1) \<and> c i = 0" by blast
  qed simp
  ultimately show ?thesis by (simp only: one_place_def)
qed

lemma in_flight_eq: "tokens q = add_mset (i, p) R \<Longrightarrow> in_flight q = insert i (fst ` set_mset R)"
  by (simp add: in_flight_def)

text \<open>
  The three ways a step can treat a job: hand it from one place to another, let go of it, or
  take it in. In each case only the row of that job may change.
\<close>

lemma job_inv_move:
  assumes inv: "job_inv q" and T: "tokens q = add_mset (i, p) R" and T': "tokens q' = add_mset (i, p') R"
    and ok: "store_ok (q_store q')"
    and rows: "\<And>k. k \<noteq> i \<Longrightarrow> row_of (q_store q') k = row_of (q_store q) k"
    and new: "\<And>r. row_of (q_store q') i = Some r \<Longrightarrow> place_ok p' (r_status r)"
    and drp: "set (q_dropped q) \<subseteq> set (q_dropped q')"
  shows "job_inv q'"
proof -
  from job_invD(2) [OF inv] T have one: "one_place R" "i \<notin> fst ` set_mset R"
    by (simp_all add: one_place_add_iff)
  have "place_ok p0 (r_status r)" if "row_of (q_store q') k = Some r" "(k, p0) \<in># tokens q'" for k r p0
  proof (cases "k = i")
    case True
    with that one(2) T' have "p0 = p'" by force
    with that True new show ?thesis by simp
  next
    case False
    with that T T' rows have "row_of (q_store q) k = Some r" "(k, p0) \<in># tokens q" by auto
    then show ?thesis by (rule job_invD(3) [OF inv])
  qed
  moreover have "settled q' k (r_status r)" if "row_of (q_store q') k = Some r" "k \<notin> in_flight q'" for k r
  proof -
    from that T T' have "k \<noteq> i" "k \<notin> in_flight q" by (auto simp: in_flight_def)
    with that rows have "settled q k (r_status r)" using job_invD(4) [OF inv] by simp
    with drp show ?thesis by (auto simp: settled_def)
  qed
  ultimately show ?thesis using ok one T' by (simp add: job_inv_def one_place_add_iff)
qed

lemma job_inv_release:
  assumes inv: "job_inv q" and T: "tokens q = add_mset (i, p) R" and T': "tokens q' = R"
    and ok: "store_ok (q_store q')"
    and rows: "\<And>k. k \<noteq> i \<Longrightarrow> row_of (q_store q') k = row_of (q_store q) k"
    and new: "\<And>r. row_of (q_store q') i = Some r \<Longrightarrow> settled q' i (r_status r)"
    and drp: "set (q_dropped q) \<subseteq> set (q_dropped q')"
  shows "job_inv q'"
proof -
  from job_invD(2) [OF inv] T have one: "one_place R" "i \<notin> fst ` set_mset R"
    by (simp_all add: one_place_add_iff)
  have "place_ok p0 (r_status r)" if "row_of (q_store q') k = Some r" "(k, p0) \<in># tokens q'" for k r p0
  proof -
    from that one(2) T' have "k \<noteq> i" by force
    with that T T' rows have "row_of (q_store q) k = Some r" "(k, p0) \<in># tokens q" by auto
    then show ?thesis by (rule job_invD(3) [OF inv])
  qed
  moreover have "settled q' k (r_status r)" if "row_of (q_store q') k = Some r" "k \<notin> in_flight q'" for k r
  proof (cases "k = i")
    case True
    with that new show ?thesis by simp
  next
    case False
    with that T T' have "k \<notin> in_flight q" by (auto simp: in_flight_def)
    with that False rows have "settled q k (r_status r)" using job_invD(4) [OF inv] by simp
    with drp show ?thesis by (auto simp: settled_def)
  qed
  ultimately show ?thesis using ok one T' by (simp add: job_inv_def)
qed

lemma job_inv_enter:
  assumes inv: "job_inv q" and fresh: "i \<notin> in_flight q" and T': "tokens q' = add_mset (i, p) (tokens q)"
    and ok: "store_ok (q_store q')"
    and rows: "\<And>k. k \<noteq> i \<Longrightarrow> row_of (q_store q') k = row_of (q_store q) k"
    and new: "\<And>r. row_of (q_store q') i = Some r \<Longrightarrow> place_ok p (r_status r)"
    and drp: "set (q_dropped q) \<subseteq> set (q_dropped q')"
  shows "job_inv q'"
proof -
  have "place_ok p0 (r_status r)" if "row_of (q_store q') k = Some r" "(k, p0) \<in># tokens q'" for k r p0
  proof (cases "k = i")
    case True
    with that fresh T' have "p0 = p" by (force simp: in_flight_def)
    with that True new show ?thesis by simp
  next
    case False
    with that T' rows have "row_of (q_store q) k = Some r" "(k, p0) \<in># tokens q" by auto
    then show ?thesis by (rule job_invD(3) [OF inv])
  qed
  moreover have "settled q' k (r_status r)" if "row_of (q_store q') k = Some r" "k \<notin> in_flight q'" for k r
  proof -
    from that T' have "k \<noteq> i" "k \<notin> in_flight q" by (auto simp: in_flight_def)
    with that rows have "settled q k (r_status r)" using job_invD(4) [OF inv] by simp
    with drp show ?thesis by (auto simp: settled_def)
  qed
  ultimately show ?thesis using ok fresh T' job_invD(2) [OF inv]
    by (simp add: job_inv_def one_place_add_iff in_flight_def)
qed

text \<open>Steps that move no job and change no status; rows may disappear.\<close>

lemma job_inv_quiet:
  assumes inv: "job_inv q" and T: "tokens q' = tokens q" and ok: "store_ok (q_store q')"
    and rows: "\<And>k r. row_of (q_store q') k = Some r \<Longrightarrow> \<exists>r0. row_of (q_store q) k = Some r0 \<and> r_status r = r_status r0"
    and drp: "set (q_dropped q) \<subseteq> set (q_dropped q')"
  shows "job_inv q'"
proof -
  have "place_ok p (r_status r)" if "row_of (q_store q') k = Some r" "(k, p) \<in># tokens q'" for k r p
    using rows [OF that(1)] that(2) T job_invD(3) [OF inv] by auto
  moreover have "settled q' k (r_status r)" if "row_of (q_store q') k = Some r" "k \<notin> in_flight q'" for k r
    using rows [OF that(1)] that(2) T drp job_invD(4) [OF inv] by (fastforce simp: settled_def in_flight_def)
  ultimately show ?thesis using ok T job_invD(2) [OF inv] by (simp add: job_inv_def)
qed

subsection \<open>Frame facts\<close>

lemma publishStatus_fields [simp]:
  "q_store (publishStatus l i q) = q_store q" "q_files (publishStatus l i q) = q_files q"
  "q_runners (publishStatus l i q) = q_runners q" "q_depth (publishStatus l i q) = q_depth q"
  "q_ch (publishStatus l i q) = q_ch q" "q_closed (publishStatus l i q) = q_closed q"
  "q_timeout (publishStatus l i q) = q_timeout q" "q_running (publishStatus l i q) = q_running q"
  "q_workers (publishStatus l i q) = q_workers q" "q_pending (publishStatus l i q) = q_pending q"
  "q_parent_done (publishStatus l i q) = q_parent_done q" "q_dropped (publishStatus l i q) = q_dropped q"
  by (simp_all add: publishStatus_def split: sum.splits)

lemma fail_fields [simp]:
  "q_store (fail now i e q) = SetStatus now (q_store q) i StatusFailed e"
  "q_runners (fail now i e q) = q_runners q" "q_depth (fail now i e q) = q_depth q"
  "q_ch (fail now i e q) = q_ch q" "q_closed (fail now i e q) = q_closed q"
  "q_timeout (fail now i e q) = q_timeout q" "q_running (fail now i e q) = q_running q"
  "q_workers (fail now i e q) = q_workers q" "q_pending (fail now i e q) = q_pending q"
  "q_parent_done (fail now i e q) = q_parent_done q" "q_dropped (fail now i e q) = q_dropped q"
  by (simp_all add: fail_def)

lemma set_phase_fields [simp]:
  "q_store (set_phase w p q) = q_store q" "q_files (set_phase w p q) = q_files q"
  "q_runners (set_phase w p q) = q_runners q" "q_depth (set_phase w p q) = q_depth q"
  "q_ch (set_phase w p q) = q_ch q" "q_closed (set_phase w p q) = q_closed q"
  "q_timeout (set_phase w p q) = q_timeout q" "q_running (set_phase w p q) = q_running q"
  "length (q_workers (set_phase w p q)) = length (q_workers q)" "q_pending (set_phase w p q) = q_pending q"
  "q_parent_done (set_phase w p q) = q_parent_done q" "q_dropped (set_phase w p q) = q_dropped q"
  by (simp_all add: set_phase_def set_worker_def)

lemma set_worker_fields [simp]:
  "q_store (set_worker w x q) = q_store q" "q_ch (set_worker w x q) = q_ch q"
  "q_pending (set_worker w x q) = q_pending q" "q_dropped (set_worker w x q) = q_dropped q"
  "q_running (set_worker w x q) = q_running q" "q_parent_done (set_worker w x q) = q_parent_done q"
  "q_closed (set_worker w x q) = q_closed q" "q_depth (set_worker w x q) = q_depth q"
  "q_workers (set_worker w x q) = (q_workers q)[w := x]" "q_runners (set_worker w x q) = q_runners q"
  by (simp_all add: set_worker_def)

lemma do_act_fields [simp]:
  "q_ch (do_act now i a q) = q_ch q" "q_closed (do_act now i a q) = q_closed q"
  "q_depth (do_act now i a q) = q_depth q" "q_running (do_act now i a q) = q_running q"
  "q_workers (do_act now i a q) = q_workers q" "q_pending (do_act now i a q) = q_pending q"
  "q_parent_done (do_act now i a q) = q_parent_done q" "q_dropped (do_act now i a q) = q_dropped q"
  by (cases a; simp add: cleanup_def)+

definition rest :: "queue \<Rightarrow> nat \<Rightarrow> (string \<times> place) multiset" where
  "rest q w = rest_of (q_ch q) (q_pending q) (q_workers q) w"

lemma rest_cong:
  "q_ch q' = q_ch q \<Longrightarrow> q_pending q' = q_pending q \<Longrightarrow> q_workers q' = q_workers q \<Longrightarrow> rest q' w = rest q w"
  by (simp add: rest_def)

lemma tokens_cong:
  "q_ch q' = q_ch q \<Longrightarrow> q_pending q' = q_pending q \<Longrightarrow> q_workers q' = q_workers q \<Longrightarrow> tokens q' = tokens q"
  by (simp add: tokens_def)

lemma tokens_phase:
  "w < length (q_workers q) \<Longrightarrow> tokens q = mset (phase_tokens (phase_of q w)) + rest q w"
  by (simp add: tokens_def rest_def tokens_of_split worker_tokens_def phase_of_def)

lemma tokens_set_phase:
  "w < length (q_workers q) \<Longrightarrow> tokens (set_phase w p q) = mset (phase_tokens p) + rest q w"
  by (simp add: tokens_def rest_def tokens_of_update worker_tokens_def set_phase_def set_worker_def)

lemma tokens_set_worker_same:
  "w < length (q_workers q) \<Longrightarrow> w_phase x = phase_of q w \<Longrightarrow> tokens (set_worker w x q) = tokens q"
  by (simp add: tokens_phase [of w q] rest_def)
    (simp add: tokens_def tokens_of_update worker_tokens_def phase_of_def)

lemma phase_tokens_simps [simp]:
  "phase_tokens Idle = []" "phase_tokens Exited = []" "phase_tokens (Received i) = [(i, At (Received i))]"
  "phase_tokens (Loaded j) = [(j_ID j, At (Loaded j))]"
  "phase_tokens (Registered j) = [(j_ID j, At (Registered j))]"
  "phase_tokens (Marked j) = [(j_ID j, At (Marked j))]"
  "phase_tokens (Running j a b) = [(j_ID j, At (Running j a b))]"
  "phase_tokens (Finishing j as) = [(j_ID j, At (Finishing j as))]"
  by (simp_all add: phase_tokens_def)

lemma w_phase_cancel [simp]: "w_phase (cancel_worker c x) = w_phase x"
  by (simp add: cancel_worker_def)

subsection \<open>Every step keeps the invariant\<close>

lemma tokens_pending:
  "j \<in> set (q_pending q) \<Longrightarrow>
     tokens q = add_mset (j_ID j, InPending) (tokens (q\<lparr>q_pending := remove1 j (q_pending q)\<rparr>))"
proof -
  assume "j \<in> set (q_pending q)"
  then have "mset (q_pending q) = add_mset j (mset (remove1 j (q_pending q)))" by simp
  then show ?thesis by (simp add: tokens_def tokens_of_def del: mset_remove1)
qed

lemma tokens_enqueue: "tokens (q\<lparr>q_ch := q_ch q @ [i]\<rparr>) = add_mset (i, InChan) (tokens q)"
  by (simp add: tokens_def tokens_of_def)

lemma tokens_dequeue:
  "q_ch q = i # ids \<Longrightarrow> tokens q = add_mset (i, InChan) (tokens (q\<lparr>q_ch := ids\<rparr>))"
  by (simp add: tokens_def tokens_of_def)

lemma tokens_add_pending:
  "tokens (q\<lparr>q_store := s, q_bus := b, q_pending := j # q_pending q\<rparr>) = add_mset (j_ID j, InPending) (tokens q)"
  by (simp add: tokens_def tokens_of_def)

lemma prepare_job_status:
  "r_status (row_of_job (prepare_job now nid (j\<lparr>j_Status := StatusQueued\<rparr>))) = StatusQueued"
  by (simp add: prepare_job_def row_of_job_def Let_def)

lemma job_inv_create:
  assumes "job_inv q" and "j_ID j = ''''" and "nid \<notin> in_flight q"
  shows "job_inv (snd (submit_create now nid j q))"
proof (cases "j_Type j \<in> set (q_runners q) \<and> (\<exists>s j'. Create now nid (q_store q) (j\<lparr>j_Status := StatusQueued\<rparr>) = (Inr s, j'))")
  case False
  then have "snd (submit_create now nid j q) = q"
    by (auto simp: submit_create_def split: sum.splits prod.splits)
  with assms(1) show ?thesis by simp
next
  case True
  then obtain s j' where rn: "j_Type j \<in> set (q_runners q)"
      and c: "Create now nid (q_store q) (j\<lparr>j_Status := StatusQueued\<rparr>) = (Inr s, j')" by blast
  then have j': "j' = prepare_job now nid (j\<lparr>j_Status := StatusQueued\<rparr>)" by (simp add: Create_Inr)
  with assms(2) have id: "j_ID j' = nid" by (simp add: prepare_job_ID)
  let ?e = "\<lparr>Kind = EventCreated, JobID = j_ID j', e_Job = Some j', e_Progress = None\<rparr>"
  have q': "snd (submit_create now nid j q) =
      q\<lparr>q_store := s, q_bus := Publish ?e (q_bus q), q_pending := j' # q_pending q\<rparr>" (is "_ = ?q'")
    using rn c by (simp add: submit_create_def)
  have "job_inv ?q'"
  proof (rule job_inv_enter [OF assms(1), of "j_ID j'" _ InPending])
    show "j_ID j' \<notin> in_flight q" using assms(3) id by simp
    show "tokens ?q' = add_mset (j_ID j', InPending) (tokens q)" by (rule tokens_add_pending)
    show "store_ok (q_store ?q')" using store_ok_Create [OF job_invD(1) [OF assms(1)] c] by simp
    show "row_of (q_store ?q') k = row_of (q_store q) k" if "k \<noteq> j_ID j'" for k
      using that by (simp add: row_of_Create [OF c])
    show "place_ok InPending (r_status r)" if "row_of (q_store ?q') (j_ID j') = Some r" for r
      using that prepare_job_status [of now nid j] by (auto simp: row_of_Create [OF c] j')
  qed simp
  with q' show ?thesis by simp
qed

lemma job_inv_send:
  assumes inv: "job_inv q" and j: "j \<in> set (q_pending q)"
  shows "job_inv (snd (submit_send now live j q))"
proof -
  let ?i = "j_ID j"
  let ?q = "q\<lparr>q_pending := remove1 j (q_pending q)\<rparr>"
  have T: "tokens q = add_mset (?i, InPending) (tokens ?q)" by (rule tokens_pending [OF j])
  have queued: "r_status r = StatusQueued" if "row_of (q_store q) ?i = Some r" for r
    using job_invD(3) [OF inv that, of InPending] T by simp
  have ok: "store_ok (q_store q)" by (rule job_invD(1) [OF inv])
  consider "q_closed q" | "\<not> q_closed q" "length (q_ch q) < q_depth q"
    | "\<not> q_closed q" "\<not> length (q_ch q) < q_depth q" live
    | "\<not> q_closed q" "\<not> length (q_ch q) < q_depth q" "\<not> live" by blast
  then show ?thesis
  proof cases
    case 1
    then show ?thesis
      by (intro job_inv_release [OF inv T]) (auto simp: submit_send_def send_or_fail_def ok settled_def queued intro: tokens_cong)
  next
    case 2
    then show ?thesis
      by (intro job_inv_move [OF inv T, of _ InChan])
        (auto simp: submit_send_def send_or_fail_def ok queued tokens_def tokens_of_def)
  next
    case 3
    then show ?thesis
      by (intro job_inv_release [OF inv T])
        (auto simp: submit_send_def send_or_fail_def ok settled_def final_def store_simps intro: tokens_cong)
  next
    case 4
    then show ?thesis
      by (intro job_inv_release [OF inv T]) (auto simp: submit_send_def send_or_fail_def ok settled_def queued intro: tokens_cong)
  qed
qed

lemma job_inv_same_tokens:
  assumes "job_inv q" and "tokens q' = tokens q" and "q_store q' = q_store q" and "q_dropped q' = q_dropped q"
  shows "job_inv q'"
  using assms by (intro job_inv_quiet [OF assms(1,2)]) (auto simp: job_invD)

lemma tokens_cancel: "tokens (set_worker w (cancel_worker c (q_workers q ! w)) q) = tokens q"
proof (cases "w < length (q_workers q)")
  case True
  then show ?thesis by (intro tokens_set_worker_same) (simp_all add: phase_of_def)
next
  case False
  then show ?thesis by (simp add: tokens_def list_update_beyond)
qed

lemma job_inv_cancel: "job_inv q \<Longrightarrow> job_inv (snd (Cancel i q))"
  by (auto simp: Cancel_def tokens_cancel intro: job_inv_same_tokens split: option.splits)

lemma job_inv_timeout: "job_inv q \<Longrightarrow> job_inv (expire_timeout w q)"
  by (rule job_inv_same_tokens [of q]) (simp_all add: expire_timeout_def tokens_cancel)

lemma job_inv_shutdown: "job_inv q \<Longrightarrow> job_inv (shutdown q)"
  by (rule job_inv_same_tokens [of q])
    (simp_all add: shutdown_def tokens_def tokens_of_def comp_def worker_tokens_def [abs_def])

lemma job_inv_stop: "job_inv q \<Longrightarrow> job_inv (Stop q)"
  by (rule job_inv_same_tokens [of q]) (simp_all add: Stop_def tokens_def)

lemma job_inv_drop: "job_inv q \<Longrightarrow> job_inv (drop_row i q)"
  by (rule job_inv_quiet [of q])
    (auto simp: drop_row_def tokens_def job_invD row_of_delete_row split: if_splits)

lemma job_inv_exit: "job_inv q \<Longrightarrow> w < length (q_workers q) \<Longrightarrow> phase_of q w = Idle \<Longrightarrow> job_inv (worker_exit w q)"
  by (rule job_inv_same_tokens [of q])
    (simp_all add: worker_exit_def tokens_set_phase tokens_phase [of w q])

lemma job_inv_take:
  assumes inv: "job_inv q" and w: "w < length (q_workers q)" "phase_of q w = Idle" and ch: "q_ch q \<noteq> []"
  shows "job_inv (worker_take w q)"
proof -
  from ch obtain i ids where ids: "q_ch q = i # ids" by (cases "q_ch q") auto
  let ?q = "q\<lparr>q_ch := ids\<rparr>"
  have T: "tokens q = add_mset (i, InChan) (rest ?q w)"
    using tokens_dequeue [OF ids] tokens_phase [of w ?q] w by (simp add: phase_of_def)
  have T': "tokens (worker_take w q) = add_mset (i, At (Received i)) (rest ?q w)"
    using w(1) by (simp add: worker_take_def ids tokens_def tokens_of_update worker_tokens_def rest_def)
  show ?thesis
    by (rule job_inv_move [OF inv T T'])
      (use job_invD(3) [OF inv, of i _ InChan] T in \<open>simp_all add: worker_take_def ids job_invD(1) [OF inv]\<close>)
qed

text \<open>A worker that stays with its job: only the row of that job is touched.\<close>

lemma job_inv_worker:
  assumes inv: "job_inv q" and w: "w < length (q_workers q)"
    and p: "phase_tokens (phase_of q w) = [(i, At (phase_of q w))]"
    and p': "phase_tokens p' = [(i, At p')]"
    and same: "q_ch q0 = q_ch q" "q_pending q0 = q_pending q" "q_workers q0 = q_workers q" "q_dropped q0 = q_dropped q"
    and ok: "store_ok (q_store q0)"
    and rows: "\<And>k. k \<noteq> i \<Longrightarrow> row_of (q_store q0) k = row_of (q_store q) k"
    and new: "\<And>r'. row_of (q_store q0) i = Some r' \<Longrightarrow>
      (\<And>r. row_of (q_store q) i = Some r \<Longrightarrow> place_ok (At (phase_of q w)) (r_status r)) \<Longrightarrow> place_ok (At p') (r_status r')"
  shows "job_inv (set_phase w p' q0)"
proof -
  have T: "tokens q = add_mset (i, At (phase_of q w)) (rest q w)"
    using tokens_phase [OF w] p by simp
  have T': "tokens (set_phase w p' q0) = add_mset (i, At p') (rest q w)"
    using tokens_set_phase [of w q0 p'] w p' same(1-3) by (simp add: rest_def)
  have old: "place_ok (At (phase_of q w)) (r_status r)" if "row_of (q_store q) i = Some r" for r
    using job_invD(3) [OF inv that] T by simp
  show ?thesis
    by (rule job_inv_move [OF inv T T']) (use ok rows new old same(4) in auto)
qed

text \<open>A worker that lets go of its job.\<close>

lemma job_inv_free:
  assumes inv: "job_inv q" and w: "w < length (q_workers q)"
    and p: "phase_tokens (phase_of q w) = [(i, At (phase_of q w))]"
    and same: "q_ch q0 = q_ch q" "q_pending q0 = q_pending q" "q_workers q0 = q_workers q"
    and drp: "set (q_dropped q) \<subseteq> set (q_dropped q0)"
    and ok: "store_ok (q_store q0)"
    and rows: "\<And>k. k \<noteq> i \<Longrightarrow> row_of (q_store q0) k = row_of (q_store q) k"
    and new: "\<And>r'. row_of (q_store q0) i = Some r' \<Longrightarrow>
      (\<And>r. row_of (q_store q) i = Some r \<Longrightarrow> place_ok (At (phase_of q w)) (r_status r)) \<Longrightarrow> settled q0 i (r_status r')"
  shows "job_inv (set_phase w Idle q0)"
proof -
  have T: "tokens q = add_mset (i, At (phase_of q w)) (rest q w)"
    using tokens_phase [OF w] p by simp
  have T': "tokens (set_phase w Idle q0) = rest q w"
    using tokens_set_phase [of w q0 Idle] w same by (simp add: rest_def)
  have old: "place_ok (At (phase_of q w)) (r_status r)" if "row_of (q_store q) i = Some r" for r
    using job_invD(3) [OF inv that] T by simp
  show ?thesis
    by (rule job_inv_release [OF inv T T']) (use ok rows new old drp in \<open>auto simp: settled_def\<close>)
qed

lemma job_inv_load:
  assumes inv: "job_inv q" and w: "w < length (q_workers q)" and p: "phase_of q w = Received i"
  shows "job_inv (exec_load now w i q)"
proof -
  have ok: "store_ok (q_store q)" by (rule job_invD(1) [OF inv])
  consider "cause_of q w \<noteq> None" | "cause_of q w = None" "row_of (q_store q) i = None"
    | r where "cause_of q w = None" "row_of (q_store q) i = Some r" by fastforce
  then show ?thesis
  proof cases
    case 1
    then show ?thesis unfolding exec_load_def
      by (simp, intro job_inv_free [OF inv w, of i]) (auto simp: p ok settled_def)
  next
    case 2
    then show ?thesis unfolding exec_load_def Get_def
      by (simp, intro job_inv_free [OF inv w, of i]) (auto simp: p ok)
  next
    case (3 r)
    then have id: "r_id r = i" using row_of_mem by fastforce
    show ?thesis
    proof (cases "r_type r \<in> set (q_runners q)")
      case True
      with 3 show ?thesis unfolding exec_load_def Get_def
        by (simp, intro job_inv_worker [OF inv w, of i]) (auto simp: p ok id)
    next
      case False
      with 3 show ?thesis unfolding exec_load_def Get_def
        by (simp, intro job_inv_free [OF inv w, of i]) (auto simp: p ok settled_def final_def store_simps)
    qed
  qed
qed

lemma job_inv_register:
  "job_inv q \<Longrightarrow> w < length (q_workers q) \<Longrightarrow> phase_of q w = Loaded j \<Longrightarrow> job_inv (exec_register w j q)"
  unfolding exec_register_def by (rule job_inv_worker [of q w "j_ID j"]) (auto simp: job_invD(1))

lemma job_inv_mark:
  "job_inv q \<Longrightarrow> w < length (q_workers q) \<Longrightarrow> phase_of q w = Registered j \<Longrightarrow> job_inv (exec_mark now w j q)"
  unfolding exec_mark_def
  by (rule job_inv_worker [of q w "j_ID j"]) (auto simp: job_invD(1) unfinished_def store_simps split: if_splits)

lemma job_inv_announce:
  "job_inv q \<Longrightarrow> w < length (q_workers q) \<Longrightarrow> phase_of q w = Marked j \<Longrightarrow> job_inv (exec_announce w j q)"
  unfolding exec_announce_def by (rule job_inv_worker [of q w "j_ID j"]) (auto simp: job_invD(1))

lemma job_inv_emit:
  "job_inv q \<Longrightarrow> w < length (q_workers q) \<Longrightarrow> phase_of q w = Running j a b \<Longrightarrow> job_inv (exec_emit now p w j a b q)"
  unfolding exec_emit_def Let_def
  by (rule job_inv_worker [of q w "j_ID j"]) (auto simp: job_invD(1) store_simps split: if_splits)

lemma acts_ok_finish: "unfinished st \<Longrightarrow> acts_ok (finish_acts d c files res err) st"
  by (auto simp: finish_acts_def final_def split: option.splits)

lemma job_inv_return:
  "job_inv q \<Longrightarrow> w < length (q_workers q) \<Longrightarrow> phase_of q w = Running j a b \<Longrightarrow>
     job_inv (exec_return files res err w j q)"
  unfolding exec_return_def
  by (rule job_inv_worker [of q w "j_ID j"]) (auto simp: job_invD(1) acts_ok_finish)

lemma do_act_store:
  "store_ok (q_store q) \<Longrightarrow> store_ok (q_store (do_act now i x q))"
  "k \<noteq> i \<Longrightarrow> row_of (q_store (do_act now i x q)) k = row_of (q_store q) k"
  by (cases x; simp add: cleanup_def store_simps)+

lemma do_act_status:
  assumes "row_of (q_store (do_act now i x q)) i = Some r'"
    and "\<And>r. row_of (q_store q) i = Some r \<Longrightarrow> acts_ok (x # as) (r_status r)"
  shows "acts_ok as (r_status r')"
  using assms by (cases x) (auto simp: cleanup_def store_simps split: if_splits)

lemma job_inv_act:
  "job_inv q \<Longrightarrow> w < length (q_workers q) \<Longrightarrow> phase_of q w = Finishing j (x # as) \<Longrightarrow>
     job_inv (exec_act now w j x as q)"
  unfolding exec_act_def
  by (rule job_inv_worker [of q w "j_ID j"]) (auto simp: job_invD(1) do_act_store intro: do_act_status)

lemma job_inv_done:
  "job_inv q \<Longrightarrow> w < length (q_workers q) \<Longrightarrow> phase_of q w = Finishing j [] \<Longrightarrow> job_inv (exec_done w j q)"
  unfolding exec_done_def by (rule job_inv_free [of q w "j_ID j"]) (auto simp: job_invD(1) settled_def)

lemma job_inv_step: "qstep q q' \<Longrightarrow> job_inv q \<Longrightarrow> job_inv q'"
  by (induction rule: qstep.induct)
    (auto intro: job_inv_create job_inv_send job_inv_cancel job_inv_shutdown job_inv_stop job_inv_timeout
      job_inv_take job_inv_load job_inv_register job_inv_mark job_inv_announce job_inv_emit job_inv_return
      job_inv_act job_inv_done job_inv_exit job_inv_drop)

end
