(* ===== verification/QueueProps.thy ===== *)
theory QueueProps
  imports QueueRuns
begin

text \<open>
  Consequences of the queue's invariant: recovery after a crash, the lifecycle of a job, the
  map of running jobs, the bounds, and which jobs can be lost.
\<close>

subsection \<open>Recovery at startup\<close>

definition fail_full :: "Time \<Rightarrow> string list \<Rightarrow> Store \<Rightarrow> Store" where
  "fail_full now ids s = fold (\<lambda>i s. SetStatus now s i StatusFailed ''job queue is full'') ids s"

lemma publishStatus_bus: "\<exists>b. publishStatus l i q = q\<lparr>q_bus := b\<rparr>"
proof (cases "if l then Get (q_store q) i else Inl ErrUnavailable")
  case (Inl e)
  then have "publishStatus l i q = q\<lparr>q_bus := q_bus q\<rparr>" by (simp add: publishStatus_def)
  then show ?thesis ..
next
  case (Inr j)
  then show ?thesis by (auto simp: publishStatus_def)
qed

lemma fail_bus: "\<exists>b. fail now i e q = q\<lparr>q_store := SetStatus now (q_store q) i StatusFailed e, q_bus := b\<rparr>"
  unfolding fail_def
  using publishStatus_bus [of True i "q\<lparr>q_store := SetStatus now (q_store q) i StatusFailed e\<rparr>"] by simp

text \<open>
  The loop of \<open>Resume\<close> on an open channel: as many ids as fit go in, in order; the rows of the
  others are failed.
\<close>

lemma resume_loop_eq:
  assumes "\<not> q_closed q" and "length (q_ch q) \<le> q_depth q"
  shows "\<exists>b. resume_loop now ids (n, q) =
    (n + min (q_depth q - length (q_ch q)) (length ids),
     q\<lparr>q_ch := q_ch q @ take (q_depth q - length (q_ch q)) ids, q_bus := b,
       q_store := fail_full now (drop (q_depth q - length (q_ch q)) ids) (q_store q)\<rparr>)"
  using assms
proof (induction ids arbitrary: n q)
  case Nil
  show ?case by (intro exI [of _ "q_bus q"]) (simp add: fail_full_def)
next
  case (Cons i ids)
  show ?case
  proof (cases "length (q_ch q) < q_depth q")
    case True
    let ?q = "q\<lparr>q_ch := q_ch q @ [i]\<rparr>"
    obtain m where m: "q_depth q - length (q_ch q) = Suc m"
      using True by (metis Suc_diff_Suc)
    then have m': "q_depth q - Suc (length (q_ch q)) = m" by simp
    from True Cons.prems(1) have "send_or_fail now True i q = (Inr (), ?q)"
      by (simp add: send_or_fail_def)
    then show ?thesis
      using Cons.IH [of ?q "Suc n"] True Cons.prems(1) by (auto simp: m m')
  next
    case False
    with Cons.prems have full: "q_depth q - length (q_ch q) = 0" by simp
    obtain b where b: "fail now i ''job queue is full'' q =
        q\<lparr>q_store := SetStatus now (q_store q) i StatusFailed ''job queue is full'', q_bus := b\<rparr>" (is "_ = ?q")
      using fail_bus by blast
    with False Cons.prems(1) have "send_or_fail now True i q = (Inl ErrQueueFull, ?q)"
      by (simp add: send_or_fail_def)
    then show ?thesis
      using Cons.IH [of ?q n] Cons.prems full by (auto simp: fail_full_def)
  qed
qed

lemma row_of_fail_full:
  "distinct ids \<Longrightarrow> row_of (fail_full now ids s) k =
     (if k \<in> set ids then map_option (status_update now StatusFailed ''job queue is full'') (row_of s k)
      else row_of s k)"
  unfolding fail_full_def by (induction ids arbitrary: s) (auto simp: store_simps)

lemma store_ok_fail_full: "store_ok s \<Longrightarrow> store_ok (fail_full now ids s)"
  unfolding fail_full_def by (induction ids arbitrary: s) auto

lemma Register_all:
  "fold Register ts q = q\<lparr>q_runners := fold List.insert ts (q_runners q)\<rparr>"
  by (induction ts arbitrary: q) (simp_all add: Register_def)

definition queue_depth :: "int \<Rightarrow> nat" where
  "queue_depth depth = (if depth \<le> 0 then 256 else nat depth)"

text \<open>Everything about the state after booting on a table \<open>s\<close>.\<close>

lemma boot_eq:
  defines "ids s now \<equiv> QueuedIDs (fst (FailInterrupted now s))"
  shows "\<exists>b'. boot now later b fs depth timeout n s =
    \<lparr>q_store = fail_full later (drop (queue_depth depth) (ids s now)) (fst (FailInterrupted now s)),
     q_bus = b', q_files = fs, q_runners = fold List.insert all_types [], q_depth = queue_depth depth,
     q_ch = take (queue_depth depth) (ids s now), q_closed = False, q_timeout = timeout, q_running = Map.empty,
     q_workers = replicate n \<lparr>w_phase = Idle, w_cause = None\<rparr>, q_pending = [], q_parent_done = False,
     q_dropped = []\<rparr>"
proof -
  let ?q = "fold Register all_types (SetTimeout timeout (NewQueue (fst (FailInterrupted now s)) b fs depth))"
  have q: "?q = \<lparr>q_store = fst (FailInterrupted now s), q_bus = b, q_files = fs,
      q_runners = fold List.insert all_types [], q_depth = queue_depth depth, q_ch = [], q_closed = False,
      q_timeout = timeout, q_running = Map.empty, q_workers = [], q_pending = [], q_parent_done = False,
      q_dropped = []\<rparr>"
    by (simp add: Register_all SetTimeout_def NewQueue_def queue_depth_def)
  have "\<not> q_closed ?q" "length (q_ch ?q) \<le> q_depth ?q" by (simp_all add: q)
  from resume_loop_eq [OF this, of later "QueuedIDs (q_store ?q)" 0]
  show ?thesis by (auto simp: boot_def Resume_def Start_def q ids_def)
qed

definition good_statuses :: "Store \<Rightarrow> bool" where
  "good_statuses s \<longleftrightarrow> (\<forall>r \<in> set s. unfinished (r_status r) \<or> final (r_status r))"

lemma row_interrupted:
  "row_of (fst (FailInterrupted now s)) k = map_option (interrupt_row now) (row_of s k)"
  by (simp add: FailInterrupted_def row_of_interrupt)

lemma tokens_boot:
  "tokens_of ch [] (replicate n \<lparr>w_phase = Idle, w_cause = None\<rparr>) = image_mset (\<lambda>i. (i, InChan)) (mset ch)"
  by (induction n) (simp_all add: tokens_of_def worker_tokens_def)

lemma one_place_chan: "distinct ch \<Longrightarrow> one_place (image_mset (\<lambda>i. (i, InChan)) (mset ch))"
  by (simp add: one_place_def image_mset.compositionality comp_def distinct_count_atmost_1)

lemma job_inv_boot:
  assumes ok: "store_ok s" and good: "good_statuses s"
  shows "job_inv (boot now later b fs depth timeout n s)"
proof -
  let ?s = "fst (FailInterrupted now s)"
  let ?ids = "QueuedIDs ?s" and ?d = "queue_depth depth"
  let ?q = "boot now later b fs depth timeout n s"
  have ok': "store_ok ?s" using ok by (simp add: FailInterrupted_def)
  have dist: "distinct ?ids" by (rule QueuedIDs_distinct [OF ok'])
  obtain b' where store: "q_store ?q = fail_full later (drop ?d ?ids) ?s"
      and T: "tokens ?q = image_mset (\<lambda>i. (i, InChan)) (mset (take ?d ?ids))"
      and drp: "q_dropped ?q = []"
    using boot_eq [of now later b fs depth timeout n s] by (auto simp: tokens_def tokens_boot)
  have row: "row_of (q_store ?q) k = (if k \<in> set (drop ?d ?ids)
      then map_option (status_update later StatusFailed ''job queue is full'') (row_of ?s k) else row_of ?s k)" for k
    unfolding store using dist by (simp add: row_of_fail_full)
  have stat: "r_status r = StatusQueued \<or> final (r_status r)" if "row_of ?s k = Some r" for k r
    using that good row_of_mem [of s k]
    by (fastforce simp: row_interrupted interrupt_row_status good_statuses_def unfinished_def final_def)
  have disj: "k \<notin> set (drop ?d ?ids)" if "k \<in> set (take ?d ?ids)" for k
    using that dist set_take_disj_set_drop_if_distinct [of ?ids ?d ?d] by auto
  have "r_status r = StatusQueued" if "k \<in> set (take ?d ?ids)" "row_of (q_store ?q) k = Some r" for k r
  proof -
    from that(1) have "k \<in> set ?ids" by (meson in_set_takeD)
    with that disj show ?thesis using QueuedIDs_row [OF ok', of k] by (simp add: row)
  qed
  moreover have "final (r_status r)" if "k \<notin> set (take ?d ?ids)" "row_of (q_store ?q) k = Some r" for k r
  proof (cases "k \<in> set (drop ?d ?ids)")
    case True
    with that show ?thesis by (auto simp: row final_def)
  next
    case False
    with that(1) have "k \<notin> set ?ids" by (metis Un_iff append_take_drop_id set_append)
    with False that show ?thesis using QueuedIDs_row [OF ok', of k] stat [of k r] by (auto simp: row)
  qed
  moreover have "store_ok (q_store ?q)" unfolding store using ok' by (rule store_ok_fail_full)
  ultimately show ?thesis
    using dist by (auto simp: job_inv_def T in_flight_def settled_def one_place_chan image_image)
qed

lemma job_inv_good_statuses: "job_inv q \<Longrightarrow> good_statuses (q_store q)"
proof -
  assume inv: "job_inv q"
  have "unfinished (r_status r) \<or> final (r_status r)" if "r \<in> set (q_store q)" for r
  proof -
    from that have row: "row_of (q_store q) (r_id r) = Some r"
      using job_invD(1) [OF inv] by (simp add: row_of_iff)
    have acts: "unfinished st \<or> final st" if "acts_ok as st" for as st
      using that by (induction as st rule: acts_ok.induct) auto
    have place: "unfinished st \<or> final st" if "place_ok p st" for p st
      using that by (induction p st rule: place_ok.induct) (auto simp: unfinished_def dest: acts [unfolded unfinished_def])
    show ?thesis
    proof (cases "r_id r \<in> in_flight q")
      case True
      then obtain p where "(r_id r, p) \<in># tokens q" by (auto simp: in_flight_def)
      then show ?thesis using job_invD(3) [OF inv row] place by blast
    next
      case False
      then show ?thesis using job_invD(4) [OF inv row] by (auto simp: settled_def unfinished_def)
    qed
  qed
  then show ?thesis by (simp add: good_statuses_def)
qed

theorem reachable_job_inv: "reachable q \<Longrightarrow> job_inv q"
proof (induction rule: reachable.induct)
  case (first_boot now later b fs depth timeout n)
  show ?case by (rule job_inv_boot) (simp_all add: jobs.invar_empty good_statuses_def)
next
  case (step q q')
  then show ?case by (blast intro: job_inv_step)
next
  case (restart q now later b fs depth timeout n)
  then show ?case by (intro job_inv_boot) (simp_all add: job_inv_good_statuses job_invD(1))
qed

subsection \<open>Who holds a job\<close>

lemma token_iff:
  "(i, p) \<in># tokens q \<longleftrightarrow> p = InChan \<and> i \<in> set (q_ch q) \<or> p = InPending \<and> i \<in> j_ID ` set (q_pending q) \<or>
     (\<exists>w < length (q_workers q). p = At (phase_of q w) \<and> held (phase_of q w) = Some i)"
proof -
  have "(i, p) \<in> set (worker_tokens x) \<longleftrightarrow> p = At (w_phase x) \<and> held (w_phase x) = Some i" for x
    by (auto simp: worker_tokens_def phase_tokens_def split: option.splits)
  then have "(\<exists>x \<in> set (q_workers q). (i, p) \<in> set (worker_tokens x)) \<longleftrightarrow>
      (\<exists>w < length (q_workers q). p = At (phase_of q w) \<and> held (phase_of q w) = Some i)"
    unfolding phase_of_def by (metis in_set_conv_nth)
  then show ?thesis by (auto simp: tokens_def tokens_of_def)
qed

lemma in_flight_worker: "w < length (q_workers q) \<Longrightarrow> held (phase_of q w) = Some i \<Longrightarrow> i \<in> in_flight q"
  unfolding in_flight_def by (rule image_eqI [of _ _ "(i, At (phase_of q w))"]) (auto simp: token_iff)

lemma rest_mem:
  assumes "v < length (q_workers q)" and "v \<noteq> w" and "held (phase_of q v) = Some i"
  shows "i \<in> fst ` set_mset (rest q w)"
proof -
  have "q_workers q ! v \<in> set (take w (q_workers q) @ drop (Suc w) (q_workers q))"
  proof (cases "v < w")
    case True
    with assms(1) have "take w (q_workers q) ! v = q_workers q ! v" "v < length (take w (q_workers q))" by simp_all
    then have "q_workers q ! v \<in> set (take w (q_workers q))" by (metis nth_mem)
    then show ?thesis by simp
  next
    case False
    with assms have "drop (Suc w) (q_workers q) ! (v - Suc w) = q_workers q ! v"
      "v - Suc w < length (drop (Suc w) (q_workers q))" by simp_all
    then have "q_workers q ! v \<in> set (drop (Suc w) (q_workers q))" by (metis nth_mem)
    then show ?thesis by simp
  qed
  moreover have "(i, At (phase_of q v)) \<in> set (worker_tokens (q_workers q ! v))"
    using assms(3) by (simp add: worker_tokens_def phase_of_def phase_tokens_def)
  ultimately show ?thesis by (force simp: rest_def rest_of_def tokens_of_def)
qed

text \<open>No two workers ever hold the same job.\<close>

lemma holder_unique:
  assumes "one_place (tokens q)" and "w < length (q_workers q)" "v < length (q_workers q)"
    and "held (phase_of q w) = Some i" "held (phase_of q v) = Some i"
  shows "w = v"
proof (rule ccontr)
  assume "w \<noteq> v"
  then have "i \<in> fst ` set_mset (rest q w)" using assms(3,5) by (intro rest_mem) auto
  moreover have "tokens q = add_mset (i, At (phase_of q w)) (rest q w)"
    using tokens_phase [OF assms(2)] assms(4) by (simp add: phase_tokens_def)
  ultimately show False using assms(1) by (simp add: one_place_add_iff)
qed

subsection \<open>The map of running jobs\<close>

fun working :: "phase \<Rightarrow> string option" where
  "working (Registered j) = Some (j_ID j)"
| "working (Marked j) = Some (j_ID j)"
| "working (Running j _ _) = Some (j_ID j)"
| "working (Finishing j _) = Some (j_ID j)"
| "working _ = None"

lemma working_held: "working p = Some i \<Longrightarrow> held p = Some i"
  by (cases p) auto

definition run_inv :: "queue \<Rightarrow> bool" where
  "run_inv q \<longleftrightarrow> (\<forall>i w. q_running q i = Some w \<longleftrightarrow> w < length (q_workers q) \<and> working (phase_of q w) = Some i)"

lemma phase_of_set_phase [simp]:
  "w < length (q_workers q) \<Longrightarrow> phase_of (set_phase w p q) v = (if v = w then p else phase_of q v)"
  by (simp add: phase_of_def set_phase_def set_worker_def nth_list_update)

lemma phase_of_cong: "q_workers q' = q_workers q \<Longrightarrow> phase_of q' w = phase_of q w"
  by (simp add: phase_of_def)

lemma phase_of_frame [simp]:
  "phase_of (q\<lparr>q_store := s\<rparr>) w = phase_of q w" "phase_of (q\<lparr>q_bus := b\<rparr>) w = phase_of q w"
  "phase_of (q\<lparr>q_files := f\<rparr>) w = phase_of q w" "phase_of (q\<lparr>q_running := m\<rparr>) w = phase_of q w"
  "phase_of (q\<lparr>q_dropped := d\<rparr>) w = phase_of q w" "phase_of (q\<lparr>q_ch := c\<rparr>) w = phase_of q w"
  "phase_of (q\<lparr>q_pending := pe\<rparr>) w = phase_of q w" "phase_of (q\<lparr>q_closed := cl\<rparr>) w = phase_of q w"
  "phase_of (publishStatus l i q) w = phase_of q w" "phase_of (fail now i e q) w = phase_of q w"
  by (simp_all add: phase_of_def)

lemma phase_of_cancel [simp]:
  "phase_of (set_worker w (cancel_worker c (q_workers q ! w)) q) v = phase_of q v"
  by (cases "w < length (q_workers q)") (auto simp: phase_of_def nth_list_update list_update_beyond)

lemma run_inv_same:
  assumes "run_inv q" and "q_running q' = q_running q" and "length (q_workers q') = length (q_workers q)"
    and "\<And>w. w < length (q_workers q) \<Longrightarrow> working (phase_of q' w) = working (phase_of q w)"
  shows "run_inv q'"
  using assms unfolding run_inv_def by metis

text \<open>A worker changes phase without entering or leaving the map.\<close>

lemma run_inv_phase:
  assumes "run_inv q" and "w < length (q_workers q)" and "working p' = working (phase_of q w)"
    and "q_running q0 = q_running q" "q_workers q0 = q_workers q"
  shows "run_inv (set_phase w p' q0)"
  using assms by (intro run_inv_same [OF assms(1)]) (simp_all add: phase_of_cong [of q0 q])

lemma run_inv_enter:
  assumes inv: "run_inv q" "job_inv q" and w: "w < length (q_workers q)" and p: "phase_of q w = Loaded j"
  shows "run_inv (exec_register w j q)"
proof -
  have other: "working (phase_of q v) \<noteq> Some (j_ID j)" if "v < length (q_workers q)" "v \<noteq> w" for v
    using holder_unique [OF job_invD(2) [OF inv(2)] w that(1), of "j_ID j"] that(2) p working_held by fastforce
  show ?thesis
    using inv(1) w p other
    by (auto simp: run_inv_def exec_register_def)
qed

lemma run_inv_leave:
  assumes inv: "run_inv q" "job_inv q" and w: "w < length (q_workers q)" and p: "phase_of q w = Finishing j as"
  shows "run_inv (exec_done w j q)"
proof -
  have other: "working (phase_of q v) \<noteq> Some (j_ID j)" if "v < length (q_workers q)" "v \<noteq> w" for v
    using holder_unique [OF job_invD(2) [OF inv(2)] w that(1), of "j_ID j"] that(2) p working_held by fastforce
  show ?thesis
    using inv(1) w p other
    by (auto simp: run_inv_def exec_done_def)
qed

lemma working_finished [simp]: "working Idle = None" "working Exited = None" by simp_all

lemma submit_create_fields [simp]:
  "q_running (snd (submit_create now nid j q)) = q_running q"
  "q_workers (snd (submit_create now nid j q)) = q_workers q"
  "q_ch (snd (submit_create now nid j q)) = q_ch q" "q_depth (snd (submit_create now nid j q)) = q_depth q"
  "q_dropped (snd (submit_create now nid j q)) = q_dropped q"
  by (simp_all add: submit_create_def split: sum.splits prod.splits)

lemma submit_send_fields [simp]:
  "q_running (snd (submit_send now l j q)) = q_running q"
  "q_workers (snd (submit_send now l j q)) = q_workers q" "q_depth (snd (submit_send now l j q)) = q_depth q"
  by (simp_all add: submit_send_def send_or_fail_def)

lemma exec_load_shape:
  obtains p q0 where "exec_load now w i q = set_phase w p q0" and "p = Idle \<or> (\<exists>j. p = Loaded j)"
    and "q_running q0 = q_running q" "q_workers q0 = q_workers q" "q_parent_done q0 = q_parent_done q"
proof (cases "cause_of q w = None")
  case False
  then show ?thesis by (intro that [of Idle "q\<lparr>q_dropped := i # q_dropped q\<rparr>"]) (simp_all add: exec_load_def)
next
  case True
  show ?thesis
  proof (cases "Get (q_store q) i")
    case (Inl e)
    with True show ?thesis by (intro that [of Idle q]) (simp_all add: exec_load_def)
  next
    case (Inr j)
    with True show ?thesis
      by (cases "j_Type j \<in> set (q_runners q)")
        (auto simp: exec_load_def intro: that [of "Loaded j" q] that [of Idle "fail now i e q" for e])
  qed
qed

lemma exec_load_phases:
  assumes "w < length (q_workers q)" and "phase_of q w = Received i"
  shows "q_running (exec_load now w i q) = q_running q"
    and "length (q_workers (exec_load now w i q)) = length (q_workers q)"
    and "working (phase_of (exec_load now w i q) v) = working (phase_of q v)"
proof -
  obtain p q0 where eq: "exec_load now w i q = set_phase w p q0" and p: "working p = None"
    and q0: "q_running q0 = q_running q" "q_workers q0 = q_workers q"
    by (rule exec_load_shape [of now w i q]) auto
  from assms(1) q0 have "w < length (q_workers q0)" by simp
  moreover have "phase_of q0 v = phase_of q v" using q0(2) by (rule phase_of_cong)
  ultimately show "q_running (exec_load now w i q) = q_running q"
    "length (q_workers (exec_load now w i q)) = length (q_workers q)"
    "working (phase_of (exec_load now w i q) v) = working (phase_of q v)"
    using p q0 assms by (simp_all add: eq)
qed

lemma run_inv_step: "qstep q q' \<Longrightarrow> job_inv q \<Longrightarrow> run_inv q \<Longrightarrow> run_inv q'"
proof (induction rule: qstep.induct)
  case (create j nid q now)
  then show ?case by (intro run_inv_same [OF \<open>run_inv q\<close>]) (simp_all add: phase_of_def)
next
  case (send j q now live)
  then show ?case by (intro run_inv_same [OF \<open>run_inv q\<close>]) (simp_all add: phase_of_def)
next
  case (cancel q i)
  then show ?case
    by (intro run_inv_same [OF \<open>run_inv q\<close>]) (simp_all add: Cancel_def split: option.splits)
next
  case (shut q)
  then show ?case by (intro run_inv_same [OF \<open>run_inv q\<close>]) (simp_all add: shutdown_def phase_of_def)
next
  case (stop q)
  then show ?case by (intro run_inv_same [OF \<open>run_inv q\<close>]) (simp_all add: Stop_def phase_of_def)
next
  case (timeout w q)
  then show ?case by (intro run_inv_same [OF \<open>run_inv q\<close>]) (simp_all add: expire_timeout_def)
next
  case (take w q)
  then show ?case
    by (intro run_inv_same [OF \<open>run_inv q\<close>])
      (auto simp: worker_take_def phase_of_def nth_list_update split: list.splits)
next
  case (load w q i now)
  then show ?case using exec_load_phases [of w q i now] by (intro run_inv_same [OF \<open>run_inv q\<close>]) auto
next
  case (exit w q)
  then show ?case unfolding worker_exit_def by (intro run_inv_phase [OF \<open>run_inv q\<close>]) simp_all
next
  case (drop q i)
  then show ?case by (intro run_inv_same [OF \<open>run_inv q\<close>]) (simp_all add: drop_row_def phase_of_def)
next
  case (register w q j)
  then show ?case by (intro run_inv_enter)
next
  case (finish w q j)
  then show ?case by (intro run_inv_leave)
qed (simp_all add: exec_mark_def exec_announce_def exec_emit_def exec_return_def exec_act_def Let_def run_inv_phase)

lemma run_inv_boot: "run_inv (boot now later b fs depth timeout n s)"
  using boot_eq [of now later b fs depth timeout n s] by (auto simp: run_inv_def phase_of_def)

lemma reachable_run_inv: "reachable q \<Longrightarrow> run_inv q"
  by (induction rule: reachable.induct) (auto intro: run_inv_boot run_inv_step reachable_job_inv)

subsection \<open>The channel's bound\<close>

definition chan_step :: "queue \<Rightarrow> queue \<Rightarrow> bool" where
  "chan_step q q' \<longleftrightarrow> q_depth q' = q_depth q \<and>
     (length (q_ch q') \<le> length (q_ch q) \<or> length (q_ch q') \<le> q_depth q)"

lemma chan_step_same: "q_depth q' = q_depth q \<Longrightarrow> q_ch q' = q_ch q \<Longrightarrow> chan_step q q'"
  by (simp add: chan_step_def)

lemma qstep_channel: "qstep q q' \<Longrightarrow> chan_step q q'"
proof (induction rule: qstep.induct)
  case (send j q now live)
  then show ?case by (simp add: chan_step_def submit_send_def send_or_fail_def)
next
  case (take w q)
  then show ?case by (simp add: chan_step_def worker_take_def split: list.splits)
next
  case (load w q i now)
  then show ?case by (intro chan_step_same) (simp_all add: exec_load_def split: sum.splits)
next
  case (cancel q i)
  then show ?case by (intro chan_step_same) (simp_all add: Cancel_def split: option.splits)
qed (simp_all add: chan_step_same shutdown_def Stop_def expire_timeout_def exec_register_def exec_mark_def
    exec_announce_def exec_emit_def Let_def exec_return_def exec_act_def exec_done_def worker_exit_def drop_row_def)

lemma reachable_channel: "reachable q \<Longrightarrow> length (q_ch q) \<le> q_depth q"
proof (induction rule: reachable.induct)
  case (first_boot now later b fs depth timeout n)
  then show ?case using boot_eq [of now later b fs depth timeout n "[]"] by auto
next
  case (restart q now later b fs depth timeout n)
  then show ?case using boot_eq [of now later b fs depth timeout n "q_store q"] by auto
next
  case (step q q')
  then have "chan_step q q'" by (intro qstep_channel)
  with step(3) show ?case unfolding chan_step_def by linarith
qed

end
