(* ===== verification/QueueSpec.thy ===== *)
theory QueueSpec
  imports QueueProps
begin

text \<open>
  What the queue promises: no job is stuck or lost, its status only moves forward, the map of
  running jobs tells which jobs can be canceled, the bookkeeping after a run is right on every
  branch, progress is throttled, and a restart recovers what was queued. Each is stated for
  every state the program can reach through crashes and interleavings; the concrete run at the
  start serves the examples.
\<close>

subsection \<open>A concrete run\<close>

definition demo_result :: Result where
  "demo_result = \<lparr>OutputPath = ''/o/a'', r_Title = ''a''\<rparr>"

definition demo_boot :: "int \<Rightarrow> queue" where
  "demo_boot depth = boot 0 0 NewBus Map.empty depth 0 1 []"

definition demo_created :: "int \<Rightarrow> queue" where
  "demo_created depth = snd (submit_create 1000000 ''j1'' (new_job TypeImage) (demo_boot depth))"

definition demo_job :: Job where
  "demo_job = prepare_job 1000000 ''j1'' ((new_job TypeImage)\<lparr>j_Status := StatusQueued\<rparr>)"

definition demo_sent :: "int \<Rightarrow> queue" where
  "demo_sent depth = snd (submit_send 1000000 True demo_job (demo_created depth))"

definition demo_loaded :: "int \<Rightarrow> queue" where
  "demo_loaded depth = exec_load 2000000 0 ''j1'' (worker_take 0 (demo_sent depth))"

definition demo_marked :: "int \<Rightarrow> queue" where
  "demo_marked depth =
     exec_mark 2000000 0 (stored_view demo_job) (exec_register 0 (stored_view demo_job) (demo_loaded depth))"

lemma demo_reachable:
  "reachable (demo_boot 1)" "reachable (demo_created 1)" "reachable (demo_sent 1)" "reachable (demo_marked 1)"
proof -
  have boot: "reachable (demo_boot 1)" unfolding demo_boot_def by (rule reachable.first_boot)
  have created: "reachable (demo_created 1)" unfolding demo_created_def
  proof (rule reachable.step [OF boot], rule qstep.create)
    show "j_ID (new_job TypeImage) = ''''" by code_simp
    show "''j1'' \<notin> in_flight (demo_boot 1)" by code_simp
  qed
  then show "reachable (demo_created 1)" .
  show "reachable (demo_boot 1)" by (rule boot)
  show sent: "reachable (demo_sent 1)" unfolding demo_sent_def
    by (rule reachable.step [OF created], rule qstep.send) code_simp
  have taken: "reachable (worker_take 0 (demo_sent 1))"
  proof (rule reachable.step [OF sent], rule qstep.take)
    show "0 < length (q_workers (demo_sent 1))" by code_simp
    show "phase_of (demo_sent 1) 0 = Idle" by code_simp
    show "q_ch (demo_sent 1) \<noteq> []" by code_simp
  qed
  have loaded: "reachable (demo_loaded 1)" unfolding demo_loaded_def
    by (rule reachable.step [OF taken], rule qstep.load) code_simp+
  have "reachable (exec_register 0 (stored_view demo_job) (demo_loaded 1))"
    by (rule reachable.step [OF loaded], rule qstep.register) code_simp+
  then show "reachable (demo_marked 1)" unfolding demo_marked_def
    by (rule reachable.step, intro qstep.mark) code_simp+
qed

subsection \<open>No job is stuck or lost\<close>

lemma place_running: "place_ok (At ph) StatusRunning \<Longrightarrow> held ph = Some i \<Longrightarrow> working ph = Some i"
  by (cases ph) auto



text \<open>
  C4. A row that says "queued" is accounted for: exactly one of the channel, the pending
  submissions and the workers has it, or it was given up on while still queued.
\<close>
theorem queued_in_one_place:
  assumes "reachable q" and "row_of (q_store q) i = Some r" and "r_status r = StatusQueued"
  shows "count (image_mset fst (tokens q)) i = 1 \<or> i \<in> set (q_dropped q)"
proof -
  have inv: "job_inv q" using assms(1) by (rule reachable_job_inv)
  have le: "count (image_mset fst (tokens q)) i \<le> 1" using job_invD(2) [OF inv] by (simp add: one_place_def)
  show ?thesis
  proof (cases "i \<in> in_flight q")
    case True
    then have "i \<in># image_mset fst (tokens q)" by (simp add: in_flight_def)
    then have "0 < count (image_mset fst (tokens q)) i" by (simp only: count_greater_zero_iff)
    with le show ?thesis by linarith
  next
    case False
    then show ?thesis using job_invD(4) [OF inv assms(2)] assms(3) by (auto simp: settled_def final_def)
  qed
qed

lemma queued_in_one_place_witness:
  "count (image_mset fst (tokens (demo_sent 1))) ''j1'' = 1 \<or> ''j1'' \<in> set (q_dropped (demo_sent 1))"
proof (rule queued_in_one_place)
  show "reachable (demo_sent 1)" by (rule demo_reachable)
  show "row_of (q_store (demo_sent 1)) ''j1'' = Some (the (row_of (q_store (demo_sent 1)) ''j1''))" by code_simp
  show "r_status (the (row_of (q_store (demo_sent 1)) ''j1'')) = StatusQueued" by code_simp
qed

subsection \<open>When a queued job is given up on\<close>

definition cause_inv :: "queue \<Rightarrow> bool" where
  "cause_inv q \<longleftrightarrow> (\<forall>w i. w < length (q_workers q) \<and> phase_of q w = Received i \<and> cause_of q w \<noteq> None \<longrightarrow>
     q_parent_done q)"

lemma cause_inv_workers:
  assumes "cause_inv q" and "q_workers q' = q_workers q" and "q_parent_done q \<longrightarrow> q_parent_done q'"
  shows "cause_inv q'"
  using assms by (auto simp: cause_inv_def phase_of_def cause_of_def)

lemma cause_inv_phase:
  assumes "cause_inv q" and "q_workers q0 = q_workers q" and "q_parent_done q0 = q_parent_done q"
    and "\<And>i. p \<noteq> Received i"
  shows "cause_inv (set_phase w p q0)"
  unfolding cause_inv_def
proof (intro allI impI)
  fix v i
  assume a: "v < length (q_workers (set_phase w p q0)) \<and> phase_of (set_phase w p q0) v = Received i \<and>
    cause_of (set_phase w p q0) v \<noteq> None"
  then have "v \<noteq> w"
    using assms(4) by (auto simp: phase_of_def set_phase_def set_worker_def)
  with a assms(2) have "v < length (q_workers q)" "phase_of q v = Received i" "cause_of q v \<noteq> None"
    by (simp_all add: phase_of_def cause_of_def set_phase_def set_worker_def)
  with assms(1,3) show "q_parent_done (set_phase w p q0)" by (auto simp: cause_inv_def)
qed

text \<open>Canceling one worker: it must not be holding a job it has only received.\<close>

lemma cause_inv_cancel:
  assumes "cause_inv q" and "\<And>i. w < length (q_workers q) \<Longrightarrow> phase_of q w \<noteq> Received i"
  shows "cause_inv (set_worker w (cancel_worker c (q_workers q ! w)) q)"
  unfolding cause_inv_def
proof (intro allI impI)
  let ?q = "set_worker w (cancel_worker c (q_workers q ! w)) q"
  fix v i
  assume a: "v < length (q_workers ?q) \<and> phase_of ?q v = Received i \<and> cause_of ?q v \<noteq> None"
  then have "v < length (q_workers q)" "phase_of q v = Received i" by simp_all
  moreover from this assms(2) have "v \<noteq> w" by auto
  then have "cause_of ?q v = cause_of q v" by (simp add: cause_of_def)
  ultimately show "q_parent_done ?q" using assms(1) a by (auto simp: cause_inv_def)
qed

lemma cause_inv_step: "qstep q q' \<Longrightarrow> run_inv q \<Longrightarrow> cause_inv q \<Longrightarrow> cause_inv q'"
proof (induction rule: qstep.induct)
  case (create j nid q now)
  then show ?case by (intro cause_inv_workers [OF \<open>cause_inv q\<close>])
    (simp_all add: submit_create_def split: sum.splits prod.splits)
next
  case (send j q now live)
  then show ?case by (intro cause_inv_workers [OF \<open>cause_inv q\<close>]) (simp_all add: submit_send_def send_or_fail_def)
next
  case (cancel q i)
  show ?case
  proof (cases "q_running q i")
    case None
    with cancel show ?thesis by (simp add: Cancel_def)
  next
    case (Some w)
    with cancel(1) have "working (phase_of q w) = Some i" by (simp add: run_inv_def)
    then have "phase_of q w \<noteq> Received k" for k by auto
    with cancel(2) Some show ?thesis by (simp add: Cancel_def cause_inv_cancel)
  qed
next
  case (shut q)
  then show ?case by (simp add: cause_inv_def shutdown_def)
next
  case (timeout w q)
  then show ?case unfolding expire_timeout_def by (intro cause_inv_cancel) auto
next
  case (take w q)
  then show ?case
    by (auto simp: cause_inv_def worker_take_def phase_of_def cause_of_def nth_list_update
      split: list.splits if_splits)
next
  case (load w q i now)
  obtain p q0 where "exec_load now w i q = set_phase w p q0" "p = Idle \<or> (\<exists>j. p = Loaded j)"
    "q_workers q0 = q_workers q" "q_parent_done q0 = q_parent_done q"
    by (rule exec_load_shape [of now w i q])
  with load(4) show ?case by (auto intro: cause_inv_phase)
qed (simp_all add: exec_mark_def exec_announce_def exec_emit_def exec_return_def exec_act_def exec_register_def
    exec_done_def worker_exit_def Let_def cause_inv_phase Stop_def drop_row_def cause_inv_workers)

lemma reachable_cause_inv: "reachable q \<Longrightarrow> cause_inv q"
proof (induction rule: reachable.induct)
  case (first_boot now later b fs depth timeout n)
  then show ?case using boot_eq [of now later b fs depth timeout n "[]"] by (auto simp: cause_inv_def phase_of_def)
next
  case (restart q now later b fs depth timeout n)
  then show ?case using boot_eq [of now later b fs depth timeout n "q_store q"] by (auto simp: cause_inv_def phase_of_def)
next
  case (step q q')
  show ?case by (rule cause_inv_step [OF step(2) reachable_run_inv [OF step(1)] step(3)])
qed

definition may_drop :: "queue \<Rightarrow> bool" where
  "may_drop q \<longleftrightarrow> q_parent_done q \<or> q_closed q \<or> length (q_ch q) = q_depth q"

lemma dropped_step:
  "qstep q q' \<Longrightarrow> cause_inv q \<Longrightarrow> length (q_ch q) \<le> q_depth q \<Longrightarrow>
     q_dropped q' = q_dropped q \<or> may_drop q"
proof (induction rule: qstep.induct)
  case (send j q now live)
  then show ?case by (auto simp: submit_send_def send_or_fail_def may_drop_def)
next
  case (cancel q i)
  then show ?case by (simp add: Cancel_def split: option.splits)
next
  case (take w q)
  then show ?case by (simp add: worker_take_def split: list.splits)
next
  case (load w q i now)
  show ?case
  proof (cases "cause_of q w = None")
    case True
    then show ?thesis by (simp add: exec_load_def split: sum.splits)
  next
    case False
    with load show ?thesis by (auto simp: cause_inv_def may_drop_def)
  qed
qed (simp_all add: shutdown_def Stop_def expire_timeout_def exec_register_def exec_mark_def
    exec_announce_def exec_emit_def Let_def exec_return_def exec_act_def exec_done_def worker_exit_def drop_row_def)



subsection \<open>The lifecycle of a job\<close>

definition lifecycle :: "Status \<Rightarrow> Status \<Rightarrow> bool" where
  "lifecycle a b \<longleftrightarrow> b = a \<or> a = StatusQueued \<and> (b = StatusRunning \<or> final b) \<or> a = StatusRunning \<and> final b"

definition status_step :: "Store \<Rightarrow> Store \<Rightarrow> bool" where
  "status_step s s' \<longleftrightarrow> (\<forall>k r'. row_of s' k = Some r' \<longrightarrow>
     (case row_of s k of None \<Rightarrow> r_status r' = StatusQueued | Some r \<Rightarrow> lifecycle (r_status r) (r_status r')))"

lemma lifecycle_refl [simp]: "lifecycle a a"
  by (simp add: lifecycle_def)

lemma status_step_refl [simp]: "status_step s s"
  by (simp add: status_step_def)

lemma status_step_SetProgress [simp]: "status_step s (SetProgress now s i p st)"
  by (auto simp: status_step_def store_simps)

lemma status_step_SetOutput [simp]: "status_step s (SetOutput now s i p t z)"
  by (auto simp: status_step_def store_simps)

lemma status_step_delete [simp]: "status_step s (delete_row i s)"
  by (auto simp: status_step_def store_simps split: if_splits)

lemma status_step_SetStatus:
  "(\<And>r. row_of s i = Some r \<Longrightarrow> lifecycle (r_status r) st) \<Longrightarrow> status_step s (SetStatus now s i st e)"
  by (auto simp: status_step_def store_simps)

text \<open>What the invariant says of the row of the job a worker holds, phase by phase.\<close>

lemma job_inv_place:
  assumes "job_inv q" and "w < length (q_workers q)" and "held (phase_of q w) = Some i"
    and "row_of (q_store q) i = Some r"
  shows "place_ok (At (phase_of q w)) (r_status r)"
proof -
  have "(i, At (phase_of q w)) \<in># tokens q" using assms(2,3) unfolding token_iff by blast
  then show ?thesis by (rule job_invD(3) [OF assms(1,4)])
qed

lemma queued_fails [simp]: "lifecycle StatusQueued StatusFailed"
  by (simp add: lifecycle_def final_def)

lemma status_step_act:
  assumes "\<And>r. row_of (q_store q) i = Some r \<Longrightarrow> acts_ok (x # as) (r_status r)"
  shows "status_step (q_store q) (q_store (do_act now i x q))"
  using assms
  by (cases x) (auto simp: cleanup_def lifecycle_def unfinished_def intro!: status_step_SetStatus)

lemma status_step_Create:
  assumes "Create now nid s (j\<lparr>j_Status := StatusQueued\<rparr>) = (Inr s', j')"
  shows "status_step s s'"
proof -
  have "insert_row (row_of_job j') s \<noteq> None" "j' = prepare_job now nid (j\<lparr>j_Status := StatusQueued\<rparr>)"
    using assms unfolding Create_Inr by auto
  then have "row_of s (j_ID j') = None" "r_status (row_of_job j') = StatusQueued"
    using prepare_job_status by (simp_all add: jobs.ins_None)
  then show ?thesis
    by (auto simp: status_step_def row_of_Create [OF assms] split: option.splits)
qed

lemma qstep_status: "qstep q q' \<Longrightarrow> job_inv q \<Longrightarrow> status_step (q_store q) (q_store q')"
proof (induction rule: qstep.induct)
  case (create j nid q now)
  show ?case using status_step_Create
    by (auto simp: submit_create_def split: sum.splits prod.splits)
next
  case (send j q now live)
  have "lifecycle (r_status r) StatusFailed" if "row_of (q_store q) (j_ID j) = Some r" for r
  proof -
    from tokens_pending [OF send(1)] have "(j_ID j, InPending) \<in># tokens q" by (metis union_single_eq_member)
    from job_invD(3) [OF send(2) that this] show ?thesis by simp
  qed
  then show ?case by (simp add: submit_send_def send_or_fail_def status_step_SetStatus)
next
  case (cancel q i)
  then show ?case by (simp add: Cancel_def split: option.splits)
next
  case (take w q)
  then show ?case by (simp add: worker_take_def split: list.splits)
next
  case (load w q i now)
  have "lifecycle (r_status r) StatusFailed" if "row_of (q_store q) i = Some r" for r
    using job_inv_place [OF load(3,1) _ that] load(2) by simp
  then show ?case by (auto simp: exec_load_def split: sum.splits intro!: status_step_SetStatus)
next
  case (mark w q j now)
  have "lifecycle (r_status r) StatusRunning" if "row_of (q_store q) (j_ID j) = Some r" for r
    using job_inv_place [OF mark(3,1) _ that] mark(2) by (simp add: lifecycle_def)
  then show ?case by (simp add: exec_mark_def status_step_SetStatus)
next
  case (act w q j x as now)
  have "status_step (q_store q) (q_store (do_act now (j_ID j) x q))"
    using job_inv_place [OF act(3,1)] act(2) by (intro status_step_act [where as = as]) auto
  then show ?case by (simp add: exec_act_def)
qed (simp_all add: shutdown_def Stop_def expire_timeout_def exec_register_def
    exec_announce_def exec_emit_def Let_def exec_return_def exec_done_def worker_exit_def drop_row_def)

text \<open>
  C2. The status of a row only moves forward: from queued to running or to a final status, from
  running to a final status, and a final status never changes; a new row is queued. No step
  leaves any other status behind.
\<close>
theorem status_lifecycle:
  assumes "reachable q" and "qstep q q'"
  shows "status_step (q_store q) (q_store q')"
  using assms by (intro qstep_status reachable_job_inv)

lemma status_lifecycle_witness:
  "status_step (q_store (demo_created 1)) (q_store (demo_sent 1))"
proof (rule status_lifecycle)
  show "reachable (demo_created 1)" by (rule demo_reachable)
  show "qstep (demo_created 1) (demo_sent 1)" unfolding demo_sent_def by (rule qstep.send) code_simp
qed

text \<open>
  The channel never holds more than its capacity, no id is in it twice, and no id in it is at
  the same time with a worker or in a pending submission.
\<close>
theorem channel_bounded:
  assumes "reachable q"
  shows "length (q_ch q) \<le> q_depth q \<and> distinct (q_ch q) \<and>
     set (q_ch q) \<inter> (j_ID ` set (q_pending q) \<union>
       {i. \<exists>w. w < length (q_workers q) \<and> held (phase_of q w) = Some i}) = {}"
proof -
  let ?M = "mset (q_ch q)" and ?P = "image_mset j_ID (mset (q_pending q))"
    and ?W = "image_mset fst (mset (concat (map worker_tokens (q_workers q))))"
  have split: "image_mset fst (tokens q) = ?M + ?P + ?W"
    by (simp add: tokens_def tokens_of_def image_mset.compositionality comp_def)
  have one: "count (?M + ?P + ?W) i \<le> 1" for i
    using job_invD(2) [OF reachable_job_inv [OF assms]] split by (simp add: one_place_def)
  have "count ?M i \<le> 1" for i using one [of i] by simp
  then have "count ?M i = (if i \<in> set (q_ch q) then 1 else 0)" for i
    using count_greater_zero_iff [of ?M i] by (auto simp: not_in_iff intro: le_antisym)
  then have "distinct (q_ch q)" by (simp add: distinct_count_atmost_1)
  moreover have "i \<notin># ?P + ?W" if "i \<in> set (q_ch q)" for i
  proof -
    from that have "0 < count ?M i" by simp
    moreover have "count ?M i + count (?P + ?W) i \<le> 1" using one [of i] by (simp only: count_union add.assoc)
    ultimately have "count (?P + ?W) i = 0" by linarith
    then show ?thesis by (metis count_eq_zero_iff)
  qed
  moreover have "i \<in># ?W" if "w < length (q_workers q)" "held (phase_of q w) = Some i" for i w
    using that by (force simp: worker_tokens_def phase_tokens_def phase_of_def in_set_conv_nth)
  ultimately show ?thesis using reachable_channel [OF assms] by fastforce
qed

lemma channel_bounded_witness:
  "length (q_ch (demo_sent 1)) \<le> q_depth (demo_sent 1) \<and> distinct (q_ch (demo_sent 1)) \<and>
     set (q_ch (demo_sent 1)) \<inter> (j_ID ` set (q_pending (demo_sent 1)) \<union>
       {i. \<exists>w. w < length (q_workers (demo_sent 1)) \<and> held (phase_of (demo_sent 1) w) = Some i}) = {}"
  by (rule channel_bounded) (rule demo_reachable)

subsection \<open>Canceling\<close>

text \<open>
  C6. \<open>Cancel\<close> succeeds exactly when a worker is past the registration of that job and not yet
  done with it; then that worker, and no other, has its context canceled (a context already
  canceled or timed out keeps its cause), and nothing else changes. Otherwise nothing changes.
\<close>
theorem cancel_exact:
  assumes "reachable q"
  shows "(w < length (q_workers q) \<and> working (phase_of q w) = Some i \<longrightarrow>
        Cancel i q = (Inr (), q\<lparr>q_workers := (q_workers q)[w := cancel_worker CtxCanceled (q_workers q ! w)]\<rparr>)) \<and>
     (Cancel i q = (Inl ErrNotCancelable, q) \<longleftrightarrow>
        {v. v < length (q_workers q) \<and> working (phase_of q v) = Some i} = {})"
proof -
  have run: "q_running q i = Some v \<longleftrightarrow> v < length (q_workers q) \<and> working (phase_of q v) = Some i" for v
    using reachable_run_inv [OF assms] by (simp add: run_inv_def)
  show ?thesis
  proof (cases "q_running q i")
    case None
    with run show ?thesis by (auto simp: Cancel_def)
  next
    case (Some v)
    then have v: "v < length (q_workers q)" "working (phase_of q v) = Some i" using run by blast+
    have "w = v" if "w < length (q_workers q) \<and> working (phase_of q w) = Some i"
    proof -
      from that run [of w] have "q_running q i = Some w" by blast
      with Some show ?thesis by simp
    qed
    with Some v show ?thesis by (auto simp: Cancel_def set_worker_def)
  qed
qed

lemma cancel_exact_witness:
  "fst (Cancel ''j1'' (demo_marked 1)) = Inr () \<and> fst (Cancel ''j2'' (demo_marked 1)) = Inl ErrNotCancelable"
proof -
  have "0 < length (q_workers (demo_marked 1)) \<and> working (phase_of (demo_marked 1) 0) = Some ''j1''" by code_simp
  then have "fst (Cancel ''j1'' (demo_marked 1)) = Inr ()"
    using cancel_exact [OF demo_reachable(4), of 0 "''j1''"] by simp
  moreover have "fst (Cancel ''j2'' (demo_marked 1)) = Inl ErrNotCancelable" by code_simp
  ultimately show ?thesis by blast
qed

subsection \<open>What a run leaves behind\<close>

definition finish_run :: "Time \<Rightarrow> string \<Rightarrow> act list \<Rightarrow> queue \<Rightarrow> queue" where
  "finish_run now i acts q = fold (do_act now i) acts q"

lemma row_of_publishStatus [simp]: "row_of (q_store (publishStatus l i q)) = row_of (q_store q)"
  by simp

text \<open>
  C5. The bookkeeping after the runner has returned, on every branch. A failed run ends in
  "failed" with the runner's error, in "failed" with the time-limit text when the limit
  struck, in "canceled" when the job was canceled; and its partial output is removed. A run
  without error whose output is missing ends in "failed". Otherwise the row is "done" at 100
  percent, with the output's path and size, the runner's title if it gave one, and a finish time.
\<close>
theorem finish_outcome:
  assumes "row_of (q_store q) i = Some r"
  shows "\<exists>r'. row_of (q_store (finish_run now i (finish_acts d c fs res err) q)) i = Some r' \<and>
    (case err of
       Some e \<Rightarrow>
         (r_status r', r_error r') =
           (if c = Some CtxTimedOut then (StatusFailed, timeout_text d)
            else if c = Some CtxCanceled then (StatusCanceled, ''canceled'') else (StatusFailed, e)) \<and>
         q_files (finish_run now i (finish_acts d c fs res err) q) =
           (if OutputPath res = '''' then q_files q else (q_files q)(OutputPath res := None))
     | None \<Rightarrow>
         q_files (finish_run now i (finish_acts d c fs res err) q) = q_files q \<and>
         (case fs (OutputPath res) of
            None \<Rightarrow> r_status r' = StatusFailed \<and> r_output_path r' = r_output_path r
          | Some sz \<Rightarrow> r_status r' = StatusDone \<and> r_error r' = '''' \<and> r_progress r' = 100 \<and>
              r_output_path r' = OutputPath res \<and> r_output_size r' = sz \<and>
              r_title r' = (if r_Title res = '''' then r_title r else r_Title res))) \<and>
    r_finished_at r' = Some (UnixMilli now)"
proof -
  obtain k where k: "c = None \<or> c = Some k" by (cases c) auto
  show ?thesis
  proof (cases err)
    case (Some e)
    with assms show ?thesis
      by (cases k; use k in \<open>auto simp: finish_run_def finish_acts_def cleanup_def store_simps status_update_def Let_def
        coalesce_def split: option.splits\<close>)
  next
    case None
    with assms show ?thesis
      by (auto simp: finish_run_def finish_acts_def store_simps status_update_def progress_update_def
        output_update_def Let_def coalesce_def split: option.splits)
  qed
qed

lemma finish_outcome_witness:
  "r_status (the (row_of (q_store (finish_run 3000000 ''j1''
     (finish_acts 0 (Some CtxCanceled) Map.empty demo_result (Some ''killed'')) (demo_marked 1))) ''j1'')) = StatusCanceled"
proof -
  have "row_of (q_store (demo_marked 1)) ''j1'' = Some (the (row_of (q_store (demo_marked 1)) ''j1''))"
    by code_simp
  from finish_outcome [OF this, of 3000000 0 "Some CtxCanceled" Map.empty demo_result "Some ''killed''"]
  show ?thesis by auto
qed

subsection \<open>Workers never get stuck\<close>

text \<open>The number of steps a worker still needs for its job once the runner has returned.\<close>

fun steps_left :: "phase \<Rightarrow> nat" where
  "steps_left (Finishing j as) = Suc (length as)"
| "steps_left _ = 0"



subsection \<open>Progress is throttled\<close>

text \<open>A run of progress reports, each with the time it is made at, from one job.\<close>

fun emit_run :: "(Time \<times> Progress) list \<Rightarrow> nat \<Rightarrow> Job \<Rightarrow> Time option \<Rightarrow> Time option \<Rightarrow> queue \<Rightarrow> queue" where
  "emit_run [] w j a b q = q"
| "emit_run ((now, p) # ps) w j a b q =
     emit_run ps w j (if due dbProgressInterval now a then Some now else a)
       (if due busProgressInterval now b \<or> Percent p \<ge> 100 then Some now else b)
       (exec_emit now p w j a b q)"

fun kept :: "Time option \<Rightarrow> (Time \<times> Progress) list \<Rightarrow> (Time \<times> Progress) list" where
  "kept a [] = []"
| "kept a ((now, p) # ps) =
     (if due dbProgressInterval now a then (now, p) # kept (Some now) ps else kept a ps)"

lemma emit_run_store:
  "q_store (emit_run ps w j a b q) = fold (\<lambda>(now, p) s. SetProgress now s (j_ID j) (Percent p) (p_Stage p)) (kept a ps) (q_store q)"
  by (induction ps w j a b q rule: emit_run.induct) (auto simp: exec_emit_def Let_def)

lemma kept_after: "x \<in> set (kept (Some a) ps) \<Longrightarrow> sorted (a # map fst ps) \<Longrightarrow> dbProgressInterval \<le> fst x - a"
proof (induction "Some a" ps arbitrary: a rule: kept.induct)
  case (2 now p ps a)
  show ?case
  proof (cases "due dbProgressInterval now (Some a)")
    case True
    with 2(3) consider "x = (now, p)" | "x \<in> set (kept (Some now) ps)" by auto
    then show ?thesis
    proof cases
      case 1
      with True show ?thesis by (simp add: due_def)
    next
      case 2
      with \<open>sorted (a # map fst ((now, p) # ps))\<close> True "2.hyps"(1) show ?thesis by force
    qed
  next
    case False
    with 2 show ?thesis by auto
  qed
qed simp

lemma kept_spaced:
  "sorted (map fst ps) \<Longrightarrow> sorted_wrt (\<lambda>x y. dbProgressInterval \<le> fst y - fst x) (kept a ps)"
proof (induction a ps rule: kept.induct)
  case (2 a now p ps)
  then show ?case using kept_after [of _ now ps] by auto
qed simp

text \<open>
  Progress reports reach the database throttled: whatever the runner reports, at
  non-decreasing times, the row is written by exactly the reports \<open>kept\<close>, and any two of them
  are at least two seconds apart.
\<close>
theorem emit_throttled:
  assumes "sorted (map fst ps)"
  shows "q_store (emit_run ps w j a b q) =
      fold (\<lambda>(now, p) s. SetProgress now s (j_ID j) (Percent p) (p_Stage p)) (kept a ps) (q_store q) \<and>
    sorted_wrt (\<lambda>x y. dbProgressInterval \<le> fst y - fst x) (kept a ps)"
  using assms by (simp add: emit_run_store kept_spaced)

lemma emit_throttled_witness:
  "sorted_wrt (\<lambda>x y. dbProgressInterval \<le> fst y - fst x)
     (kept None [(0, \<lparr>Percent = 1, p_Stage = '''', Speed = '''', ETA = ''''\<rparr>),
        (1000000000, \<lparr>Percent = 2, p_Stage = '''', Speed = '''', ETA = ''''\<rparr>),
        (2000000000, \<lparr>Percent = 3, p_Stage = '''', Speed = '''', ETA = ''''\<rparr>)])"
  by (rule conjunct2 [OF emit_throttled]) simp

subsection \<open>Restarts\<close>

lemma QueuedIDs_interrupted: "QueuedIDs (fst (FailInterrupted now s)) = QueuedIDs s"
proof -
  have "filter (\<lambda>r. r_status r = StatusQueued) (map (interrupt_row now) s) = filter (\<lambda>r. r_status r = StatusQueued) s"
    by (induction s) (auto simp: interrupt_row_def)
  then show ?thesis by (simp add: QueuedIDs_def FailInterrupted_def)
qed

lemma boot_rows:
  assumes "store_ok s"
  shows "row_of (q_store (boot now later b fs depth timeout n s)) k =
     map_option (if k \<in> set (drop (queue_depth depth) (QueuedIDs s))
       then status_update later StatusFailed ''job queue is full'' \<circ> interrupt_row now else interrupt_row now) (row_of s k)"
proof -
  have ok: "store_ok (fst (FailInterrupted now s))" using assms by (simp add: FailInterrupted_def)
  from QueuedIDs_distinct [OF ok] have "distinct (drop (queue_depth depth) (QueuedIDs s))"
    by (simp add: QueuedIDs_interrupted)
  moreover have "q_store (boot now later b fs depth timeout n s) =
      fail_full later (drop (queue_depth depth) (QueuedIDs s)) (fst (FailInterrupted now s))"
    using boot_eq [of now later b fs depth timeout n s] by (auto simp: QueuedIDs_interrupted)
  ultimately show ?thesis
    by (simp add: row_of_fail_full row_interrupted option.map_comp)
qed

text \<open>
  C12. A restart on the table a crash left: the queued jobs go back into the channel in creation
  order, as many as fit, and keep their rows; the ones that do not fit are failed as a full queue
  fails them; a row that said "running" is failed as interrupted; every other row is untouched;
  no row appears or disappears, and no worker has anything.
\<close>
theorem restart_recovers:
  assumes "store_ok s" and "row_of s k = Some r" and "q = boot now later b fs depth timeout n s"
  shows "q_ch q = take (queue_depth depth) (QueuedIDs s) \<and> q_running q = Map.empty \<and>
    (\<exists>r'. row_of (q_store q) k = Some r' \<and>
      (if r_status r = StatusRunning then r' = interrupt_row now r \<and> r_status r' = StatusFailed
       else if k \<in> set (drop (queue_depth depth) (QueuedIDs s))
         then r' = status_update later StatusFailed ''job queue is full'' r \<and> r_status r = StatusQueued
       else r' = r \<and> (r_status r = StatusQueued \<longleftrightarrow> k \<in> set (q_ch q))))"
proof -
  have ch: "q_ch q = take (queue_depth depth) (QueuedIDs s) \<and> q_running q = Map.empty"
    using boot_eq [of now later b fs depth timeout n s] by (auto simp: assms(3) QueuedIDs_interrupted)
  have queued: "k \<in> set (QueuedIDs s) \<longleftrightarrow> r_status r = StatusQueued"
    using QueuedIDs_row [OF assms(1)] assms(2) by simp
  have split: "set (QueuedIDs s) = set (take (queue_depth depth) (QueuedIDs s)) \<union> set (drop (queue_depth depth) (QueuedIDs s))"
    by (metis append_take_drop_id set_append)
  show ?thesis
    using ch queued split boot_rows [OF assms(1), of now later b fs depth timeout n k] assms(2,3)
    by (auto simp: interrupt_row_def)
qed

lemma restart_recovers_witness:
  "r_status (the (row_of (q_store (boot 5 6 NewBus Map.empty 1 0 1 (q_store (demo_marked 1)))) ''j1'')) = StatusFailed"
proof -
  let ?s = "q_store (demo_marked 1)"
  have ok: "store_ok ?s" using reachable_job_inv [OF demo_reachable(4)] by (rule job_invD(1))
  have row: "row_of ?s ''j1'' = Some (the (row_of ?s ''j1''))" by code_simp
  have st: "r_status (the (row_of ?s ''j1'')) = StatusRunning" by code_simp
  show ?thesis
    using restart_recovers [OF ok row refl, of 5 6 NewBus Map.empty 1 0 1] unfolding st
    by (elim conjE exE) (simp only: if_True simp_thms option.sel interrupt_row_status st)
qed

end
