(* ===== verification/GoPath.thy ===== *)
theory GoPath
  imports GoString
begin

text \<open>
  The functions of the standard library's \<open>path/filepath\<close> the program calls, on Unix paths:
  \<open>Clean\<close>, \<open>Join\<close>, \<open>Base\<close>, \<open>Dir\<close>, \<open>Ext\<close> and \<open>IsAbs\<close>.
\<close>

definition IsAbs :: "string \<Rightarrow> bool" where
  "IsAbs p \<longleftrightarrow> HasPrefix p ''/''"

text \<open>One element of the path against the elements kept so far, last one first.\<close>

fun clean_push :: "bool \<Rightarrow> string list \<Rightarrow> string \<Rightarrow> string list" where
  "clean_push rooted out e =
     (if e = '''' \<or> e = ''.'' then out
      else if e = ''..'' then
        (case out of
           [] \<Rightarrow> if rooted then [] else [''..'']
         | o1 # os \<Rightarrow> if o1 = ''..'' then ''..'' # out else os)
      else e # out)"

definition clean_elems :: "bool \<Rightarrow> string list \<Rightarrow> string list" where
  "clean_elems rooted es = rev (foldl (clean_push rooted) [] es)"

definition Clean :: "string \<Rightarrow> string" where
  "Clean p =
     (let body = Join (clean_elems (IsAbs p) (Split p CHR ''/'')) ''/''
      in if IsAbs p then ''/'' @ body else if body = '''' then ''.'' else body)"

definition Join_path :: "string list \<Rightarrow> string" where
  "Join_path es = (let es = filter (\<lambda>e. e \<noteq> '''') es in if es = [] then '''' else Clean (Join es ''/''))"

definition Base :: "string \<Rightarrow> string" where
  "Base p =
     (if p = '''' then ''.''
      else let p = TrimRight p ''/'';
               b = (case LastIndexByte p CHR ''/'' of Some i \<Rightarrow> drop (Suc i) p | None \<Rightarrow> p)
           in if b = '''' then ''/'' else b)"

definition Ext :: "string \<Rightarrow> string" where
  "Ext p = (let b = (case LastIndexByte p CHR ''/'' of Some i \<Rightarrow> drop (Suc i) p | None \<Rightarrow> p)
     in case LastIndexByte b CHR ''.'' of Some i \<Rightarrow> drop i b | None \<Rightarrow> '''')"

definition Dir :: "string \<Rightarrow> string" where
  "Dir p = Clean (case LastIndexByte p CHR ''/'' of Some i \<Rightarrow> take (Suc i) p | None \<Rightarrow> '''')"

subsection \<open>Facts\<close>

text \<open>The elements of a clean rooted path are proper names.\<close>

definition proper_name :: "string \<Rightarrow> bool" where
  "proper_name e \<longleftrightarrow> e \<noteq> '''' \<and> e \<noteq> ''.'' \<and> e \<noteq> ''..'' \<and> CHR ''/'' \<notin> set e"

lemma clean_push_proper:
  assumes "list_all proper_name out" and "CHR ''/'' \<notin> set e"
  shows "list_all proper_name (clean_push True out e)"
  using assms by (cases out) (auto simp: proper_name_def)

lemma clean_rooted_proper:
  assumes "list_all (\<lambda>e. CHR ''/'' \<notin> set e) es" and "list_all proper_name out"
  shows "list_all proper_name (foldl (clean_push True) out es)"
  using assms
proof (induction es arbitrary: out)
  case (Cons e es)
  then show ?case using clean_push_proper [of out e] by (simp del: clean_push.simps)
qed simp

text \<open>Pushing a proper name onto a list of proper names keeps everything.\<close>

lemma clean_push_names:
  "list_all proper_name es \<Longrightarrow> foldl (clean_push r) out es = rev es @ out"
  by (induction es arbitrary: out) (auto simp: proper_name_def)


subsection \<open>A name below a clean directory\<close>

text \<open>A clean rooted path: a slash and proper names joined by slashes.\<close>

definition rooted_dir :: "string \<Rightarrow> bool" where
  "rooted_dir d \<longleftrightarrow> (\<exists>es. es \<noteq> [] \<and> list_all proper_name es \<and> d = ''/'' @ Join es ''/'')"

lemma Join_snoc: "es \<noteq> [] \<Longrightarrow> Join (es @ [e]) sep = Join es sep @ sep @ e"
  by (induction es sep rule: Join.induct) auto

lemma Split_Join: "es \<noteq> [] \<Longrightarrow> list_all (\<lambda>e. c \<notin> set e) es \<Longrightarrow> Split (Join es [c]) c = es"
  by (induction es "[c]" rule: Join.induct) (auto simp: Split_id Split_append)

lemma proper_no_slash: "list_all proper_name es \<Longrightarrow> list_all (\<lambda>e. CHR ''/'' \<notin> set e) es"
  by (auto simp: list_all_iff proper_name_def)

lemma Clean_rooted:
  assumes "es \<noteq> []" and "list_all proper_name es"
  shows "Clean (''/'' @ Join es ''/'') = ''/'' @ Join es ''/''"
proof -
  have "Split (''/'' @ Join es ''/'') CHR ''/'' = '''' # es"
    using Split_Join [OF assms(1) proper_no_slash [OF assms(2)]] by simp
  moreover have "clean_elems True ('''' # es) = es"
    using clean_push_names [OF assms(2), of True "[]"] by (simp add: clean_elems_def)
  ultimately show ?thesis by (simp add: Clean_def IsAbs_def Let_def HasPrefix_def)
qed

lemma Join_path_rooted:
  assumes "rooted_dir d" and "proper_name e"
  shows "Join_path [d, e] = d @ ''/'' @ e"
proof -
  from assms(1) obtain es where es: "es \<noteq> []" "list_all proper_name es" "d = ''/'' @ Join es ''/''"
    by (auto simp: rooted_dir_def)
  have "d @ ''/'' @ e = ''/'' @ Join (es @ [e]) ''/''" by (simp add: es(3) Join_snoc [OF es(1)])
  moreover have "Clean (''/'' @ Join (es @ [e]) ''/'') = ''/'' @ Join (es @ [e]) ''/''"
    using es(2) assms(2) by (intro Clean_rooted) simp_all
  moreover have "Join_path [d, e] = Clean (d @ ''/'' @ e)"
    using assms(2) by (simp add: Join_path_def Let_def proper_name_def es(3))
  ultimately show ?thesis by simp
qed

end
