(* ===== verification/Retention.thy ===== *)
theory Retention
  imports JobStore Bus GoPath
begin

text \<open>
  The retention sweeper of \<open>internal/retention/retention.go\<close>: expired jobs are deleted with
  their files, an input only when no other job needs it, and uploads no job refers to are
  collected after a grace period. What the operating system and the database answer is the
  record \<open>sweep_env\<close>: which calls fail, what the directory lists, how paths resolve. Files are a
  map from paths to sizes.
\<close>

subsection \<open>State\<close>

record dir_entry =
  d_name :: string
  d_regular :: bool
  d_info :: "(int \<times> Time) option"

record sweep_env =
  unlink_err :: "string \<Rightarrow> bool"
  expired_err :: bool
  shared_err :: "string \<Rightarrow> bool"
  delete_err :: "string \<Rightarrow> bool"
  paths_err :: bool
  read_dir :: "dir_entry list option"
  abs_path :: "string \<Rightarrow> string option"
  eval_links :: "string \<Rightarrow> string option"

record Sweeper =
  interval :: int
  uploadDir :: string
  uploadGrace :: int

record sweep_state =
  sw_store :: Store
  sw_bus :: "Bus option"
  sw_files :: "string \<Rightarrow> int option"

definition DefaultInterval :: int where "DefaultInterval = 10 * 60 * 1000000000"
definition DefaultUploadGrace :: int where "DefaultUploadGrace = 24 * 60 * 60 * 1000000000"

definition NewSweeper :: "int \<Rightarrow> Sweeper" where
  "NewSweeper iv = \<lparr>interval = (if iv \<le> 0 then DefaultInterval else iv), uploadDir = '''', uploadGrace = 0\<rparr>"

definition WithUploadGC :: "string \<Rightarrow> int \<Rightarrow> Sweeper \<Rightarrow> Sweeper" where
  "WithUploadGC dir grace s = s\<lparr>uploadDir := dir, uploadGrace := grace\<rparr>"

subsection \<open>Operations\<close>

text \<open>\<open>remove\<close>: an empty path is skipped, a failure is only logged.\<close>

definition sweep_remove :: "sweep_env \<Rightarrow> string \<Rightarrow> sweep_state \<Rightarrow> sweep_state" where
  "sweep_remove env path st =
     (if path = '''' then st
      else if unlink_err env path then st
      else st\<lparr>sw_files := (sw_files st)(path := None)\<rparr>)"

definition removeInput :: "sweep_env \<Rightarrow> Job \<Rightarrow> sweep_state \<Rightarrow> sweep_state" where
  "removeInput env j st =
     (if j_InputPath j = '''' then st
      else if shared_err env (j_ID j) then st
      else if InputPathShared (sw_store st) (j_InputPath j) (j_ID j) then st
      else sweep_remove env (j_InputPath j) st)"

text \<open>One round of the loop over the expired jobs; the counters are \<open>deleted\<close> and \<open>freed\<close>.\<close>

definition sweep_job :: "sweep_env \<Rightarrow> Job \<Rightarrow> sweep_state \<times> nat \<times> int \<Rightarrow> sweep_state \<times> nat \<times> int" where
  "sweep_job env j acc =
     (case acc of (st, deleted, freed) \<Rightarrow>
        let st = sweep_remove env (j_OutputPath j) st;
            st = removeInput env j st
        in case (if delete_err env (j_ID j) then Inl ErrUnavailable else Delete (sw_store st) (j_ID j)) of
             Inl _ \<Rightarrow> (st, deleted, freed)
           | Inr s \<Rightarrow> (st\<lparr>sw_store := s,
               sw_bus := map_option (Publish \<lparr>Kind = EventDeleted, JobID = j_ID j, e_Job = None, e_Progress = None\<rparr>)
                 (sw_bus st)\<rparr>, Suc deleted, freed + j_OutputSize j))"

definition realDir :: "sweep_env \<Rightarrow> string \<Rightarrow> string" where
  "realDir env dir =
     (case abs_path env dir of
        None \<Rightarrow> Clean dir
      | Some a \<Rightarrow> (case eval_links env a of Some r \<Rightarrow> r | None \<Rightarrow> a))"

text \<open>The tests of the loop over the directory, in the code's order.\<close>

definition sweep_entry :: "sweep_env \<Rightarrow> string \<Rightarrow> Time \<Rightarrow> string list \<Rightarrow> dir_entry \<Rightarrow>
    sweep_state \<times> nat \<times> int \<Rightarrow> sweep_state \<times> nat \<times> int" where
  "sweep_entry env dir cutoff referenced e acc =
     (case acc of (st, removed, freed) \<Rightarrow>
        if \<not> d_regular e then acc
        else case d_info e of
          None \<Rightarrow> acc
        | Some (sz, mtime) \<Rightarrow>
            if mtime > cutoff then acc
            else if d_name e \<in> set (map Base referenced) then acc
            else let path = Join_path [dir, d_name e]
              in if path \<in> set referenced then acc
                 else if unlink_err env path then acc
                 else (st\<lparr>sw_files := (sw_files st)(path := None)\<rparr>, Suc removed, freed + sz))"

definition sweepUploads :: "sweep_env \<Rightarrow> Sweeper \<Rightarrow> Time \<Rightarrow> sweep_state \<Rightarrow> sweep_state \<times> nat \<times> int" where
  "sweepUploads env s now st =
     (if uploadDir s = '''' \<or> uploadGrace s \<le> 0 then (st, 0, 0)
      else case read_dir env of
        None \<Rightarrow> (st, 0, 0)
      | Some entries \<Rightarrow>
          if paths_err env then (st, 0, 0)
          else fold (sweep_entry env (realDir env (uploadDir s)) (now - uploadGrace s) (InputPaths (sw_store st)))
                 entries (st, 0, 0))"

text \<open>
  \<open>SweepOnce\<close>: the state after it and the number of jobs deleted. \<open>now\<close> is the clock at the
  query, \<open>later\<close> the clock at the upload pass.
\<close>

definition SweepOnce :: "sweep_env \<Rightarrow> Sweeper \<Rightarrow> Time \<Rightarrow> Time \<Rightarrow> sweep_state \<Rightarrow>
    sweep_state \<times> (store_error, nat) result" where
  "SweepOnce env s now later st =
     (if expired_err env then (st, Inl ErrUnavailable)
      else let (st, deleted, freed) = fold (sweep_job env) (Expired (sw_store st) now) (st, 0, 0);
               (st, uploads, bytes) = sweepUploads env s later st
        in (st, Inr deleted))"

subsection \<open>Frames\<close>

lemma sweep_remove_frame [simp]:
  "sw_store (sweep_remove env p st) = sw_store st" "sw_bus (sweep_remove env p st) = sw_bus st"
  by (simp_all add: sweep_remove_def)

lemma sweep_remove_files:
  "sw_files (sweep_remove env p st) f =
     (if f = p \<and> p \<noteq> '''' \<and> \<not> unlink_err env p then None else sw_files st f)"
  by (simp add: sweep_remove_def)

lemma removeInput_frame [simp]:
  "sw_store (removeInput env j st) = sw_store st" "sw_bus (removeInput env j st) = sw_bus st"
  by (simp_all add: removeInput_def)

definition input_freed :: "sweep_env \<Rightarrow> Store \<Rightarrow> Job \<Rightarrow> bool" where
  "input_freed env s j \<longleftrightarrow> j_InputPath j \<noteq> '''' \<and> \<not> shared_err env (j_ID j) \<and>
     \<not> InputPathShared s (j_InputPath j) (j_ID j) \<and> \<not> unlink_err env (j_InputPath j)"

lemma removeInput_files:
  "sw_files (removeInput env j st) f =
     (if f = j_InputPath j \<and> input_freed env (sw_store st) j then None else sw_files st f)"
  by (auto simp: removeInput_def sweep_remove_files input_freed_def)

definition job_deleted :: "sweep_env \<Rightarrow> Store \<Rightarrow> Job \<Rightarrow> bool" where
  "job_deleted env s j \<longleftrightarrow> \<not> delete_err env (j_ID j) \<and> row_of s (j_ID j) \<noteq> None"

text \<open>One round of the loop, field by field.\<close>

lemma sweep_job_simps:
  "sw_store (fst (sweep_job env j (st, d, fr))) =
     (if job_deleted env (sw_store st) j then delete_row (j_ID j) (sw_store st) else sw_store st)"
  "sw_files (fst (sweep_job env j (st, d, fr))) f =
     (if f = j_InputPath j \<and> input_freed env (sw_store st) j then None
      else if f = j_OutputPath j \<and> f \<noteq> '''' \<and> \<not> unlink_err env f then None else sw_files st f)"
  "fst (snd (sweep_job env j (st, d, fr))) = (if job_deleted env (sw_store st) j then Suc d else d)"
  by (auto simp: sweep_job_def Let_def job_deleted_def Delete_def removeInput_files sweep_remove_files
      split: sum.splits)

subsection \<open>The upload pass\<close>

definition orphan :: "sweep_env \<Rightarrow> string \<Rightarrow> Time \<Rightarrow> string list \<Rightarrow> dir_entry \<Rightarrow> bool" where
  "orphan env dir cutoff referenced e \<longleftrightarrow>
     d_regular e \<and> (\<exists>sz m. d_info e = Some (sz, m) \<and> m \<le> cutoff) \<and>
     d_name e \<notin> Base ` set referenced \<and> Join_path [dir, d_name e] \<notin> set referenced \<and>
     \<not> unlink_err env (Join_path [dir, d_name e])"

definition entry_size :: "dir_entry \<Rightarrow> int" where
  "entry_size e = (case d_info e of Some (sz, m) \<Rightarrow> sz | None \<Rightarrow> 0)"

definition unlink_all :: "string set \<Rightarrow> sweep_state \<Rightarrow> sweep_state" where
  "unlink_all P st = st\<lparr>sw_files := (\<lambda>f. if f \<in> P then None else sw_files st f)\<rparr>"

lemma unlink_all_simps [simp]:
  "sw_store (unlink_all P st) = sw_store st" "sw_bus (unlink_all P st) = sw_bus st"
  "sw_files (unlink_all P st) f = (if f \<in> P then None else sw_files st f)"
  "unlink_all {} st = st"
  by (simp_all add: unlink_all_def)

lemma unlink_all_twice: "unlink_all P (unlink_all Q st) = unlink_all (P \<union> Q) st"
  by (simp add: unlink_all_def) (rule sweep_state.equality; auto)

lemma sweep_entry_eq:
  "sweep_entry env dir cutoff refd e (st, n, b) =
     (if orphan env dir cutoff refd e
      then (unlink_all {Join_path [dir, d_name e]} st, Suc n, b + entry_size e) else (st, n, b))"
proof (cases "d_info e")
  case None
  then show ?thesis by (simp add: sweep_entry_def orphan_def)
next
  case (Some p)
  obtain sz m where "p = (sz, m)" by fastforce
  with Some show ?thesis
    by (auto simp: sweep_entry_def orphan_def entry_size_def Let_def unlink_all_def fun_eq_iff)
qed

lemma sweep_entries_eq:
  "fold (sweep_entry env dir cutoff refd) es (st, n, b) =
     (let os = filter (orphan env dir cutoff refd) es
      in (unlink_all ((\<lambda>e. Join_path [dir, d_name e]) ` set os) st, n + length os, b + sum_list (map entry_size os)))"
  by (induction es arbitrary: st n b) (auto simp: sweep_entry_eq Let_def unlink_all_twice)

definition upload_gc :: "sweep_env \<Rightarrow> Sweeper \<Rightarrow> Time \<Rightarrow> Store \<Rightarrow> dir_entry list" where
  "upload_gc env s now rows =
     (if uploadDir s = '''' \<or> uploadGrace s \<le> 0 \<or> paths_err env then []
      else filter (orphan env (realDir env (uploadDir s)) (now - uploadGrace s) (InputPaths rows))
             (case read_dir env of None \<Rightarrow> [] | Some es \<Rightarrow> es))"

definition gc_paths :: "sweep_env \<Rightarrow> Sweeper \<Rightarrow> Time \<Rightarrow> Store \<Rightarrow> string set" where
  "gc_paths env s now rows =
     (\<lambda>e. Join_path [realDir env (uploadDir s), d_name e]) ` set (upload_gc env s now rows)"

lemma sweepUploads_eq:
  "sweepUploads env s now st =
     (let os = upload_gc env s now (sw_store st)
      in (unlink_all (gc_paths env s now (sw_store st)) st, length os, sum_list (map entry_size os)))"
  by (auto simp: sweepUploads_def sweep_entries_eq upload_gc_def gc_paths_def Let_def split: option.splits)

lemma gc_paths_unreferenced: "f \<in> r_input_path ` set rows \<Longrightarrow> f \<noteq> '''' \<Longrightarrow> f \<notin> gc_paths env s now rows"
proof
  assume f: "f \<in> r_input_path ` set rows" "f \<noteq> ''''" and "f \<in> gc_paths env s now rows"
  then obtain e c where "orphan env (realDir env (uploadDir s)) c (InputPaths rows) e"
    "f = Join_path [realDir env (uploadDir s), d_name e]"
    by (auto simp: gc_paths_def upload_gc_def split: if_splits)
  then have "f \<notin> set (InputPaths rows)" by (simp add: orphan_def)
  with f show False by (simp add: InputPaths_set)
qed

subsection \<open>The job pass\<close>

abbreviation sweep_jobs :: "sweep_env \<Rightarrow> Job list \<Rightarrow> sweep_state \<times> nat \<times> int \<Rightarrow> sweep_state \<times> nat \<times> int" where
  "sweep_jobs env js acc \<equiv> fold (sweep_job env) js acc"

definition swept :: "sweep_env \<Rightarrow> Job list \<Rightarrow> job_row \<Rightarrow> bool" where
  "swept env js r \<longleftrightarrow> r_id r \<in> j_ID ` set js \<and> \<not> delete_err env (r_id r)"

lemma delete_row_filter: "delete_row i s = filter (\<lambda>r. r_id r \<noteq> i) s"
  by (simp add: delete_row_def sql_delete_def)

lemma sweep_job_store:
  "sw_store (fst (sweep_job env j (st, d, fr))) = filter (\<lambda>r. \<not> swept env [j] r) (sw_store st)"
proof (cases "job_deleted env (sw_store st) j")
  case True
  then show ?thesis
    by (auto simp: sweep_job_simps delete_row_filter swept_def job_deleted_def intro!: filter_cong)
next
  case False
  then have "filter (\<lambda>r. \<not> swept env [j] r) (sw_store st) = sw_store st"
    by (force simp: filter_id_conv swept_def job_deleted_def row_of_None)
  with False show ?thesis by (simp add: sweep_job_simps)
qed

lemma sweep_jobs_store:
  "sw_store (fst (sweep_jobs env js acc)) = filter (\<lambda>r. \<not> swept env js r) (sw_store (fst acc))"
proof (induction js arbitrary: acc)
  case Nil
  then show ?case by (simp add: swept_def)
next
  case (Cons j js)
  obtain st d fr where acc: "acc = (st, d, fr)" by (cases acc) auto
  show ?case by (auto simp: acc Cons.IH sweep_job_store filter_filter swept_def intro!: filter_cong)
qed

lemma length_delete_row:
  "store_ok s \<Longrightarrow> row_of s i \<noteq> None \<Longrightarrow> length s = Suc (length (delete_row i s))"
proof -
  assume ok: "store_ok s" and "row_of s i \<noteq> None"
  then have "i \<in> set (map r_id s)" by (auto simp: row_of_None)
  moreover have "map r_id (delete_row i s) = filter (\<lambda>k. k \<noteq> i) (map r_id s)"
    by (simp add: delete_row_filter filter_map comp_def)
  moreover have "distinct (map r_id s)" using ok by (simp add: store_ok_def sql_keyed_def)
  then have "remove1 i (map r_id s) = filter (\<lambda>k. k \<noteq> i) (map r_id s)"
    by (simp add: distinct_remove1_removeAll removeAll_filter_not_eq [of i] neq_commute [of i])
  ultimately have "length (delete_row i s) = length (remove1 i (map r_id s))" by (metis length_map)
  moreover have "0 < length s" using \<open>i \<in> set (map r_id s)\<close> by auto
  ultimately show ?thesis using \<open>i \<in> set (map r_id s)\<close> by (simp only: length_remove1 length_map if_True)
qed

text \<open>The counter is the number of rows that went away.\<close>

lemma sweep_jobs_count:
  "store_ok (sw_store (fst acc)) \<Longrightarrow>
     length (sw_store (fst acc)) + fst (snd acc) =
     length (sw_store (fst (sweep_jobs env js acc))) + fst (snd (sweep_jobs env js acc))"
proof (induction js arbitrary: acc)
  case (Cons j js)
  obtain st d fr where acc: "acc = (st, d, fr)" by (cases acc) auto
  have one: "length (sw_store st) + d =
      length (sw_store (fst (sweep_job env j acc))) + fst (snd (sweep_job env j acc))"
    using length_delete_row [of "sw_store st" "j_ID j"] Cons.prems
    by (auto simp: acc sweep_job_simps job_deleted_def)
  have "store_ok (sw_store (fst (sweep_job env j acc)))"
    using Cons.prems by (simp add: acc sweep_job_simps)
  from Cons.IH [OF this] one show ?case by (simp add: acc)
qed simp

text \<open>A file some other row needs stays, through the whole pass.\<close>

lemma sweep_jobs_keep:
  assumes "r \<in> set (sw_store (fst acc))" and "r_input_path r = f" and "f \<noteq> ''''"
    and "r_id r \<notin> j_ID ` set js" and "f \<notin> j_OutputPath ` set js"
  shows "sw_files (fst (sweep_jobs env js acc)) f = sw_files (fst acc) f"
  using assms
proof (induction js arbitrary: acc)
  case (Cons j js)
  obtain st d fr where acc: "acc = (st, d, fr)" by (cases acc) auto
  have "InputPathShared (sw_store st) f (j_ID j)"
    using Cons.prems by (auto simp: InputPathShared_iff acc)
  then have "\<not> (f = j_InputPath j \<and> input_freed env (sw_store st) j)" by (auto simp: input_freed_def)
  then have "sw_files (fst (sweep_job env j acc)) f = sw_files (fst acc) f"
    using Cons.prems(5) by (simp add: acc sweep_job_simps del: not_None_eq) blast
  moreover have "r \<in> set (sw_store (fst (sweep_job env j acc)))"
    using Cons.prems by (simp add: acc sweep_job_store swept_def)
  ultimately show ?case using Cons.IH [of "sweep_job env j acc"] Cons.prems by simp
qed simp

text \<open>Only files of the jobs swept are unlinked.\<close>

lemma sweep_jobs_touch:
  "sw_files (fst (sweep_jobs env js acc)) f = sw_files (fst acc) f \<or>
     sw_files (fst (sweep_jobs env js acc)) f = None \<and> f \<in> j_OutputPath ` set js \<union> j_InputPath ` set js"
proof (induction js arbitrary: acc)
  case (Cons j js)
  obtain st d fr where acc: "acc = (st, d, fr)" by (cases acc) auto
  have "sw_files (fst (sweep_job env j acc)) f = sw_files (fst acc) f \<or>
      sw_files (fst (sweep_job env j acc)) f = None \<and> (f = j_OutputPath j \<or> f = j_InputPath j)"
    by (simp add: acc sweep_job_simps)
  then show ?case using Cons.IH [of "sweep_job env j acc"] by auto
qed simp

text \<open>
  An input whose jobs are all swept goes with the last of them: by then no other row refers to it.
\<close>

lemma sweep_jobs_free:
  assumes "\<And>k. \<not> delete_err env k" and "\<And>k. \<not> shared_err env k" and "\<not> unlink_err env f" and "f \<noteq> ''''"
    and "sw_files (fst acc) f = None \<or> (\<exists>r \<in> set (sw_store (fst acc)). r_input_path r = f)"
    and "\<And>r. r \<in> set (sw_store (fst acc)) \<Longrightarrow> r_input_path r = f \<Longrightarrow> r_id r \<in> j_ID ` set js"
    and "\<And>r j. r \<in> set (sw_store (fst acc)) \<Longrightarrow> j \<in> set js \<Longrightarrow> r_id r = j_ID j \<Longrightarrow> r_input_path r = j_InputPath j"
  shows "sw_files (fst (sweep_jobs env js acc)) f = None"
  using assms(5-7)
proof (induction js arbitrary: acc)
  case (Cons j js)
  obtain st d fr where acc: "acc = (st, d, fr)" by (cases acc) auto
  let ?st = "fst (sweep_job env j acc)"
  have store: "set (sw_store ?st) = {r \<in> set (sw_store st). r_id r \<noteq> j_ID j}"
    using assms(1) by (auto simp: acc sweep_job_store swept_def)
  have "sw_files ?st f = None \<or> (\<exists>r \<in> set (sw_store ?st). r_input_path r = f)"
  proof (cases "\<exists>r \<in> set (sw_store st). r_input_path r = f \<and> r_id r \<noteq> j_ID j")
    case True
    then show ?thesis unfolding store by blast
  next
    case False
    then have alone: "\<not> InputPathShared (sw_store st) f (j_ID j)" by (auto simp: InputPathShared_iff)
    from Cons.prems(1) consider "sw_files st f = None" | r where "r \<in> set (sw_store st)" "r_input_path r = f"
      by (auto simp: acc)
    then show ?thesis
    proof cases
      case 1
      then show ?thesis by (simp add: acc sweep_job_simps)
    next
      case (2 r)
      with False have "r_id r = j_ID j" by blast
      with 2 Cons.prems(3) [of r j] have "j_InputPath j = f" by (simp add: acc)
      with alone assms(2-4) have "input_freed env (sw_store st) j" by (simp add: input_freed_def)
      with \<open>j_InputPath j = f\<close> show ?thesis by (simp add: acc sweep_job_simps)
    qed
  qed
  moreover have "r_id r \<in> j_ID ` set js" if "r \<in> set (sw_store ?st)" "r_input_path r = f" for r
  proof -
    from that(1) store have "r \<in> set (sw_store st)" "r_id r \<noteq> j_ID j" by auto
    with Cons.prems(2) [of r] that(2) show ?thesis by (simp add: acc)
  qed
  moreover have "r_input_path r = j_InputPath k" if "r \<in> set (sw_store ?st)" "k \<in> set js" "r_id r = j_ID k" for r k
  proof -
    from that(1) store have "r \<in> set (sw_store st)" by auto
    with Cons.prems(3) [of r k] that(2,3) show ?thesis by (simp add: acc)
  qed
  ultimately show ?case using Cons.IH [of "sweep_job env j acc"] by simp
qed auto

subsection \<open>A whole sweep\<close>

lemma SweepOnce_eq:
  assumes "\<not> expired_err env"
  shows "SweepOnce env s now later st =
    (let acc = sweep_jobs env (Expired (sw_store st) now) (st, 0, 0)
     in (fst (sweepUploads env s later (fst acc)), Inr (fst (snd acc))))"
  using assms by (simp add: SweepOnce_def Let_def split: prod.splits)

lemma swept_expired:
  assumes "store_ok s" and "r \<in> set s"
  shows "swept env (Expired s now) r \<longleftrightarrow> row_expired now r \<and> \<not> delete_err env (r_id r)"
proof -
  have "r_id r \<in> j_ID ` set (Expired s now) \<longleftrightarrow> (\<exists>r' \<in> set s. row_expired now r' \<and> r_id r' = r_id r)"
    by (auto simp: Expired_def image_image intro: rev_image_eqI)
  also have "\<dots> \<longleftrightarrow> row_expired now r"
    using assms distinct_map_filter_mem [of r_id s] by (auto simp: store_ok_def sql_keyed_def)
  finally show ?thesis by (simp add: swept_def)
qed

text \<open>A table with one job past its expiry and a live one, both made from one upload.\<close>

definition demo_rows :: Store where
  "demo_rows =
     [row_of_job ((new_job TypeImage)\<lparr>j_ID := ''a'', j_InputPath := ''/u/x'', j_OutputPath := ''/o/a'',
        j_Status := StatusDone, j_ExpiresAt := Some 1000000\<rparr>),
      row_of_job ((new_job TypeImage)\<lparr>j_ID := ''b'', j_InputPath := ''/u/x'', j_OutputPath := ''/o/b'',
        j_Status := StatusDone, j_ExpiresAt := Some 9000000\<rparr>)]"

definition demo_env :: sweep_env where
  "demo_env = \<lparr>unlink_err = (\<lambda>_. False), expired_err = False, shared_err = (\<lambda>_. False),
     delete_err = (\<lambda>_. False), paths_err = False,
     read_dir = Some [\<lparr>d_name = ''x'', d_regular = True, d_info = Some (5, 0)\<rparr>,
       \<lparr>d_name = ''y'', d_regular = True, d_info = Some (7, 0)\<rparr>],
     abs_path = Some, eval_links = Some\<rparr>"

definition demo_state :: sweep_state where
  "demo_state = \<lparr>sw_store = demo_rows, sw_bus = None, sw_files = (\<lambda>f. Some 1)\<rparr>"

definition demo_sweeper :: Sweeper where
  "demo_sweeper = WithUploadGC ''/u'' 1000 (NewSweeper 0)"

text \<open>
  C17. A sweep removes exactly the rows that have expired, save those the database refuses to
  delete, keeps the others as they are and in order, and reports the number it removed.
\<close>
theorem sweep_removes_expired:
  assumes "store_ok (sw_store st)" and "SweepOnce env s now later st = (st', Inr n)"
  shows "sw_store st' = filter (\<lambda>r. \<not> row_expired now r \<or> delete_err env (r_id r)) (sw_store st) \<and>
    length (sw_store st) = length (sw_store st') + n"
proof -
  have ok: "\<not> expired_err env" using assms(2) by (auto simp: SweepOnce_def)
  let ?acc = "sweep_jobs env (Expired (sw_store st) now) (st, 0, 0)"
  have st': "sw_store st' = sw_store (fst ?acc)" and n: "n = fst (snd ?acc)"
    using assms(2) by (auto simp: SweepOnce_eq [OF ok] sweepUploads_eq Let_def)
  have "sw_store (fst ?acc) = filter (\<lambda>r. \<not> row_expired now r \<or> delete_err env (r_id r)) (sw_store st)"
    unfolding sweep_jobs_store using swept_expired [OF assms(1)] by (auto intro!: filter_cong)
  then show ?thesis
    using sweep_jobs_count [of "(st, 0, 0)" env "Expired (sw_store st) now"] assms(1) by (simp add: st' n)
qed

lemma sweep_removes_expired_witness:
  "map r_id (sw_store (fst (SweepOnce demo_env demo_sweeper 5000000 5000000 demo_state))) = [''b'']"
proof -
  have "store_ok (sw_store demo_state)" by code_simp
  moreover have "SweepOnce demo_env demo_sweeper 5000000 5000000 demo_state =
      (fst (SweepOnce demo_env demo_sweeper 5000000 5000000 demo_state), Inr 1)"
    by (rule prod_eqI) (simp, code_simp)
  ultimately have "sw_store (fst (SweepOnce demo_env demo_sweeper 5000000 5000000 demo_state)) =
      filter (\<lambda>r. \<not> row_expired 5000000 r \<or> delete_err demo_env (r_id r)) (sw_store demo_state)"
    using sweep_removes_expired by blast
  also have "map r_id \<dots> = [''b'']" by code_simp
  finally show ?thesis .
qed

text \<open>
  C9. A sweep never unlinks a file a live job still needs: the input of a row that has not
  expired survives, whatever fails on the way and whether or not other jobs were made from it,
  unless an expired job names that very path as its output.
\<close>
theorem sweep_keeps_live_inputs:
  assumes "store_ok (sw_store st)" and "r \<in> set (sw_store st)" and "\<not> row_expired now r"
    and "r_input_path r \<noteq> ''''" and "r_input_path r \<notin> r_output_path ` {x \<in> set (sw_store st). row_expired now x}"
  shows "sw_files (fst (SweepOnce env s now later st)) (r_input_path r) = sw_files st (r_input_path r)"
proof (cases "expired_err env")
  case True
  then show ?thesis by (simp add: SweepOnce_def)
next
  case False
  let ?js = "Expired (sw_store st) now"
  let ?acc = "sweep_jobs env ?js (st, 0, 0)"
  have id: "r_id r \<notin> j_ID ` set ?js"
  proof
    assume "r_id r \<in> j_ID ` set ?js"
    then obtain x where "x \<in> set (sw_store st)" "row_expired now x" "r_id x = r_id r" by (auto simp: Expired_def)
    with assms(1-3) show False
      using distinct_map_filter_mem [of r_id "sw_store st" x r] by (auto simp: store_ok_def sql_keyed_def)
  qed
  have "r_input_path r \<notin> j_OutputPath ` set ?js" using assms(5) by (force simp: Expired_def)
  with id assms(2,4) have "sw_files (fst ?acc) (r_input_path r) = sw_files st (r_input_path r)"
    using sweep_jobs_keep [of r "(st, 0, 0)"] by simp
  moreover have "r \<in> set (sw_store (fst ?acc))" using assms(2) id by (simp add: sweep_jobs_store swept_def)
  then have "r_input_path r \<notin> gc_paths env s later (sw_store (fst ?acc))"
    using assms(4) by (intro gc_paths_unreferenced) auto
  ultimately show ?thesis by (simp add: SweepOnce_eq [OF False] sweepUploads_eq Let_def)
qed

lemma sweep_keeps_live_inputs_witness:
  "sw_files (fst (SweepOnce demo_env demo_sweeper 5000000 5000000 demo_state)) ''/u/x'' = Some 1"
proof -
  let ?r = "demo_rows ! 1"
  have "store_ok (sw_store demo_state)" "?r \<in> set (sw_store demo_state)" "\<not> row_expired 5000000 ?r"
    "r_input_path ?r = ''/u/x''" "r_input_path ?r \<notin> r_output_path ` {x \<in> set (sw_store demo_state). row_expired 5000000 x}"
    "sw_files demo_state ''/u/x'' = Some 1"
    by code_simp+
  then show ?thesis using sweep_keeps_live_inputs [of demo_state ?r 5000000 demo_env demo_sweeper 5000000] by simp
qed

text \<open>
  Nothing leaks: when all jobs made from an upload have expired and no call fails, the
  upload is gone after the sweep, although each job but the last finds it shared.
\<close>
theorem sweep_frees_shared_input:
  assumes "store_ok (sw_store st)" and "\<not> expired_err env" and "\<And>k. \<not> delete_err env k"
    and "\<And>k. \<not> shared_err env k" and "\<not> unlink_err env f" and "f \<noteq> ''''"
    and "f \<in> r_input_path ` set (sw_store st)"
    and "list_all (\<lambda>r. r_input_path r = f \<longrightarrow> row_expired now r) (sw_store st)"
  shows "sw_files (fst (SweepOnce env s now later st)) f = None"
proof -
  let ?js = "Expired (sw_store st) now"
  have dist: "x = y" if "x \<in> set (sw_store st)" "y \<in> set (sw_store st)" "r_id x = r_id y" for x y
    using assms(1) that distinct_map_filter_mem [of r_id "sw_store st" x y] by (simp add: store_ok_def sql_keyed_def)
  have "sw_files (fst (sweep_jobs env ?js (st, 0, 0))) f = None"
  proof (rule sweep_jobs_free [OF assms(3-6)])
    show "sw_files (fst (st, 0, 0)) f = None \<or> (\<exists>r \<in> set (sw_store (fst (st, 0, 0))). r_input_path r = f)"
      using assms(7) by auto
    show "r_id r \<in> j_ID ` set ?js" if "r \<in> set (sw_store (fst (st, 0, 0)))" "r_input_path r = f" for r
      using that assms(8) by (force simp: Expired_def list_all_iff)
    show "r_input_path r = j_InputPath j"
      if "r \<in> set (sw_store (fst (st, 0, 0)))" "j \<in> set ?js" "r_id r = j_ID j" for r j
      using that dist by (fastforce simp: Expired_mem)
  qed
  then show ?thesis by (simp add: SweepOnce_eq [OF assms(2)] sweepUploads_eq Let_def)
qed

lemma sweep_frees_shared_input_witness:
  "sw_files (fst (SweepOnce demo_env (NewSweeper 0) 9000000 9000000 demo_state)) ''/u/x'' = None"
  by (rule sweep_frees_shared_input) (code_simp | simp add: demo_env_def)+

text \<open>
  The upload pass unlinks a regular file of the upload directory exactly when its age is at
  least the grace, no row's input has its name or its path, and the unlink succeeds; it touches
  no other file and no row, and reports the files and bytes it removed. With collection off, an
  unreadable directory, or an unknown reference set it removes nothing.
\<close>
theorem uploads_collected_exactly:
  shows "sweepUploads env s now st =
    (let os = (if uploadDir s = '''' \<or> uploadGrace s \<le> 0 \<or> paths_err env then []
          else filter (orphan env (realDir env (uploadDir s)) (now - uploadGrace s) (InputPaths (sw_store st)))
            (case read_dir env of None \<Rightarrow> [] | Some es \<Rightarrow> es))
     in (unlink_all ((\<lambda>e. Join_path [realDir env (uploadDir s), d_name e]) ` set os) st,
         length os, sum_list (map entry_size os)))"
  using sweepUploads_eq [of env s now st] by (simp only: upload_gc_def gc_paths_def Let_def)

end
