(* ===== verification/Sessions.thy ===== *)
theory Sessions
  imports JobTypes SqlTable
begin

text \<open>
  Persisted sessions, \<open>internal/auth/sessions.go\<close>: the interface \<open>SessionStore\<close> as the locale
  \<open>session_store\<close>, and its implementation on two SQLite tables, \<open>sessions\<close> and the single row of
  \<open>session_credential\<close>. A statement that fails leaves the tables as they are and is the caller's
  branch; the operations here are the statements that succeed.
\<close>

subsection \<open>The interface\<close>

text \<open>
  \<open>live st now\<close> is the map \<open>Live\<close> returns, \<open>bound st\<close> the recorded credential. Expiry is kept in
  milliseconds, so an expiry comes back rounded down.
\<close>

locale session_store =
  fixes invar :: "'st \<Rightarrow> bool"
    and live :: "'st \<Rightarrow> Time \<Rightarrow> string \<Rightarrow> Time option"
    and bound :: "'st \<Rightarrow> string option"
    and save :: "string \<Rightarrow> Time \<Rightarrow> 'st \<Rightarrow> 'st"
    and delete :: "string \<Rightarrow> 'st \<Rightarrow> 'st"
    and delete_expired :: "Time \<Rightarrow> 'st \<Rightarrow> 'st"
    and rebind :: "string \<Rightarrow> 'st \<Rightarrow> 'st"
  assumes live_save: "invar st \<Longrightarrow> live (save t e st) now =
      (live st now)(t := if UnixMilli e > UnixMilli now then Some (time_of_milli (UnixMilli e)) else None)"
    and live_delete: "invar st \<Longrightarrow> live (delete t st) now = (live st now)(t := None)"
    and live_delete_expired: "invar st \<Longrightarrow> now \<le> later \<Longrightarrow> live (delete_expired now st) later = live st later"
    and live_rebind: "invar st \<Longrightarrow> fp \<noteq> '''' \<Longrightarrow>
      live (rebind fp st) now = (if bound st = Some fp then live st now else Map.empty)"
    and bound_save: "bound (save t e st) = bound st"
    and bound_delete: "bound (delete t st) = bound st"
    and bound_delete_expired: "bound (delete_expired now st) = bound st"
    and bound_rebind: "bound (rebind fp st) = Some fp"
    and live_later: "invar st \<Longrightarrow> now \<le> later \<Longrightarrow> live st later t = Some e \<Longrightarrow> live st now t = Some e"
    and live_expiry: "invar st \<Longrightarrow> live st now t = Some e \<Longrightarrow> UnixMilli now < UnixMilli e"
    and invar_save: "invar st \<Longrightarrow> invar (save t e st)"
    and invar_delete: "invar st \<Longrightarrow> invar (delete t st)"
    and invar_delete_expired: "invar st \<Longrightarrow> invar (delete_expired now st)"
    and invar_rebind: "invar st \<Longrightarrow> invar (rebind fp st)"
begin

text \<open>What the client does at startup: rebind, then adopt the live sessions.\<close>

definition adopt :: "string \<Rightarrow> Time \<Rightarrow> 'st \<Rightarrow> string \<Rightarrow> Time option" where
  "adopt fp now st = live (rebind fp st) now"

lemma adopt_other: "invar st \<Longrightarrow> fp \<noteq> '''' \<Longrightarrow> bound st \<noteq> Some fp \<Longrightarrow> adopt fp now st = Map.empty"
  by (simp add: adopt_def live_rebind)

lemma adopt_same: "invar st \<Longrightarrow> fp \<noteq> '''' \<Longrightarrow> bound st = Some fp \<Longrightarrow> adopt fp now st = live st now"
  by (simp add: adopt_def live_rebind)

text \<open>A saved session is adopted until its expiry, one dropped is not, whatever ran in between at most collects.\<close>

lemma adopt_saved:
  "invar st \<Longrightarrow> fp \<noteq> '''' \<Longrightarrow> bound st = Some fp \<Longrightarrow> later \<le> now \<Longrightarrow> UnixMilli now < UnixMilli e \<Longrightarrow>
     adopt fp now (delete_expired later (save t e st)) t = Some (time_of_milli (UnixMilli e))"
  by (simp add: adopt_same bound_delete_expired bound_save invar_save invar_delete_expired
      live_delete_expired live_save)

lemma adopt_deleted: "invar st \<Longrightarrow> fp \<noteq> '''' \<Longrightarrow> adopt fp now (delete t st) t = None"
  by (simp add: adopt_def live_rebind invar_delete live_delete)

lemma adopt_expiry: "invar st \<Longrightarrow> fp \<noteq> '''' \<Longrightarrow> adopt fp now st t = Some e \<Longrightarrow> UnixMilli now < UnixMilli e"
  by (auto simp: adopt_def live_rebind dest: live_expiry split: if_splits)

end

subsection \<open>The tables\<close>

record session_row =
  s_token :: string
  s_expires_at :: int

record SQLSessionStore =
  ss_sessions :: "session_row list"
  ss_credential :: "string option"

definition sess_row :: "session_row list \<Rightarrow> string \<Rightarrow> session_row option" where
  "sess_row = sql_select s_token"
definition sess_insert :: "session_row \<Rightarrow> session_row list \<Rightarrow> session_row list option" where
  "sess_insert = sql_insert s_token"
definition sess_update :: "string \<Rightarrow> (session_row \<Rightarrow> session_row) \<Rightarrow> session_row list \<Rightarrow> session_row list" where
  "sess_update = sql_update s_token"
definition sess_delete :: "string \<Rightarrow> session_row list \<Rightarrow> session_row list" where
  "sess_delete = sql_delete s_token"
definition sess_ok :: "session_row list \<Rightarrow> bool" where
  "sess_ok = sql_keyed s_token"

interpretation sess: keyed_table s_token sess_ok "[]" sess_row sess_insert sess_update sess_delete
  unfolding sess_ok_def sess_row_def sess_insert_def sess_update_def sess_delete_def
  by (rule list_keyed_table)

definition sessions_ok :: "SQLSessionStore \<Rightarrow> bool" where
  "sessions_ok st \<longleftrightarrow> sess_ok (ss_sessions st)"

text \<open>\<open>INSERT ... ON CONFLICT(token) DO UPDATE SET expires_at = excluded.expires_at\<close>\<close>

definition SaveSession :: "string \<Rightarrow> Time \<Rightarrow> SQLSessionStore \<Rightarrow> SQLSessionStore" where
  "SaveSession token expiry st =
     (let r = \<lparr>s_token = token, s_expires_at = UnixMilli expiry\<rparr>
      in case sess_insert r (ss_sessions st) of
           Some rows \<Rightarrow> st\<lparr>ss_sessions := rows\<rparr>
         | None \<Rightarrow> st\<lparr>ss_sessions := sess_update token (\<lambda>q. q\<lparr>s_expires_at := s_expires_at r\<rparr>) (ss_sessions st)\<rparr>)"

definition DeleteSession :: "string \<Rightarrow> SQLSessionStore \<Rightarrow> SQLSessionStore" where
  "DeleteSession token st = st\<lparr>ss_sessions := sess_delete token (ss_sessions st)\<rparr>"

definition DeleteExpired :: "Time \<Rightarrow> SQLSessionStore \<Rightarrow> SQLSessionStore" where
  "DeleteExpired now st =
     st\<lparr>ss_sessions := sql_delete_where (\<lambda>r. s_expires_at r \<le> UnixMilli now) (ss_sessions st)\<rparr>"

text \<open>
  \<open>Rebind\<close>: an unset credential reads as the empty string; the comparison is with that string,
  and the row is upserted in every case.
\<close>

definition Rebind :: "string \<Rightarrow> SQLSessionStore \<Rightarrow> SQLSessionStore" where
  "Rebind fingerprint st =
     (let stored = (case ss_credential st of None \<Rightarrow> '''' | Some f \<Rightarrow> f);
          st = (if stored \<noteq> fingerprint then st\<lparr>ss_sessions := []\<rparr> else st)
      in st\<lparr>ss_credential := Some fingerprint\<rparr>)"

definition live_rows :: "SQLSessionStore \<Rightarrow> Time \<Rightarrow> session_row list" where
  "live_rows st now = filter (\<lambda>r. s_expires_at r > UnixMilli now) (ss_sessions st)"

text \<open>The Go map \<open>Live\<close> builds, row by row.\<close>

definition Live :: "SQLSessionStore \<Rightarrow> Time \<Rightarrow> (string \<times> Time) list" where
  "Live st now = fold (\<lambda>r out. put (s_token r) (time_of_milli (s_expires_at r)) out) (live_rows st now) []"

subsection \<open>The tables implement the interface\<close>

lemma sess_row_filter:
  "sess_ok rows \<Longrightarrow> sess_row (filter P rows) t =
     (case sess_row rows t of Some r \<Rightarrow> if P r then Some r else None | None \<Rightarrow> None)"
proof -
  assume ok: "sess_ok rows"
  then have ok': "sess_ok (filter P rows)" by (simp add: sess_ok_def sql_keyed_filter)
  have "sess_row (filter P rows) t = Some r \<longleftrightarrow> r \<in> set rows \<and> P r \<and> s_token r = t" for r
    using ok' by (auto simp: sess_row_def sess_ok_def sql_select_distinct)
  moreover have "sess_row rows t = Some r \<longleftrightarrow> r \<in> set rows \<and> s_token r = t" for r
    using ok by (auto simp: sess_row_def sess_ok_def sql_select_distinct)
  ultimately have eq: "sess_row (filter P rows) t = Some r \<longleftrightarrow> sess_row rows t = Some r \<and> P r" for r by blast
  show ?thesis
  proof (cases "sess_row rows t")
    case None
    with eq have "\<nexists>r. sess_row (filter P rows) t = Some r" by simp
    with None show ?thesis by simp
  next
    case (Some r)
    show ?thesis
    proof (cases "P r")
      case True
      with Some eq [of r] show ?thesis by simp
    next
      case False
      with eq Some have "\<nexists>r'. sess_row (filter P rows) t = Some r'" by auto
      with Some False show ?thesis by simp
    qed
  qed
qed

lemma map_of_put_rows:
  "map_of (fold (\<lambda>r out. put (s_token r) (time_of_milli (s_expires_at r)) out) rows m) t =
     (case find (\<lambda>r. s_token r = t) (rev rows) of Some r \<Rightarrow> Some (time_of_milli (s_expires_at r)) | None \<Rightarrow> map_of m t)"
  by (induction rows rule: rev_induct) (auto simp: map_of_put split: option.splits)

lemma find_rev_distinct: "sess_ok rows \<Longrightarrow> find (\<lambda>r. s_token r = t) (rev rows) = sess_row rows t"
proof -
  assume ok: "sess_ok rows"
  then have "sess_ok (rev rows)" by (simp add: sess_ok_def sql_keyed_def rev_map [symmetric])
  with ok have "find (\<lambda>r. s_token r = t) (rev rows) = Some r \<longleftrightarrow> sess_row rows t = Some r" for r
    by (simp add: sess_ok_def sess_row_def sql_select_distinct sql_select_def [symmetric])
  then show ?thesis by (metis not_None_eq)
qed

lemma map_of_Live:
  assumes "sessions_ok st"
  shows "map_of (Live st now) t = (case sess_row (ss_sessions st) t of
     Some r \<Rightarrow> if s_expires_at r > UnixMilli now then Some (time_of_milli (s_expires_at r)) else None
   | None \<Rightarrow> None)"
proof -
  have ok: "sess_ok (live_rows st now)" using assms by (simp add: sessions_ok_def live_rows_def sess_ok_def sql_keyed_filter)
  have "map_of (Live st now) t = map_option (\<lambda>r. time_of_milli (s_expires_at r)) (sess_row (live_rows st now) t)"
    by (simp add: Live_def map_of_put_rows find_rev_distinct [OF ok] split: option.splits)
  then show ?thesis
    using assms by (simp add: live_rows_def sess_row_filter sessions_ok_def split: option.splits)
qed

lemma distinct_keys_Live [simp]: "distinct_keys (Live st now)"
proof -
  have "distinct_keys m \<Longrightarrow> distinct_keys (fold (\<lambda>r out. put (s_token r) (time_of_milli (s_expires_at r)) out) rows m)"
    for rows m by (induction rows arbitrary: m) auto
  from this [of "[]"] show ?thesis by (simp add: Live_def distinct_keys_def)
qed

lemma sess_row_Save:
  "sess_row (ss_sessions (SaveSession t e st)) =
     (sess_row (ss_sessions st))(t \<mapsto> \<lparr>s_token = t, s_expires_at = UnixMilli e\<rparr>)"
proof (cases "sess_insert \<lparr>s_token = t, s_expires_at = UnixMilli e\<rparr> (ss_sessions st)")
  case (Some rows)
  then show ?thesis by (simp add: SaveSession_def sess.ins_Some)
next
  case None
  then obtain q where q: "sess_row (ss_sessions st) t = Some q" by (auto simp: sess.ins_None)
  then have "s_token q = t" by (rule sess.sel_key)
  then have "q\<lparr>s_expires_at := UnixMilli e\<rparr> = \<lparr>s_token = t, s_expires_at = UnixMilli e\<rparr>" by simp
  with None q show ?thesis by (simp add: SaveSession_def sess.sel_upd)
qed

lemma sessions_ok_Save: "sessions_ok st \<Longrightarrow> sessions_ok (SaveSession t e st)"
  by (auto simp: sessions_ok_def SaveSession_def Let_def intro: sess.invar_ins sess.invar_upd split: option.splits)

lemma sessions_ok_filter: "sess_ok rows \<Longrightarrow> sess_ok (filter P rows)"
  by (simp add: sess_ok_def sql_keyed_filter)

lemma ss_credential_ops [simp]:
  "ss_credential (SaveSession t e st) = ss_credential st"
  "ss_credential (DeleteSession t st) = ss_credential st"
  "ss_credential (DeleteExpired now st) = ss_credential st"
  "ss_credential (Rebind fp st) = Some fp"
  by (simp_all add: SaveSession_def DeleteSession_def DeleteExpired_def Rebind_def Let_def split: option.splits)

lemma Rebind_sessions:
  "fp \<noteq> '''' \<Longrightarrow> ss_sessions (Rebind fp st) = (if ss_credential st = Some fp then ss_sessions st else [])"
  by (auto simp: Rebind_def Let_def split: option.splits)

definition live_map :: "SQLSessionStore \<Rightarrow> Time \<Rightarrow> string \<Rightarrow> Time option" where
  "live_map st now = map_of (Live st now)"

lemma sess_row_delete [simp]: "sess_row (sess_delete t rows) = (sess_row rows)(t := None)"
  by (rule sess.sel_del)

lemma sessions_ok_ops:
  "sessions_ok st \<Longrightarrow> sessions_ok (DeleteSession t st)"
  "sessions_ok st \<Longrightarrow> sessions_ok (DeleteExpired now st)"
  "sessions_ok st \<Longrightarrow> sessions_ok (Rebind fp st)"
  by (auto simp: sessions_ok_def DeleteSession_def DeleteExpired_def Rebind_def sql_delete_where_def Let_def
      sess.invar_empty intro: sess.invar_del sessions_ok_filter)

interpretation sq: session_store sessions_ok live_map ss_credential SaveSession DeleteSession DeleteExpired Rebind
proof (unfold_locales, goal_cases)
  case (1 st t e now)
  then show ?case by (auto simp: live_map_def map_of_Live sessions_ok_Save sess_row_Save)
next
  case (2 st t now)
  then show ?case
    by (auto simp: live_map_def map_of_Live sessions_ok_ops fun_eq_iff) (simp_all add: DeleteSession_def)
next
  case (3 st now later)
  then have ok: "sess_ok (ss_sessions st)" by (simp add: sessions_ok_def)
  have "UnixMilli now \<le> UnixMilli later" using 3(2) by (rule UnixMilli_mono)
  with 3(1) show ?case
    by (auto simp: live_map_def map_of_Live sessions_ok_ops fun_eq_iff DeleteExpired_def sql_delete_where_def
        sess_row_filter [OF ok] sessions_ok_def sessions_ok_filter split: option.splits)
next
  case (4 st fp now)
  then show ?case
    by (auto simp: live_map_def map_of_Live sessions_ok_ops fun_eq_iff Rebind_sessions sess.sel_empty split: option.splits)
next
  case (9 st now later t e)
  then have "UnixMilli now \<le> UnixMilli later" by (intro UnixMilli_mono)
  with 9 show ?case by (auto simp: live_map_def map_of_Live split: option.splits if_splits)
next
  case (10 st now t e)
  then show ?case by (auto simp: live_map_def map_of_Live split: option.splits if_splits)
qed (simp_all add: sessions_ok_Save sessions_ok_ops)

end
