(* ===== verification/GoScan.thy ===== *)
theory GoScan
  imports GoString
begin

text \<open>
  What the password code uses of the standard library's text decoding: \<open>fmt.Sscanf\<close> with literal
  text and the verb \<open>%d\<close>, and the unpadded standard base64 of \<open>encoding/base64\<close>.
\<close>

subsection \<open>Sscanf\<close>

text \<open>
  A format is literal text and \<open>%d\<close> verbs; a verb carries the type of its target: \<open>int\<close>, or an
  unsigned integer of that many bits.
\<close>

datatype scan_verb = Lit string | VerbInt | VerbUint nat

text \<open>\<open>SkipSpace\<close>: a newline is an error.\<close>

definition skip_space :: "string \<Rightarrow> string option" where
  "skip_space s =
     (let r = trim_words (filter (\<lambda>w. w \<noteq> [CHR 0x0A]) space_runes) s
      in if r \<noteq> [] \<and> hd r = CHR 0x0A then None else Some r)"

text \<open>The longest run of digits, which must not be empty, and what follows it.\<close>

definition scan_number :: "string \<Rightarrow> (nat \<times> string) option" where
  "scan_number s = (case parse_unsigned (takeWhile is_digit s) of
      None \<Rightarrow> None | Some n \<Rightarrow> Some (n, dropWhile is_digit s))"

fun scan_item :: "scan_verb \<Rightarrow> string \<Rightarrow> (int list \<times> string) option" where
  "scan_item (Lit l) s = (if HasPrefix s l then Some ([], drop (length l) s) else None)"
| "scan_item VerbInt s = (case skip_space s of None \<Rightarrow> None | Some s \<Rightarrow>
     let neg = (s \<noteq> [] \<and> hd s = CHR ''-'');
         s = (if s \<noteq> [] \<and> (hd s = CHR ''-'' \<or> hd s = CHR ''+'') then tl s else s)
     in case scan_number s of None \<Rightarrow> None | Some (n, rest) \<Rightarrow>
          let v = (if neg then - int n else int n)
          in if int64_min \<le> v \<and> v \<le> int64_max then Some ([v], rest) else None)"
| "scan_item (VerbUint bits) s = (case skip_space s of None \<Rightarrow> None | Some s \<Rightarrow>
     (case scan_number s of None \<Rightarrow> None | Some (n, rest) \<Rightarrow>
        if n < 2 ^ 64 \<and> n < 2 ^ bits then Some ([int n], rest) else None))"

text \<open>All targets filled: their values. Text left over in the input is no error.\<close>

fun Sscanf :: "scan_verb list \<Rightarrow> string \<Rightarrow> int list option" where
  "Sscanf [] s = Some []"
| "Sscanf (i # is) s = (case scan_item i s of None \<Rightarrow> None | Some (vs, rest) \<Rightarrow> map_option ((@) vs) (Sscanf is rest))"

lemma takeWhile_itoa:
  assumes "rest = [] \<or> \<not> is_digit (hd rest)"
  shows "takeWhile is_digit (itoa_nat n @ rest) = itoa_nat n" "dropWhile is_digit (itoa_nat n @ rest) = rest"
  using assms itoa_nat_digits [of _ n] by (cases rest; simp)+

lemma scan_number_itoa:
  "rest = [] \<or> \<not> is_digit (hd rest) \<Longrightarrow> scan_number (itoa_nat n @ rest) = Some (n, rest)"
  by (simp add: scan_number_def takeWhile_itoa parse_unsigned_def digits_val_itoa_nat)

text \<open>No space starts with a digit.\<close>

lemma space_runes_digit: "w \<in> set space_runes \<Longrightarrow> is_digit c \<Longrightarrow> w \<noteq> [] \<Longrightarrow> hd w \<noteq> c"
proof -
  assume w: "w \<in> set space_runes" and c: "is_digit c" "w \<noteq> []"
  have "list_all (\<lambda>w. \<not> is_digit (hd w)) space_runes" by code_simp
  with w c show ?thesis by (auto simp: list_all_iff)
qed

lemma skip_space_digit:
  assumes "s \<noteq> []" and "is_digit (hd s)"
  shows "skip_space s = Some s"
proof -
  have "\<not> (w \<noteq> [] \<and> HasPrefix s w)" if "w \<in> set space_runes" for w
    using space_runes_digit [OF that assms(2)] assms(1) by (cases s; cases w) (auto simp: HasPrefix_def)
  then have "find (\<lambda>w. w \<noteq> [] \<and> HasPrefix s w) (filter (\<lambda>w. w \<noteq> [CHR 0x0A]) space_runes) = None"
    by (auto simp: find_None_iff)
  then have "trim_words (filter (\<lambda>w. w \<noteq> [CHR 0x0A]) space_runes) s = s"
    by (subst trim_words.simps) simp
  moreover have "hd s \<noteq> CHR 0x0A" using assms(2) by (auto simp: is_digit_def byte_def)
  ultimately show ?thesis by (simp add: skip_space_def)
qed

lemma scan_uint_itoa [bytes_simps]:
  assumes "n < 2 ^ bits" and "bits \<le> 64" and "rest = [] \<or> \<not> is_digit (hd rest)"
  shows "scan_item (VerbUint bits) (itoa_nat n @ rest) = Some ([int n], rest)"
proof -
  have "n < 2 ^ 64" using assms(1,2) by (meson less_le_trans one_le_numeral power_increasing)
  with assms show ?thesis
    using skip_space_digit [of "itoa_nat n @ rest"] hd_itoa_nat [of n] scan_number_itoa [of rest n] by simp
qed

lemma scan_int_itoa [bytes_simps]:
  assumes "n < 2 ^ 63" and "rest = [] \<or> \<not> is_digit (hd rest)"
  shows "scan_item VerbInt (itoa_nat n @ rest) = Some ([int n], rest)"
proof -
  have "hd (itoa_nat n) \<noteq> CHR ''-''" "hd (itoa_nat n) \<noteq> CHR ''+''"
    using hd_itoa_nat [of n] not_digit_sign by metis+
  moreover have "int64_min \<le> int n" "int n \<le> int64_max"
    using assms(1) by (auto simp: int64_min_def int64_max_def)
  ultimately show ?thesis
    using assms skip_space_digit [of "itoa_nat n @ rest"] hd_itoa_nat [of n] scan_number_itoa [of rest n]
    by (simp add: Let_def)
qed

lemma scan_lit [bytes_simps]: "scan_item (Lit l) (l @ rest) = Some ([], rest)"
  by (simp add: HasPrefix_def)

declare scan_item.simps [simp del]

subsection \<open>Base64\<close>

definition b64_alphabet :: string where
  "b64_alphabet = ''ABCDEFGHIJKLMNOPQRSTUVWXYZabcdefghijklmnopqrstuvwxyz0123456789+/''"

definition b64_char :: "nat \<Rightarrow> char" where
  "b64_char n = b64_alphabet ! n"

definition b64_val :: "char \<Rightarrow> nat option" where
  "b64_val c = IndexByte b64_alphabet c"

fun b64_encode :: "string \<Rightarrow> string" where
  "b64_encode [] = []"
| "b64_encode [a] = (let n = byte a * 16 in [b64_char (n div 64), b64_char (n mod 64)])"
| "b64_encode [a, b] = (let n = (byte a * 256 + byte b) * 4
     in [b64_char (n div 4096), b64_char (n div 64 mod 64), b64_char (n mod 64)])"
| "b64_encode (a # b # c # s) = (let n = byte a * 65536 + byte b * 256 + byte c
     in b64_char (n div 262144) # b64_char (n div 4096 mod 64) # b64_char (n div 64 mod 64) # b64_char (n mod 64) #
        b64_encode s)"

text \<open>Groups of four sextets; a last group of two or three, never of one. Left-over bits are ignored.\<close>

fun b64_groups :: "nat list \<Rightarrow> string option" where
  "b64_groups [] = Some []"
| "b64_groups [a] = None"
| "b64_groups [a, b] = Some [char_of ((a * 64 + b) div 16)]"
| "b64_groups [a, b, c] = (let n = ((a * 64 + b) * 64 + c) div 4 in Some [char_of (n div 256), char_of (n mod 256)])"
| "b64_groups (a # b # c # d # s) = (let n = ((a * 64 + b) * 64 + c) * 64 + d
     in map_option (\<lambda>r. char_of (n div 65536) # char_of (n div 256 mod 256) # char_of (n mod 256) # r) (b64_groups s))"

text \<open>\<open>RawStdEncoding.DecodeString\<close>: carriage returns and newlines are skipped.\<close>

definition b64_decode :: "string \<Rightarrow> string option" where
  "b64_decode s =
     (let s = filter (\<lambda>c. byte c \<noteq> 10 \<and> byte c \<noteq> 13) s
      in if list_all (\<lambda>c. b64_val c \<noteq> None) s then b64_groups (map (\<lambda>c. the (b64_val c)) s) else None)"

lemma IndexByte_distinct: "distinct s \<Longrightarrow> n < length s \<Longrightarrow> IndexByte s (s ! n) = Some n"
  by (induction s arbitrary: n) (auto simp: nth_Cons' split: if_splits)

lemma b64_val_char [simp]: "n < 64 \<Longrightarrow> b64_val (b64_char n) = Some n"
proof -
  have "distinct b64_alphabet" by code_simp
  moreover have "length b64_alphabet = 64" by (simp add: b64_alphabet_def)
  ultimately show "n < 64 \<Longrightarrow> b64_val (b64_char n) = Some n"
    by (simp add: b64_val_def b64_char_def IndexByte_distinct)
qed

definition b64_plain :: "char \<Rightarrow> bool" where
  "b64_plain c \<longleftrightarrow> byte c \<noteq> 10 \<and> byte c \<noteq> 13 \<and> c \<noteq> CHR ''$''"

lemma b64_plain_char [simp]: "n < 64 \<Longrightarrow> b64_plain (b64_char n)"
proof -
  assume "n < 64"
  moreover have "length b64_alphabet = 64" by (simp add: b64_alphabet_def)
  ultimately have "b64_char n \<in> set b64_alphabet" unfolding b64_char_def by (intro nth_mem) simp
  moreover have "list_all b64_plain b64_alphabet"
    by (simp add: b64_alphabet_def b64_plain_def byte_def)
  ultimately show ?thesis by (simp add: list_all_iff)
qed

lemma byte_less [simp]: "byte c < 256"
  by (simp add: byte_def)

lemma char_of_byte [simp]: "char_of (byte c) = c"
  by (simp add: byte_def)

text \<open>The sextets of a group of three bytes, of two, and of one.\<close>

lemma sextets_less [simp]:
  "(byte a * 65536 + byte b * 256 + byte c) div 262144 < 64"
  "(byte a * 256 + byte b) * 4 div 4096 < 64" "byte a * 16 div 64 < 64"
proof -
  have a: "byte a < 256" "byte b < 256" "byte c < 256" by simp_all
  have "byte a * 65536 + byte b * 256 + byte c < 64 * 262144" using a by linarith
  moreover have "byte a * 256 + byte b < 65536" using a by linarith
  then have "(byte a * 256 + byte b) * 4 < 64 * 4096" by simp
  moreover have "byte a * 16 < 64 * 64" by simp
  ultimately show "(byte a * 65536 + byte b * 256 + byte c) div 262144 < 64"
    "(byte a * 256 + byte b) * 4 div 4096 < 64" "byte a * 16 div 64 < 64"
    by (simp_all only: less_mult_imp_div_less)
qed

lemma sextets_join:
  fixes n :: nat
  shows "n div 64 * 64 + n mod 64 = n"
    and "(n div 4096 * 64 + n div 64 mod 64) * 64 + n mod 64 = n"
    and "((n div 262144 * 64 + n div 4096 mod 64) * 64 + n div 64 mod 64) * 64 + n mod 64 = n"
proof -
  have d: "n div 4096 = n div 64 div 64" "n div 262144 = n div 64 div 64 div 64"
    by (simp_all add: div_mult2_eq [symmetric])
  have m: "k div 64 * 64 + k mod 64 = k" for k :: nat by (rule div_mult_mod_eq)
  show "n div 64 * 64 + n mod 64 = n" by (rule m)
  show "(n div 4096 * 64 + n div 64 mod 64) * 64 + n mod 64 = n" unfolding d by (simp only: m)
  show "((n div 262144 * 64 + n div 4096 mod 64) * 64 + n div 64 mod 64) * 64 + n mod 64 = n"
    unfolding d by (simp only: m)
qed

lemma b64_encode_plain: "list_all b64_plain (b64_encode s)"
  by (induction s rule: b64_encode.induct) (simp_all only: b64_encode.simps Let_def list.pred_inject
    sextets_less b64_plain_char mod_less_divisor zero_less_numeral simp_thms)

lemma bytes_join:
  "(byte a * 65536 + byte b * 256 + byte c) div 65536 = byte a"
  "(byte a * 65536 + byte b * 256 + byte c) div 256 mod 256 = byte b"
  "(byte a * 65536 + byte b * 256 + byte c) mod 256 = byte c"
  "(byte a * 256 + byte b) div 256 = byte a" "(byte a * 256 + byte b) mod 256 = byte b"
proof -
  have b: "byte a < 256" "byte b < 256" "byte c < 256" by simp_all
  have e: "byte a * 65536 + byte b * 256 + byte c = (byte a * 256 + byte b) * 256 + byte c" by simp
  have low: "(x * 256 + y) div 256 = x" "(x * 256 + y) mod 256 = y" if "y < 256" for x y :: nat
    using that by simp_all
  show two: "(byte a * 256 + byte b) div 256 = byte a" "(byte a * 256 + byte b) mod 256 = byte b"
    by (rule low, rule b)+
  have three: "((byte a * 256 + byte b) * 256 + byte c) div 256 = byte a * 256 + byte b"
    "((byte a * 256 + byte b) * 256 + byte c) mod 256 = byte c" by (rule low, rule b)+
  show "(byte a * 65536 + byte b * 256 + byte c) mod 256 = byte c"
    "(byte a * 65536 + byte b * 256 + byte c) div 256 mod 256 = byte b"
    by (simp_all only: e three two)
  have "(byte a * 65536 + byte b * 256 + byte c) div 65536 =
      (byte a * 65536 + byte b * 256 + byte c) div 256 div 256" by (simp add: div_mult2_eq [symmetric])
  then show "(byte a * 65536 + byte b * 256 + byte c) div 65536 = byte a" by (simp only: e three two)
qed

lemma b64_groups_encode:
  "b64_groups (map (\<lambda>c. the (b64_val c)) (b64_encode s)) = Some s \<and> list_all (\<lambda>c. b64_val c \<noteq> None) (b64_encode s)"
proof (induction s rule: b64_encode.induct)
  case (2 a)
  have "(byte a * 16 div 64 * 64 + byte a * 16 mod 64) div 16 = byte a" by (subst sextets_join(1)) simp
  then show ?case by (simp only: b64_encode.simps Let_def list.map b64_val_char option.sel sextets_less
    mod_less_divisor zero_less_numeral b64_groups.simps char_of_byte list.pred_inject option.simps simp_thms)
next
  case (3 a b)
  have "((byte a * 256 + byte b) * 4) div 4 = byte a * 256 + byte b" by simp
  then show ?case by (simp only: b64_encode.simps Let_def list.map b64_val_char option.sel sextets_less
    mod_less_divisor zero_less_numeral b64_groups.simps sextets_join bytes_join char_of_byte list.pred_inject option.simps simp_thms)
next
  case (4 a b c s)
  then show ?case by (simp only: b64_encode.simps Let_def list.map b64_val_char option.sel sextets_less
    mod_less_divisor zero_less_numeral b64_groups.simps sextets_join bytes_join char_of_byte list.pred_inject
    option.simps simp_thms)
qed simp

theorem b64_decode_encode [bytes_simps]: "b64_decode (b64_encode s) = Some s"
proof -
  have "filter (\<lambda>c. byte c \<noteq> 10 \<and> byte c \<noteq> 13) (b64_encode s) = b64_encode s"
    using b64_encode_plain [of s] by (auto simp: filter_id_conv list_all_iff b64_plain_def)
  then show ?thesis using b64_groups_encode [of s] by (simp add: b64_decode_def)
qed

lemma b64_encode_dollar: "CHR ''$'' \<notin> set (b64_encode s)"
  using b64_encode_plain [of s] by (auto simp: list_all_iff b64_plain_def)

end
