(* ===== verification/Password.thy ===== *)
theory Password
  imports GoScan "HOL-Library.Word"
begin

text \<open>
  Password hashing of \<open>internal/auth/password.go\<close>. The key derivation \<open>argon2.IDKey\<close> is a
  parameter: its arguments are the password, the salt, time, memory, threads and the key length.
  \<open>salt\<close> is what the random source delivers, \<open>None\<close> when it fails.
\<close>

type_synonym kdf = "string \<Rightarrow> string \<Rightarrow> 32 word \<Rightarrow> 32 word \<Rightarrow> 8 word \<Rightarrow> nat \<Rightarrow> string"

datatype password_error = ErrInvalidHash | ErrIncompatibleVersion | ErrEntropy

record argonParams =
  memory :: "32 word"
  time :: "32 word"
  threads :: "8 word"

definition argonMemory :: "32 word" where "argonMemory = 64 * 1024"
definition argonTime :: "32 word" where "argonTime = 3"
definition argonThreads :: "8 word" where "argonThreads = 2"
definition argonSaltLen :: nat where "argonSaltLen = 16"
definition argonKeyLen :: nat where "argonKeyLen = 32"
definition argon2_Version :: int where "argon2_Version = 19"

definition format_hash :: "string \<Rightarrow> string \<Rightarrow> string" where
  "format_hash salt key =
     ''$argon2id$v='' @ Itoa argon2_Version @ ''$m='' @ itoa_nat (unat argonMemory) @ '',t='' @ itoa_nat (unat argonTime) @
     '',p='' @ itoa_nat (unat argonThreads) @ ''$'' @ b64_encode salt @ ''$'' @ b64_encode key"

definition HashPassword :: "kdf \<Rightarrow> string option \<Rightarrow> string \<Rightarrow> password_error + string" where
  "HashPassword IDKey salt plain =
     (case salt of
        None \<Rightarrow> Inl ErrEntropy
      | Some salt \<Rightarrow>
          (let key = IDKey plain salt argonTime argonMemory argonThreads argonKeyLen
           in Inr (format_hash salt key)))"

definition decodeHash :: "string \<Rightarrow> password_error + (argonParams \<times> string \<times> string)" where
  "decodeHash encoded =
     (let parts = Split encoded CHR ''$'' in
      if length parts \<noteq> 6 \<or> parts ! 0 \<noteq> '''' \<or> parts ! 1 \<noteq> ''argon2id'' then Inl ErrInvalidHash
      else case Sscanf [Lit ''v='', VerbInt] (parts ! 2) of
        None \<Rightarrow> Inl ErrInvalidHash
      | Some vs \<Rightarrow>
          if hd vs \<noteq> argon2_Version then Inl ErrIncompatibleVersion
          else case Sscanf [Lit ''m='', VerbUint 32, Lit '',t='', VerbUint 32, Lit '',p='', VerbUint 8] (parts ! 3) of
            None \<Rightarrow> Inl ErrInvalidHash
          | Some ps \<Rightarrow>
              let p = \<lparr>memory = word_of_int (ps ! 0), time = word_of_int (ps ! 1), threads = word_of_int (ps ! 2)\<rparr> in
              if memory p = 0 \<or> time p = 0 \<or> threads p = 0 then Inl ErrInvalidHash
              else case b64_decode (parts ! 4) of
                None \<Rightarrow> Inl ErrInvalidHash
              | Some salt \<Rightarrow>
                  if length salt = 0 then Inl ErrInvalidHash
                  else case b64_decode (parts ! 5) of
                    None \<Rightarrow> Inl ErrInvalidHash
                  | Some key \<Rightarrow> if length key = 0 then Inl ErrInvalidHash else Inr (p, salt, key))"

definition VerifyPassword :: "kdf \<Rightarrow> string \<Rightarrow> string \<Rightarrow> password_error + bool" where
  "VerifyPassword IDKey encodedHash plain =
     (case decodeHash encodedHash of
        Inl e \<Rightarrow> Inl e
      | Inr (params, salt, want) \<Rightarrow>
          (let got = IDKey plain salt (time params) (memory params) (threads params) (length want)
           in Inr (got = want)))"

subsection \<open>Round trip\<close>

lemma digits_plain: "c \<in> set (itoa_nat n) \<Longrightarrow> c \<noteq> CHR ''$'' \<and> c \<noteq> CHR '','' "
  using itoa_nat_digits [of c n] by (auto simp: is_digit_def byte_def)

lemma Split_format_hash:
  "Split (format_hash salt key) CHR ''$'' =
     ['''', ''argon2id'', ''v='' @ Itoa argon2_Version,
      ''m='' @ itoa_nat (unat argonMemory) @ '',t='' @ itoa_nat (unat argonTime) @ '',p='' @ itoa_nat (unat argonThreads),
      b64_encode salt, b64_encode key]"
proof -
  let ?v = "''v='' @ Itoa argon2_Version"
  let ?m = "''m='' @ itoa_nat (unat argonMemory) @ '',t='' @ itoa_nat (unat argonTime) @ '',p='' @ itoa_nat (unat argonThreads)"
  have v: "CHR ''$'' \<notin> set ?v" using digits_plain by (auto simp: Itoa_def argon2_Version_def)
  have m: "CHR ''$'' \<notin> set ?m" using digits_plain by auto
  have h: "format_hash salt key =
      [] @ CHR ''$'' # ''argon2id'' @ CHR ''$'' # ?v @ CHR ''$'' # ?m @ CHR ''$'' # b64_encode salt @
      CHR ''$'' # b64_encode key"
    by (simp add: format_hash_def)
  have a: "CHR ''$'' \<notin> set []" "CHR ''$'' \<notin> set ''argon2id''" by simp_all
  show ?thesis
    unfolding h by (simp only: Split_append Split_id v m a b64_encode_dollar not_False_eq_True)
qed

text \<open>The parameter text reads back.\<close>

lemma scan_params:
  assumes "a < 2 ^ 32" and "b < 2 ^ 32" and "c < 2 ^ 8"
  shows "Sscanf [Lit ''m='', VerbUint 32, Lit '',t='', VerbUint 32, Lit '',p='', VerbUint 8]
    (''m='' @ itoa_nat a @ '',t='' @ itoa_nat b @ '',p='' @ itoa_nat c) = Some [int a, int b, int c]"
proof -
  have comma: "\<not> is_digit CHR '',''" by (simp add: is_digit_def byte_def)
  have 1: "scan_item (VerbUint 32) (itoa_nat a @ '',t='' @ R) = Some ([int a], '',t='' @ R)" for R
    by (rule scan_uint_itoa) (use assms comma in simp_all)
  have 2: "scan_item (VerbUint 32) (itoa_nat b @ '',p='' @ R) = Some ([int b], '',p='' @ R)" for R
    by (rule scan_uint_itoa) (use assms comma in simp_all)
  have 3: "scan_item (VerbUint 8) (itoa_nat c) = Some ([int c], [])"
    using scan_uint_itoa [of c 8 "[]"] assms by simp
  show ?thesis
    by (simp only: Sscanf.simps scan_lit 1 2 3 option.case prod.case option.map) simp
qed

lemma scan_version: "Sscanf [Lit ''v='', VerbInt] (''v='' @ Itoa argon2_Version) = Some [argon2_Version]"
proof -
  have "scan_item VerbInt (itoa_nat 19) = Some ([19], [])" using scan_int_itoa [of 19 "[]"] by simp
  then have "Sscanf [Lit ''v='', VerbInt] (''v='' @ itoa_nat 19) = Some [19]"
    by (simp only: Sscanf.simps scan_lit option.case prod.case option.map) simp
  then show ?thesis by (simp add: argon2_Version_def Itoa_def)
qed

lemma decodeHash_format:
  assumes "salt \<noteq> []" and "key \<noteq> []"
  shows "decodeHash (format_hash salt key) =
    Inr (\<lparr>memory = argonMemory, time = argonTime, threads = argonThreads\<rparr>, salt, key)"
proof -
  have w: "word_of_int 65536 = argonMemory" "word_of_int 3 = argonTime" "word_of_int 2 = argonThreads"
    "argonMemory \<noteq> 0" "argonTime \<noteq> 0" "argonThreads \<noteq> 0"
    by (simp_all add: argonMemory_def argonTime_def argonThreads_def)
  have u: "unat argonMemory = 65536" "unat argonTime = 3" "unat argonThreads = 2"
    by (simp_all add: argonMemory_def argonTime_def argonThreads_def)
  have m: "Sscanf [Lit ''m='', VerbUint 32, Lit '',t='', VerbUint 32, Lit '',p='', VerbUint 8]
      (''m='' @ itoa_nat (unat argonMemory) @ '',t='' @ itoa_nat (unat argonTime) @ '',p='' @ itoa_nat (unat argonThreads)) =
      Some [65536, 3, 2]"
    using scan_params [of "unat argonMemory" "unat argonTime" "unat argonThreads"] by (simp only: u) simp
  show ?thesis
    unfolding decodeHash_def Split_format_hash
    by (simp add: scan_version m Let_def b64_decode_encode assms w del: Sscanf.simps append.simps)
      (simp add: argonMemory_def argonTime_def argonThreads_def)
qed

text \<open>
  A hashed password verifies: what \<open>HashPassword\<close> produces is decoded back to exactly the
  parameters, salt and key it was made from, so \<open>VerifyPassword\<close> accepts the password, and any
  other password precisely when the key derivation cannot tell the two apart.
\<close>
theorem password_roundtrip:
  assumes "\<And>pw s t m p n. length (IDKey pw s t m p n) = n"
    and "salt \<noteq> []" and "HashPassword IDKey (Some salt) plain = Inr h"
  shows "VerifyPassword IDKey h plain = Inr True \<and>
    VerifyPassword IDKey h other = Inr (IDKey other salt argonTime argonMemory argonThreads argonKeyLen =
      IDKey plain salt argonTime argonMemory argonThreads argonKeyLen)"
proof -
  let ?key = "IDKey plain salt argonTime argonMemory argonThreads argonKeyLen"
  have h: "h = format_hash salt ?key" using assms(3) by (simp add: HashPassword_def Let_def)
  have "?key \<noteq> []" using assms(1) [of plain salt argonTime argonMemory argonThreads argonKeyLen]
    by (auto simp: argonKeyLen_def)
  then show ?thesis
    using decodeHash_format [OF assms(2)] assms(1) by (simp add: VerifyPassword_def h Let_def)
qed

definition toy_kdf :: kdf where
  "toy_kdf pw salt t m p n = take n (pw @ replicate n CHR ''x'')"

lemma password_roundtrip_witness:
  "VerifyPassword toy_kdf (format_hash ''salt'' (toy_kdf ''pw'' ''salt'' 3 65536 2 32)) ''pw'' = Inr True \<and>
   VerifyPassword toy_kdf (format_hash ''salt'' (toy_kdf ''pw'' ''salt'' 3 65536 2 32)) ''no'' = Inr False"
proof -
  have len: "length (toy_kdf pw s t m p n) = n" for pw s t m p n by (simp add: toy_kdf_def)
  have h: "HashPassword toy_kdf (Some ''salt'') ''pw'' = Inr (format_hash ''salt'' (toy_kdf ''pw'' ''salt'' 3 65536 2 32))"
    by (simp add: HashPassword_def argonTime_def argonMemory_def argonThreads_def argonKeyLen_def)
  show ?thesis
    using password_roundtrip [OF len _ h, of "''pw''"] password_roundtrip [OF len _ h, of "''no''"]
    by (simp add: toy_kdf_def argonKeyLen_def)
qed

text \<open>
  A stored hash is only ever used with usable parameters: what \<open>decodeHash\<close> accepts has six
  \<open>$\<close>-separated parts, the scheme \<open>argon2id\<close>, memory, time and thread count that are not zero, and a
  salt and key that are not empty.
\<close>
theorem decodeHash_sound:
  assumes "decodeHash h = Inr (p, salt, key)"
  shows "memory p \<noteq> 0 \<and> time p \<noteq> 0 \<and> threads p \<noteq> 0 \<and> salt \<noteq> [] \<and> key \<noteq> [] \<and>
    (\<exists>v m s k. h = ''$argon2id$'' @ v @ ''$'' @ m @ ''$'' @ s @ ''$'' @ k \<and>
      b64_decode s = Some salt \<and> b64_decode k = Some key \<and>
      map_option hd (Sscanf [Lit ''v='', VerbInt] v) = Some argon2_Version)"
proof -
  let ?parts = "Split h CHR ''$''"
  have six: "length ?parts = 6" "?parts ! 0 = ''''" "?parts ! 1 = ''argon2id''"
    and ver: "map_option hd (Sscanf [Lit ''v='', VerbInt] (?parts ! 2)) = Some argon2_Version"
    and p: "memory p \<noteq> 0" "time p \<noteq> 0" "threads p \<noteq> 0" "salt \<noteq> []" "key \<noteq> []"
    and b64: "b64_decode (?parts ! 4) = Some salt" "b64_decode (?parts ! 5) = Some key"
    using assms by (auto simp: decodeHash_def Let_def simp del: Sscanf.simps split: if_splits option.splits)
  have "?parts = map ((!) ?parts) [0, 1, 2, 3, 4, 5]"
    using six(1) by (simp add: list_eq_iff_nth_eq less_Suc_eq numeral_eq_Suc)
  then obtain v m s k where parts: "?parts = ['''', ''argon2id'', v, m, s, k]"
    using six(2,3) by simp
  have "h = Join ?parts ''$''" by (rule Join_Split [symmetric])
  then have "h = ''$argon2id$'' @ v @ ''$'' @ m @ ''$'' @ s @ ''$'' @ k"
    unfolding parts by simp
  moreover have "b64_decode s = Some salt" "b64_decode k = Some key"
    "map_option hd (Sscanf [Lit ''v='', VerbInt] v) = Some argon2_Version"
    using b64 ver unfolding parts by simp_all
  ultimately show ?thesis using p by blast
qed

lemma decodeHash_sound_witness:
  "memory \<lparr>memory = argonMemory, time = argonTime, threads = argonThreads\<rparr> \<noteq> 0"
proof -
  have "decodeHash (format_hash ''salt'' ''key'') =
      Inr (\<lparr>memory = argonMemory, time = argonTime, threads = argonThreads\<rparr>, ''salt'', ''key'')"
    by (rule decodeHash_format) simp_all
  from decodeHash_sound [OF this] show ?thesis by blast
qed

end
