(* ===== verification/Manager.thy ===== *)
theory Manager
  imports Sessions Password
begin

text \<open>
  The session manager of \<open>internal/auth/manager.go\<close>: login with its rate limits, logout, the
  check on every request, the reaper, and adopting persisted sessions at startup. The manager's
  maps are association lists. Each function is one critical section of the code, or a whole
  handler composed of them; the clock readings, the random bytes and the outcome of a database
  call are arguments.
\<close>

subsection \<open>State\<close>

record failCounter =
  f_count :: nat
  f_first :: Time

record Manager =
  m_user :: string
  m_hash :: string
  m_ttl :: int
  m_sessions :: "(string \<times> Time) list"
  m_failures :: "(string \<times> failCounter) list"
  m_global :: failCounter
  m_store :: "SQLSessionStore option"

record Cookie =
  c_Name :: string
  c_Value :: string
  c_Path :: string
  c_Expires :: Time
  c_MaxAge :: int
  c_HttpOnly :: bool
  c_Secure :: bool

datatype auth_error = ErrBadCredentials | ErrRateLimited | ErrVerify password_error | ErrToken

definition CookieName :: string where "CookieName = ''aiofiles_session''"
definition maxFailures :: nat where "maxFailures = 5"
definition failWindow :: int where "failWindow = 15 * 60 * 1000000000"
definition globalMaxFailures :: nat where "globalMaxFailures = 100"
definition globalFailWindow :: int where "globalFailWindow = 5 * 60 * 1000000000"
definition maxFailureEntries :: nat where "maxFailureEntries = 4096"

definition no_failures :: failCounter where
  "no_failures = \<lparr>f_count = 0, f_first = 0\<rparr>"

definition hour :: int where "hour = 60 * 60 * 1000000000"

definition NewManager :: "string \<Rightarrow> string \<Rightarrow> int \<Rightarrow> Manager" where
  "NewManager user hash ttlHours =
     (let ttl = wrap64 (ttlHours * hour);
          ttl = (if ttl \<le> 0 then 720 * hour else ttl)
      in \<lparr>m_user = user, m_hash = hash, m_ttl = ttl, m_sessions = [], m_failures = [],
          m_global = no_failures, m_store = None\<rparr>)"

definition AuthEnabled :: "Manager \<Rightarrow> bool" where
  "AuthEnabled m \<longleftrightarrow> m_user m \<noteq> '''' \<and> m_hash m \<noteq> ''''"

text \<open>\<open>sha256\<close> is the hash function of the standard library, 32 bytes.\<close>

definition credentialFingerprint :: "(string \<Rightarrow> 8 word list) \<Rightarrow> string \<Rightarrow> string" where
  "credentialFingerprint sha256 passwordHash = hex_encode (take 8 (sha256 passwordHash))"

text \<open>
  \<open>Persist\<close>: \<open>rebind_ok\<close>, \<open>live_ok\<close> and \<open>expire_ok\<close> say whether the three database calls succeed;
  the result says whether \<open>Persist\<close> returned no error. A failed \<open>Live\<close> returns no sessions.
\<close>

definition Persist ::
  "(string \<Rightarrow> 8 word list) \<Rightarrow> bool \<times> bool \<times> bool \<Rightarrow> Time \<Rightarrow> SQLSessionStore option \<Rightarrow> Manager \<Rightarrow> Manager \<times> bool" where
  "Persist sha256 oks now store m =
     (case (store, oks) of
        (None, _) \<Rightarrow> (m, True)
      | (Some st, rebind_ok, live_ok, expire_ok) \<Rightarrow>
          if \<not> rebind_ok then (m\<lparr>m_store := Some st\<rparr>, False)
          else
            let st = Rebind (credentialFingerprint sha256 (m_hash m)) st;
                live = (if live_ok then Live st now else []);
                m = m\<lparr>m_store := Some st,
                      m_sessions := fold (\<lambda>(token, expiry) s. put token expiry s) live (m_sessions m)\<rparr>
            in if \<not> live_ok then (m, False)
               else if expire_ok then (m\<lparr>m_store := Some (DeleteExpired now st)\<rparr>, True)
               else (m, False))"

subsection \<open>Rate limiting\<close>

definition pruneFailures :: "Time \<Rightarrow> (string \<times> failCounter) list \<Rightarrow> (string \<times> failCounter) list" where
  "pruneFailures now fs = keep_if (\<lambda>f. \<not> now - f_first f > failWindow) fs"

definition rateLimited :: "Time \<Rightarrow> string \<Rightarrow> Manager \<Rightarrow> bool \<times> Manager" where
  "rateLimited now ip m =
     (let m = (if f_count (m_global m) > 0 \<and> now - f_first (m_global m) > globalFailWindow
               then m\<lparr>m_global := no_failures\<rparr> else m)
      in if f_count (m_global m) \<ge> globalMaxFailures then (True, m)
         else case map_of (m_failures m) ip of
           None \<Rightarrow> (False, m)
         | Some f \<Rightarrow>
             if now - f_first f > failWindow then (False, m\<lparr>m_failures := remove_key ip (m_failures m)\<rparr>)
             else (f_count f \<ge> maxFailures, m))"

definition count_failure :: "Time \<Rightarrow> int \<Rightarrow> failCounter \<Rightarrow> failCounter" where
  "count_failure now window f =
     (if now - f_first f > window then \<lparr>f_count = 1, f_first = now\<rparr> else f\<lparr>f_count := Suc (f_count f)\<rparr>)"

definition recordFailure :: "Time \<Rightarrow> string \<Rightarrow> Manager \<Rightarrow> Manager" where
  "recordFailure now ip m =
     (let g = m_global m;
          m = m\<lparr>m_global := (if f_count g = 0 \<or> now - f_first g > globalFailWindow
                              then \<lparr>f_count = 1, f_first = now\<rparr> else g\<lparr>f_count := Suc (f_count g)\<rparr>)\<rparr>
      in case map_of (m_failures m) ip of
           Some f \<Rightarrow> m\<lparr>m_failures := put ip (count_failure now failWindow f) (m_failures m)\<rparr>
         | None \<Rightarrow>
             let fs = (if length (m_failures m) \<ge> maxFailureEntries then pruneFailures now (m_failures m)
                       else m_failures m);
                 m = m\<lparr>m_failures := fs\<rparr>
             in if length fs \<ge> maxFailureEntries then m
                else m\<lparr>m_failures := put ip \<lparr>f_count = 1, f_first = now\<rparr> fs\<rparr>)"

subsection \<open>Sessions\<close>

text \<open>What a login needs from outside: three clock readings, the hash slot, the random bytes, the write.\<close>

record login_env =
  l_ip :: string
  l_check :: Time
  l_slot :: bool
  l_fail :: Time
  l_rand :: "8 word list option"
  l_issue :: Time
  l_save_ok :: bool
  l_https :: bool

definition verifyPassword :: "kdf \<Rightarrow> bool \<Rightarrow> string \<Rightarrow> Manager \<Rightarrow> (auth_error, bool) result" where
  "verifyPassword IDKey slot password m =
     (if \<not> slot then Inl ErrRateLimited
      else case VerifyPassword IDKey (m_hash m) password of Inl e \<Rightarrow> Inl (ErrVerify e) | Inr b \<Rightarrow> Inr b)"

definition newToken :: "8 word list option \<Rightarrow> string option" where
  "newToken rand = map_option hex_encode rand"

text \<open>The critical section at the end of a successful login, and the write-through after it.\<close>

definition issue :: "string \<Rightarrow> string \<Rightarrow> Time \<Rightarrow> bool \<Rightarrow> Manager \<Rightarrow> Manager" where
  "issue ip token expiry save_ok m =
     (let m = m\<lparr>m_sessions := put token expiry (m_sessions m),
                m_failures := remove_key ip (m_failures m), m_global := no_failures\<rparr>
      in if save_ok then m\<lparr>m_store := map_option (SaveSession token expiry) (m_store m)\<rparr> else m)"

definition session_cookie :: "string \<Rightarrow> Time \<Rightarrow> int \<Rightarrow> bool \<Rightarrow> Cookie" where
  "session_cookie token expiry ttl https =
     \<lparr>c_Name = CookieName, c_Value = token, c_Path = ''/'', c_Expires = expiry, c_MaxAge = ttl div 1000000000,
      c_HttpOnly = True, c_Secure = https\<rparr>"

definition Login :: "kdf \<Rightarrow> login_env \<Rightarrow> string \<Rightarrow> string \<Rightarrow> Manager \<Rightarrow>
    (auth_error, Cookie option) result \<times> Manager" where
  "Login IDKey env username password m =
     (if \<not> AuthEnabled m then (Inr None, m)
      else let (limited, m) = rateLimited (l_check env) (l_ip env) m
      in if limited then (Inl ErrRateLimited, m)
      else let userOK = (username = m_user m)
      in case verifyPassword IDKey (l_slot env) password m of
           Inl e \<Rightarrow> (Inl e, m)
         | Inr passOK \<Rightarrow>
             if \<not> userOK \<or> \<not> passOK then (Inl ErrBadCredentials, recordFailure (l_fail env) (l_ip env) m)
             else case newToken (l_rand env) of
               None \<Rightarrow> (Inl ErrToken, m)
             | Some token \<Rightarrow>
                 let expiry = l_issue env + m_ttl m
                 in (Inr (Some (session_cookie token expiry (m_ttl m) (l_https env))),
                     issue (l_ip env) token expiry (l_save_ok env) m))"

text \<open>\<open>c\<close> is the value of the session cookie, \<open>None\<close> when the request carries none.\<close>

definition Logout :: "bool \<Rightarrow> string option \<Rightarrow> bool \<Rightarrow> Manager \<Rightarrow> Cookie \<times> Manager" where
  "Logout delete_ok c https m =
     (\<lparr>c_Name = CookieName, c_Value = '''', c_Path = ''/'', c_Expires = 0, c_MaxAge = -1,
       c_HttpOnly = True, c_Secure = https\<rparr>,
      case c of
        None \<Rightarrow> m
      | Some v \<Rightarrow>
          if v = '''' then m
          else let m = m\<lparr>m_sessions := remove_key v (m_sessions m)\<rparr>
               in if delete_ok then m\<lparr>m_store := map_option (DeleteSession v) (m_store m)\<rparr> else m)"

definition Authenticated :: "bool \<Rightarrow> Time \<Rightarrow> string option \<Rightarrow> Manager \<Rightarrow> bool \<times> Manager" where
  "Authenticated delete_ok now c m =
     (if \<not> AuthEnabled m then (True, m)
      else case c of
        None \<Rightarrow> (False, m)
      | Some v \<Rightarrow>
          if v = '''' then (False, m)
          else case map_of (m_sessions m) v of
            None \<Rightarrow> (False, m)
          | Some expiry \<Rightarrow>
              if now > expiry then
                (False,
                 let m = m\<lparr>m_sessions := remove_key v (m_sessions m)\<rparr>
                 in if delete_ok then m\<lparr>m_store := map_option (DeleteSession v) (m_store m)\<rparr> else m)
              else (True, m))"

definition reap :: "bool \<Rightarrow> Time \<Rightarrow> Manager \<Rightarrow> Manager" where
  "reap expire_ok now m =
     (let m = m\<lparr>m_sessions := keep_if (\<lambda>expiry. \<not> now > expiry) (m_sessions m),
                m_failures := pruneFailures now (m_failures m)\<rparr>
      in if expire_ok then m\<lparr>m_store := map_option (DeleteExpired now) (m_store m)\<rparr> else m)"

text \<open>\<open>Middleware\<close>: the request goes through, or is answered 401.\<close>

definition Middleware :: "bool \<Rightarrow> Time \<Rightarrow> string option \<Rightarrow> Manager \<Rightarrow> bool \<times> Manager" where
  "Middleware delete_ok now c m =
     (if \<not> AuthEnabled m then (True, m) else Authenticated delete_ok now c m)"

end
