(* ===== verification/AuthSpec.thy ===== *)
theory AuthSpec
  imports Manager
begin

text \<open>
  What the session manager promises: failed logins lock an address out and a flood of them locks
  everyone out, the counters stay bounded, a session is issued only for the right credentials
  and ends at logout or expiry, a restart keeps the sessions the store holds, and rotating the
  credential drops them.
\<close>

subsection \<open>Critical sections and their invariant\<close>

datatype auth_op =
  OCheck string
| OFail string
| OIssue string string Time
| OLogout string
| OAuth string
| OReap

text \<open>One critical section at a time \<open>now\<close>; every call of the store succeeds.\<close>

fun auth_step :: "Time \<times> auth_op \<Rightarrow> Manager \<Rightarrow> Manager" where
  "auth_step (now, OCheck ip) m = snd (rateLimited now ip m)"
| "auth_step (now, OFail ip) m = recordFailure now ip m"
| "auth_step (now, OIssue ip token expiry) m = issue ip token expiry True m"
| "auth_step (now, OLogout token) m = snd (Logout True (Some token) False m)"
| "auth_step (now, OAuth token) m = snd (Authenticated True now (Some token) m)"
| "auth_step (now, OReap) m = reap True now m"

definition manager_inv :: "Manager \<Rightarrow> bool" where
  "manager_inv m \<longleftrightarrow> distinct_keys (m_sessions m) \<and> distinct_keys (m_failures m) \<and>
     length (m_failures m) \<le> maxFailureEntries"

lemma global_update_fields [simp]:
  "m_sessions (if b then m\<lparr>m_global := g\<rparr> else m) = m_sessions m"
  "m_failures (if b then m\<lparr>m_global := g\<rparr> else m) = m_failures m"
  "m_store (if b then m\<lparr>m_global := g\<rparr> else m) = m_store m"
  "m_hash (if b then m\<lparr>m_global := g\<rparr> else m) = m_hash m"
  "m_user (if b then m\<lparr>m_global := g\<rparr> else m) = m_user m"
  by simp_all

lemma rateLimited_frame [simp]:
  "m_sessions (snd (rateLimited now ip m)) = m_sessions m"
  "m_store (snd (rateLimited now ip m)) = m_store m"
  "m_hash (snd (rateLimited now ip m)) = m_hash m" "m_user (snd (rateLimited now ip m)) = m_user m"
  "m_ttl (snd (rateLimited now ip m)) = m_ttl m"
  by (auto simp: rateLimited_def Let_def split: option.splits)

lemma recordFailure_frame [simp]:
  "m_sessions (recordFailure now ip m) = m_sessions m" "m_store (recordFailure now ip m) = m_store m"
  "m_hash (recordFailure now ip m) = m_hash m" "m_user (recordFailure now ip m) = m_user m"
  by (simp_all add: recordFailure_def Let_def split: option.splits)

lemma rateLimited_failures:
  "m_failures (snd (rateLimited now ip m)) = m_failures m \<or>
   m_failures (snd (rateLimited now ip m)) = remove_key ip (m_failures m)"
  by (auto simp: rateLimited_def Let_def split: option.splits)

lemma length_pruneFailures: "length (pruneFailures now fs) \<le> length fs"
  by (simp add: pruneFailures_def length_keep_if)

lemma distinct_keys_prune [simp]: "distinct_keys fs \<Longrightarrow> distinct_keys (pruneFailures now fs)"
  by (simp add: pruneFailures_def)

lemma failures_recordFailure:
  "m_failures (recordFailure now ip m) =
     (case map_of (m_failures m) ip of
        Some f \<Rightarrow> put ip (count_failure now failWindow f) (m_failures m)
      | None \<Rightarrow>
          let fs = (if length (m_failures m) \<ge> maxFailureEntries then pruneFailures now (m_failures m) else m_failures m)
          in if length fs \<ge> maxFailureEntries then fs else put ip \<lparr>f_count = 1, f_first = now\<rparr> fs)"
  by (simp add: recordFailure_def Let_def split: option.splits)

lemma length_recordFailure:
  assumes "length (m_failures m) \<le> maxFailureEntries"
  shows "length (m_failures (recordFailure now ip m)) \<le> maxFailureEntries"
proof (cases "map_of (m_failures m) ip")
  case (Some f)
  then have "ip \<in> set (keys (m_failures m))" by (simp add: map_of_keys)
  with Some assms show ?thesis by (simp add: failures_recordFailure length_put)
next
  case None
  let ?fs = "if length (m_failures m) \<ge> maxFailureEntries then pruneFailures now (m_failures m) else m_failures m"
  have "length ?fs \<le> maxFailureEntries" using assms length_pruneFailures [of now "m_failures m"] by auto
  with None show ?thesis by (auto simp: failures_recordFailure Let_def length_put)
qed

lemma distinct_recordFailure:
  "distinct_keys (m_failures m) \<Longrightarrow> distinct_keys (m_failures (recordFailure now ip m))"
  by (simp add: failures_recordFailure Let_def split: option.splits)

lemma issue_fields [simp]:
  "m_sessions (issue ip t e ok m) = put t e (m_sessions m)"
  "m_failures (issue ip t e ok m) = remove_key ip (m_failures m)"
  "m_global (issue ip t e ok m) = no_failures" "m_user (issue ip t e ok m) = m_user m"
  "m_hash (issue ip t e ok m) = m_hash m"
  "m_store (issue ip t e ok m) = (if ok then map_option (SaveSession t e) (m_store m) else m_store m)"
  by (simp_all add: issue_def Let_def)

lemma reap_fields [simp]:
  "m_sessions (reap ok now m) = keep_if (\<lambda>expiry. \<not> now > expiry) (m_sessions m)"
  "m_failures (reap ok now m) = pruneFailures now (m_failures m)" "m_global (reap ok now m) = m_global m"
  "m_store (reap ok now m) = (if ok then map_option (DeleteExpired now) (m_store m) else m_store m)"
  "m_hash (reap ok now m) = m_hash m" "m_user (reap ok now m) = m_user m"
  by (simp_all add: reap_def Let_def)

lemma Logout_fields [simp]:
  "m_failures (snd (Logout ok c h m)) = m_failures m" "m_global (snd (Logout ok c h m)) = m_global m"
  "m_hash (snd (Logout ok c h m)) = m_hash m" "m_user (snd (Logout ok c h m)) = m_user m"
  by (simp_all add: Logout_def Let_def split: option.splits)

lemma Authenticated_fields [simp]:
  "m_failures (snd (Authenticated ok now c m)) = m_failures m" "m_global (snd (Authenticated ok now c m)) = m_global m"
  "m_hash (snd (Authenticated ok now c m)) = m_hash m" "m_user (snd (Authenticated ok now c m)) = m_user m"
  by (simp_all add: Authenticated_def Let_def split: option.splits)

lemma m_sessions_Logout:
  "m_sessions (snd (Logout ok (Some v) h m)) = (if v = '''' then m_sessions m else remove_key v (m_sessions m))"
  by (simp add: Logout_def Let_def)

lemma m_sessions_Authenticated:
  "m_sessions (snd (Authenticated ok now c m)) = m_sessions m \<or>
   (\<exists>v. m_sessions (snd (Authenticated ok now c m)) = remove_key v (m_sessions m))"
  by (auto simp: Authenticated_def Let_def split: option.splits)

lemma manager_inv_step: "manager_inv m \<Longrightarrow> manager_inv (auth_step op m)"
proof (induction op m rule: auth_step.induct)
  case (1 now ip m)
  have "length (remove_key ip (m_failures m)) \<le> length (m_failures m)" by (rule length_remove_key)
  with 1 show ?case using rateLimited_failures [of now ip m] by (auto simp: manager_inv_def)
next
  case (2 now ip m)
  then show ?case by (simp add: manager_inv_def length_recordFailure distinct_recordFailure)
next
  case (3 now ip token expiry m)
  then show ?case using length_remove_key [of ip "m_failures m"] by (auto simp: manager_inv_def)
next
  case (4 now token m)
  then show ?case by (simp add: manager_inv_def m_sessions_Logout)
next
  case (5 now token m)
  then show ?case using m_sessions_Authenticated [of True now "Some token" m] by (auto simp: manager_inv_def)
next
  case (6 now m)
  then show ?case using length_pruneFailures [of now "m_failures m"] by (auto simp: manager_inv_def)
qed

lemma manager_inv_New: "manager_inv (NewManager u h ttl)"
  by (simp add: manager_inv_def NewManager_def Let_def)

lemma manager_inv_run: "manager_inv (fold auth_step ops (NewManager u h ttl))"
proof -
  have "manager_inv m \<Longrightarrow> manager_inv (fold auth_step ops m)" for m
    by (induction ops arbitrary: m) (auto intro: manager_inv_step)
  then show ?thesis using manager_inv_New by blast
qed

text \<open>
  However the critical sections of logins, logouts, checks and reaps interleave, the failure
  map never holds more than 4096 addresses, and neither map holds a key twice.
\<close>
theorem failures_bounded:
  "length (m_failures (fold auth_step ops (NewManager u h ttl))) \<le> 4096 \<and>
   distinct (keys (m_failures (fold auth_step ops (NewManager u h ttl)))) \<and>
   distinct (keys (m_sessions (fold auth_step ops (NewManager u h ttl))))"
  using manager_inv_run [of ops u h ttl]
  by (simp add: manager_inv_def distinct_keys_def maxFailureEntries_def)

subsection \<open>Lockout\<close>

definition locked :: "Manager \<Rightarrow> string \<Rightarrow> Time \<Rightarrow> bool" where
  "locked m ip first \<longleftrightarrow>
     (\<exists>f. map_of (m_failures m) ip = Some f \<and> f_count f \<ge> maxFailures \<and> f_first f = first)"

lemma locked_limited:
  "locked m ip first \<Longrightarrow> now - first \<le> failWindow \<Longrightarrow> fst (rateLimited now ip m)"
  by (auto simp: locked_def rateLimited_def Let_def)

lemma map_of_prune:
  "distinct_keys fs \<Longrightarrow> map_of fs ip = Some f \<Longrightarrow> now - f_first f \<le> failWindow \<Longrightarrow>
     map_of (pruneFailures now fs) ip = Some f"
  by (simp add: pruneFailures_def map_of_keep_if)

lemma locked_recordFailure:
  assumes "locked m ip first" and "distinct_keys (m_failures m)" and "now - first \<le> failWindow"
  shows "locked (recordFailure now ip' m) ip first"
proof -
  obtain f where f: "map_of (m_failures m) ip = Some f" "f_count f \<ge> maxFailures" "f_first f = first"
    using assms(1) by (auto simp: locked_def)
  show ?thesis
  proof (cases "ip' = ip")
    case True
    with f assms(3) show ?thesis by (auto simp: locked_def failures_recordFailure count_failure_def)
  next
    case False
    then show ?thesis
      using f assms map_of_prune [OF assms(2) f(1), of now]
      by (auto simp: locked_def failures_recordFailure Let_def split: option.splits)
  qed
qed

text \<open>
  A locked address stays locked until its window closes, whatever anyone does, short of a login
  from that very address that was already past its check.
\<close>

lemma locked_step:
  assumes lock: "locked m ip first" and inv: "manager_inv m" and t: "fst op - first \<le> failWindow"
    and ok: "\<And>token e. snd op \<noteq> OIssue ip token e"
  shows "locked (auth_step op m) ip first"
proof -
  have dist: "distinct_keys (m_failures m)" using inv by (simp add: manager_inv_def)
  obtain now o' where op: "op = (now, o')" by fastforce
  show ?thesis
  proof (cases o')
    case (OCheck ip')
    show ?thesis
    proof (cases "ip' = ip")
      case True
      with lock t show ?thesis
        by (auto simp: op OCheck locked_def rateLimited_def Let_def)
    next
      case False
      with lock show ?thesis
        using rateLimited_failures [of now ip' m] by (auto simp: op OCheck locked_def)
    qed
  next
    case (OFail ip')
    with lock dist t show ?thesis by (simp add: op locked_recordFailure)
  next
    case (OIssue ip' token e)
    with ok op have "ip' \<noteq> ip" by auto
    with lock show ?thesis by (simp add: op OIssue locked_def)
  next
    case OReap
    with lock dist t show ?thesis using map_of_prune [OF dist] by (auto simp: op locked_def)
  qed (use lock in \<open>simp_all add: op locked_def\<close>)
qed

text \<open>Failures within one window add up, and all of them belong to the first.\<close>

lemma count_failures:
  assumes "map_of (m_failures m) ip = Some f" and "list_all (\<lambda>t. t - f_first f \<le> failWindow) ts"
  shows "map_of (m_failures (fold (\<lambda>t. recordFailure t ip) ts m)) ip =
    Some \<lparr>f_count = f_count f + length ts, f_first = f_first f\<rparr>"
  using assms
proof (induction ts arbitrary: m f)
  case (Cons t ts)
  let ?f = "f\<lparr>f_count := Suc (f_count f)\<rparr>"
  have "map_of (m_failures (recordFailure t ip m)) ip = Some ?f"
    using Cons.prems by (simp add: failures_recordFailure count_failure_def)
  from Cons.IH [OF this] Cons.prems(2) show ?case by simp
qed simp

lemma Login_limited:
  "AuthEnabled m \<Longrightarrow> fst (rateLimited (l_check env) (l_ip env) m) \<Longrightarrow>
     fst (Login IDKey env username password m) = Inl ErrRateLimited"
  by (cases "rateLimited (l_check env) (l_ip env) m") (simp add: Login_def)

text \<open>
  C15. Five failed logins from one address within a quarter of an hour lock that address out:
  until the window of the first closes, \<open>Login\<close> answers "rate limited" to it without looking at
  the credentials, correct ones included.
\<close>
theorem five_failures_lock:
  assumes "AuthEnabled m" and "map_of (m_failures m) ip = None" and "length (m_failures m) < maxFailureEntries"
    and "4 \<le> length ts" and "list_all (\<lambda>t. t - t0 \<le> failWindow) ts"
    and "l_ip env = ip" and "l_check env - t0 \<le> failWindow"
  shows "fst (Login IDKey env username password (fold (\<lambda>t. recordFailure t ip) (t0 # ts) m)) = Inl ErrRateLimited"
proof -
  let ?m = "fold (\<lambda>t. recordFailure t ip) (t0 # ts) m"
  have first: "map_of (m_failures (recordFailure t0 ip m)) ip = Some \<lparr>f_count = 1, f_first = t0\<rparr>"
    using assms(2,3) by (simp add: failures_recordFailure Let_def)
  then have "map_of (m_failures ?m) ip = Some \<lparr>f_count = 1 + length ts, f_first = t0\<rparr>"
    using count_failures [OF first, of ts] assms(5) by simp
  with assms(4) have "locked ?m ip t0" by (simp add: locked_def maxFailures_def)
  then have lim: "fst (rateLimited (l_check env) ip ?m)" using assms(7) by (rule locked_limited)
  have "m_user (fold (\<lambda>t. recordFailure t ip) us n) = m_user n \<and> m_hash (fold (\<lambda>t. recordFailure t ip) us n) = m_hash n"
    for us n by (induction us arbitrary: n) auto
  then have "AuthEnabled ?m" using assms(1) by (simp add: AuthEnabled_def)
  with lim show ?thesis by (intro Login_limited) (simp_all only: assms(6))
qed

definition demo_manager :: Manager where
  "demo_manager = NewManager ''admin'' ''hash'' 720"

definition demo_login :: login_env where
  "demo_login = \<lparr>l_ip = ''10.0.0.9'', l_check = 60, l_slot = True, l_fail = 60, l_rand = Some [1, 2],
     l_issue = 60, l_save_ok = True, l_https = False\<rparr>"

lemma five_failures_lock_witness:
  "fst (Login toy_kdf demo_login ''admin'' ''right'' (fold (\<lambda>t. recordFailure t ''10.0.0.9'') [10, 20, 30, 40, 50] demo_manager)) =
     Inl ErrRateLimited"
  by (rule five_failures_lock)
    (simp_all add: demo_manager_def demo_login_def NewManager_def AuthEnabled_def maxFailureEntries_def failWindow_def Let_def)

text \<open>
  A lockout holds against everything else that happens meanwhile: whatever sequence of checks,
  failures from this or other addresses, logouts, sweeps of the counters and other people's logins
  runs before the window closes, the address stays limited.
\<close>
theorem lockout_persists:
  assumes "locked m ip first" and "manager_inv m"
    and "list_all (\<lambda>(t, op). t - first \<le> failWindow \<and> (case op of OIssue ip' _ _ \<Rightarrow> ip' \<noteq> ip | _ \<Rightarrow> True)) ops"
    and "now - first \<le> failWindow"
  shows "fst (rateLimited now ip (fold auth_step ops m))"
proof -
  have "locked (fold auth_step ops m) ip first"
    using assms(1-3)
  proof (induction ops arbitrary: m)
    case (Cons op ops)
    obtain t o' where op: "op = (t, o')" by fastforce
    have "locked (auth_step op m) ip first"
      using Cons.prems by (intro locked_step) (auto simp: op split: auth_op.splits)
    then show ?case using Cons manager_inv_step by simp
  qed simp
  then show ?thesis using assms(4) by (rule locked_limited)
qed

lemma lockout_persists_witness:
  "fst (rateLimited 100 ''10.0.0.9'' (fold auth_step [(60, OReap), (70, OFail ''10.0.0.8''), (80, OCheck ''10.0.0.9'')]
     (fold (\<lambda>t. recordFailure t ''10.0.0.9'') [10, 20, 30, 40, 50] demo_manager)))"
proof (rule lockout_persists [where first = 10])
  let ?m = "fold (\<lambda>t. recordFailure t ''10.0.0.9'') [10, 20, 30, 40, 50] demo_manager"
  have "?m = fold auth_step (map (\<lambda>t. (t, OFail ''10.0.0.9'')) [10, 20, 30, 40, 50]) (NewManager ''admin'' ''hash'' 720)"
    by (simp add: demo_manager_def)
  then show "manager_inv ?m" by (simp only: manager_inv_run)
  show "locked ?m ''10.0.0.9'' 10" by (simp add: demo_manager_def NewManager_def Let_def locked_def
        failures_recordFailure count_failure_def failWindow_def maxFailures_def maxFailureEntries_def)
qed (simp_all add: failWindow_def)

lemma m_global_recordFailure:
  "m_global (recordFailure now ip m) =
     (if f_count (m_global m) = 0 \<or> now - f_first (m_global m) > globalFailWindow
      then \<lparr>f_count = 1, f_first = now\<rparr> else (m_global m)\<lparr>f_count := Suc (f_count (m_global m))\<rparr>)"
  by (simp add: recordFailure_def Let_def split: option.splits)

lemma count_global:
  assumes "0 < f_count (m_global m)" and "list_all (\<lambda>(t, ip). t - f_first (m_global m) \<le> globalFailWindow) fs"
  shows "m_global (fold (\<lambda>(t, ip). recordFailure t ip) fs m) =
    \<lparr>f_count = f_count (m_global m) + length fs, f_first = f_first (m_global m)\<rparr>"
  using assms
proof (induction fs arbitrary: m)
  case (Cons x fs)
  obtain t ip where x: "x = (t, ip)" by fastforce
  show ?case
    using Cons.IH [of "recordFailure t ip m"] Cons.prems by (simp add: x m_global_recordFailure)
qed simp

text \<open>
  The backstop: a hundred failures within five minutes, from any mix of addresses, rate-limit
  every address until the window of the first closes, also addresses never seen before.
\<close>
theorem global_backstop:
  assumes "f_count (m_global m) = 0" and "99 \<le> length fs"
    and "list_all (\<lambda>(t, ip). t - t0 \<le> globalFailWindow) fs" and "now - t0 \<le> globalFailWindow"
  shows "fst (rateLimited now ip (fold (\<lambda>(t, ip). recordFailure t ip) ((t0, ip0) # fs) m))"
proof -
  have one: "m_global (recordFailure t0 ip0 m) = \<lparr>f_count = 1, f_first = t0\<rparr>"
    using assms(1) by (simp add: m_global_recordFailure)
  have "m_global (fold (\<lambda>(t, ip). recordFailure t ip) ((t0, ip0) # fs) m) = \<lparr>f_count = 1 + length fs, f_first = t0\<rparr>"
    using count_global [of "recordFailure t0 ip0 m" fs] assms(3) by (simp add: one)
  with assms(2,4) show ?thesis by (simp add: rateLimited_def Let_def globalMaxFailures_def)
qed

lemma global_backstop_witness:
  "fst (rateLimited 50 ''192.0.2.1'' (fold (\<lambda>(t, ip). recordFailure t ip)
     ((0, ''10.0.0.1'') # replicate 99 (20, ''10.0.0.2'')) demo_manager))"
  by (rule global_backstop) (simp_all add: demo_manager_def NewManager_def Let_def no_failures_def globalFailWindow_def list_all_iff)

subsection \<open>Sessions\<close>

lemma AuthEnabled_cong: "m_user m' = m_user m \<Longrightarrow> m_hash m' = m_hash m \<Longrightarrow> AuthEnabled m' = AuthEnabled m"
  by (simp add: AuthEnabled_def)

lemma fst_Authenticated:
  "fst (Authenticated ok now (Some v) m) \<longleftrightarrow>
     \<not> AuthEnabled m \<or> v \<noteq> '''' \<and> (\<exists>e. map_of (m_sessions m) v = Some e \<and> now \<le> e)"
  by (auto simp: Authenticated_def Let_def split: option.splits)

text \<open>The outcome of a login, once for all branches.\<close>

lemma Login_cases:
  assumes "AuthEnabled m"
  obtains "Login IDKey env u p m = (Inl ErrRateLimited, snd (rateLimited (l_check env) (l_ip env) m))"
  | e where "Login IDKey env u p m = (Inl e, snd (rateLimited (l_check env) (l_ip env) m))"
  | "Login IDKey env u p m = (Inl ErrBadCredentials,
      recordFailure (l_fail env) (l_ip env) (snd (rateLimited (l_check env) (l_ip env) m)))"
  | token where "newToken (l_rand env) = Some token" "u = m_user m" "VerifyPassword IDKey (m_hash m) p = Inr True"
      "Login IDKey env u p m = (Inr (Some (session_cookie token (l_issue env + m_ttl m) (m_ttl m) (l_https env))),
        issue (l_ip env) token (l_issue env + m_ttl m) (l_save_ok env) (snd (rateLimited (l_check env) (l_ip env) m)))"
proof -
  obtain lim m1 where r: "rateLimited (l_check env) (l_ip env) m = (lim, m1)" by fastforce
  have m1: "m_user m1 = m_user m" "m_hash m1 = m_hash m" "m_ttl m1 = m_ttl m"
    using rateLimited_frame(3-5) [of "l_check env" "l_ip env" m] by (simp_all add: r)
  show thesis
  proof (cases lim)
    case True
    with assms r show thesis by (intro that(1)) (simp add: Login_def)
  next
    case False
    show thesis
    proof (cases "verifyPassword IDKey (l_slot env) p m1")
      case (Inl e)
      with assms r False show thesis by (intro that(2) [of e]) (simp add: Login_def)
    next
      case (Inr ok)
      then have v: "VerifyPassword IDKey (m_hash m) p = Inr ok"
        by (auto simp: verifyPassword_def m1 split: if_splits sum.splits)
      show thesis
      proof (cases "u = m_user m \<and> ok")
        case False
        with assms r \<open>\<not> lim\<close> Inr show thesis by (intro that(3)) (auto simp: Login_def m1)
      next
        case True
        show thesis
        proof (cases "newToken (l_rand env)")
          case None
          with assms r \<open>\<not> lim\<close> Inr True show thesis by (intro that(2) [of ErrToken]) (simp add: Login_def m1)
        next
          case (Some token)
          with assms r \<open>\<not> lim\<close> Inr True v show thesis
            by (intro that(4) [of token]) (simp_all add: Login_def m1 Let_def)
        qed
      qed
    qed
  qed
qed

text \<open>
  C8. A session comes into being only through the right credentials: when \<open>Login\<close> returns no
  error the user name matches and the password verifies, the cookie carries the new token, the
  token is authenticated until its expiry, and no other session changes. When it returns an
  error no session changes at all.
\<close>
theorem login_sound:
  assumes "AuthEnabled m" and "Login IDKey env u p m = (res, m')"
  shows "(case res of
      Inl e \<Rightarrow> m_sessions m' = m_sessions m
    | Inr None \<Rightarrow> False
    | Inr (Some c) \<Rightarrow> u = m_user m \<and> VerifyPassword IDKey (m_hash m) p = Inr True \<and>
        map_option hex_encode (l_rand env) = Some (c_Value c) \<and> c_Expires c = l_issue env + m_ttl m \<and>
        map_of (m_sessions m') = (map_of (m_sessions m))(c_Value c \<mapsto> l_issue env + m_ttl m) \<and>
        (c_Value c \<noteq> '''' \<and> now \<le> l_issue env + m_ttl m \<longrightarrow> fst (Authenticated ok now (Some (c_Value c)) m')))"
  using assms(1)
proof (cases rule: Login_cases [of m IDKey env u p])
  case (4 token)
  with assms(2) show ?thesis
    by (auto simp: session_cookie_def newToken_def fst_Authenticated)
qed (use assms(2) in auto)

definition demo_auth :: Manager where
  "demo_auth = NewManager ''admin'' (format_hash ''salt'' (toy_kdf ''pw'' ''salt'' 3 65536 2 32)) 720"

lemma login_sound_witness:
  "m_sessions (snd (Login toy_kdf demo_login ''admin'' ''pw'' (demo_auth\<lparr>m_hash := ''junk''\<rparr>))) = []"
proof -
  obtain m where m: "m = demo_auth\<lparr>m_hash := ''junk''\<rparr>" by blast
  then have fields: "AuthEnabled m" "m_hash m = ''junk''" "m_sessions m = []"
    by (simp_all add: AuthEnabled_def demo_auth_def NewManager_def Let_def)
  have "VerifyPassword toy_kdf ''junk'' ''pw'' = Inl ErrInvalidHash"
    by (simp add: VerifyPassword_def decodeHash_def)
  then have "m_sessions (snd (Login toy_kdf demo_login ''admin'' ''pw'' m)) = []"
    using login_sound [OF fields(1) surjective_pairing, where IDKey = toy_kdf and env = demo_login
        and u = "''admin''" and p = "''pw''" and now = 0 and ok = True] fields(2,3)
    by (auto split: sum.splits option.splits)
  then show ?thesis by (simp only: m)
qed

text \<open>
  A session ends: after \<open>Logout\<close> with a cookie, or once a request has found it expired, that
  token is not authenticated again at any time, even if the clock goes back; other sessions are
  not affected.
\<close>
theorem session_ends:
  assumes "AuthEnabled m"
  shows "\<not> fst (Authenticated ok t (Some v) (snd (Logout ok' (Some v) h m))) \<and>
    (v' \<noteq> v \<longrightarrow> fst (Authenticated ok t (Some v') (snd (Logout ok' (Some v) h m))) = fst (Authenticated ok t (Some v') m)) \<and>
    (\<not> fst (Authenticated ok' t' (Some v) m) \<longrightarrow>
       \<not> fst (Authenticated ok t (Some v) (snd (Authenticated ok' t' (Some v) m)))) \<and>
    (v' \<noteq> v \<longrightarrow> fst (Authenticated ok t (Some v') (snd (Authenticated ok' t' (Some v) m))) = fst (Authenticated ok t (Some v') m))"
proof -
  have log: "AuthEnabled (snd (Logout ok' (Some v) h m))" "AuthEnabled (snd (Authenticated ok' t' (Some v) m))"
    using assms by (simp_all add: AuthEnabled_def)
  have auth: "map_of (m_sessions (snd (Authenticated ok' t' (Some v) m))) =
      (if v \<noteq> '''' \<and> \<not> fst (Authenticated ok' t' (Some v) m) then (map_of (m_sessions m))(v := None) else map_of (m_sessions m))"
    using assms by (auto simp: Authenticated_def Let_def fun_upd_idem_iff split: option.splits)
  show ?thesis
    using assms log auth by (auto simp: fst_Authenticated m_sessions_Logout split: if_splits)
qed

lemma session_ends_witness:
  "\<not> fst (Authenticated True 0 (Some ''t'') (snd (Logout True (Some ''t'') False (demo_auth\<lparr>m_sessions := [(''t'', 9)]\<rparr>))))"
proof -
  have "AuthEnabled (demo_auth\<lparr>m_sessions := [(''t'', 9)]\<rparr>)"
    by (simp add: AuthEnabled_def demo_auth_def NewManager_def Let_def format_hash_def)
  from session_ends [OF this] show ?thesis by blast
qed

subsection \<open>Restarts\<close>

text \<open>What of a session can survive a restart at \<open>now\<close>: its expiry in whole milliseconds, while that lies ahead.\<close>

definition surviving :: "Time \<Rightarrow> Time option \<Rightarrow> Time option" where
  "surviving now x = (case x of
     Some e \<Rightarrow> if UnixMilli e > UnixMilli now then Some (time_of_milli (UnixMilli e)) else None
   | None \<Rightarrow> None)"

definition synced :: "string \<Rightarrow> Time \<Rightarrow> Manager \<Rightarrow> bool" where
  "synced fp now m \<longleftrightarrow> distinct_keys (m_sessions m) \<and>
     (\<exists>st. m_store m = Some st \<and> sessions_ok st \<and> ss_credential st = Some fp \<and>
       (\<forall>later tok. now \<le> later \<longrightarrow> live_map st later tok = surviving later (map_of (m_sessions m) tok)))"

lemma surviving_past: "t \<le> later \<Longrightarrow> e < t \<Longrightarrow> surviving later (Some e) = None"
  using UnixMilli_mono [of e later] by (simp add: surviving_def)

lemma synced_same:
  "synced fp now m \<Longrightarrow> now \<le> t \<Longrightarrow> m_sessions m' = m_sessions m \<Longrightarrow> m_store m' = m_store m \<Longrightarrow> synced fp t m'"
  by (auto simp: synced_def)

lemma synced_drop:
  assumes "synced fp now m" and "now \<le> t"
    and "m_sessions m' = remove_key v (m_sessions m)" and "m_store m' = map_option (DeleteSession v) (m_store m)"
  shows "synced fp t m'"
  using assms by (auto simp: synced_def sq.live_delete sq.invar_delete surviving_def)

lemma synced_step:
  assumes "synced fp now m" and "now \<le> fst op"
  shows "synced fp (fst op) (auth_step op m)"
  using assms
proof (induction op m rule: auth_step.induct)
  case (1 t ip m)
  then show ?case using synced_same [of fp now m t] by simp
next
  case (2 t ip m)
  then show ?case using synced_same [of fp now m t] by simp
next
  case (3 t ip token expiry m)
  then show ?case by (auto simp: synced_def sq.live_save sq.invar_save surviving_def)
next
  case (4 t token m)
  then show ?case
    using synced_same [of fp now m t] synced_drop [of fp now m t _ token]
    by (auto simp: Logout_def Let_def split: if_splits)
next
  case (5 t token m)
  then show ?case
    using synced_same [of fp now m t] synced_drop [of fp now m t _ token]
    by (auto simp: Authenticated_def Let_def split: option.splits)
next
  case (6 t m)
  then obtain st where st: "m_store m = Some st" "sessions_ok st" "ss_credential st = Some fp"
    and d: "distinct_keys (m_sessions m)"
    and eq: "\<And>later tok. now \<le> later \<Longrightarrow> live_map st later tok = surviving later (map_of (m_sessions m) tok)"
    by (auto simp: synced_def)
  have "live_map (DeleteExpired t st) later tok = surviving later (map_of (m_sessions (reap True t m)) tok)"
    if "t \<le> later" for later tok
  proof -
    have live: "live_map (DeleteExpired t st) later tok = surviving later (map_of (m_sessions m) tok)"
      using that 6(2) eq [of later tok] by (simp add: sq.live_delete_expired [OF st(2) that])
    show ?thesis
    proof (cases "map_of (m_sessions m) tok")
      case None
      with live d show ?thesis by (simp add: map_of_keep_if)
    next
      case (Some e)
      with live d surviving_past [OF that, of e] show ?thesis
        by (simp add: map_of_keep_if) (simp add: surviving_def)
    qed
  qed
  with st d show ?case by (simp add: synced_def sq.invar_delete_expired)
qed

lemma synced_run:
  "synced fp now m \<Longrightarrow> sorted (now # map fst ops) \<Longrightarrow>
     synced fp (last (now # map fst ops)) (fold auth_step ops m)"
proof (induction ops arbitrary: now m)
  case (Cons op ops)
  then have "synced fp (fst op) (auth_step op m)" by (intro synced_step) auto
  with Cons show ?case by simp
qed simp

lemma map_of_adopt:
  "distinct_keys live \<Longrightarrow> map_of (fold (\<lambda>(token, e) s. put token e s) live m) t =
     (case map_of live t of Some e \<Rightarrow> Some e | None \<Rightarrow> map_of m t)"
proof (induction live arbitrary: m)
  case (Cons x live)
  obtain k e where x: "x = (k, e)" by fastforce
  with Cons.prems have "distinct_keys live" "k \<notin> set (keys live)" by (simp_all add: distinct_keys_def)
  then show ?case using Cons.IH [of "put k e m"] by (auto simp: x map_of_None_keys [symmetric] split: option.splits)
qed simp

lemma Persist_sessions:
  assumes "Persist sha256 (True, True, ok) now (Some st) m = (m', r)" and "m_sessions m = []"
  shows "map_of (m_sessions m') = live_map (Rebind (credentialFingerprint sha256 (m_hash m)) st) now"
  using assms map_of_adopt [OF distinct_keys_Live, of "Rebind (credentialFingerprint sha256 (m_hash m)) st" now "[]"]
  by (auto simp: Persist_def Let_def live_map_def split: if_splits option.splits)


definition toy_sha :: "string \<Rightarrow> 8 word list" where
  "toy_sha s = map (\<lambda>c. word_of_nat (byte c)) (take 32 (s @ replicate 32 CHR ''x''))"

definition demo_store :: SQLSessionStore where
  "demo_store = \<lparr>ss_sessions = [], ss_credential = Some (credentialFingerprint toy_sha ''hash'')\<rparr>"


text \<open>
  Rotating the credential revokes every session: a process started with a password hash of
  another fingerprint adopts nothing from the store, and the store itself is emptied. When the
  rebinding fails nothing is adopted either.
\<close>
theorem rotation_revokes:
  assumes "sessions_ok st" and "ss_credential st \<noteq> Some (credentialFingerprint sha256 (m_hash m))"
    and "credentialFingerprint sha256 (m_hash m) \<noteq> ''''"
    and "Persist sha256 (rebind_ok, live_ok, expire_ok) now (Some st) m = (m', r)"
  shows "map_of (m_sessions m') = map_of (m_sessions m) \<and>
    (rebind_ok \<longrightarrow> (\<exists>st'. m_store m' = Some st' \<and> ss_sessions st' = [] \<and>
       ss_credential st' = Some (credentialFingerprint sha256 (m_hash m))))"
proof -
  let ?st = "Rebind (credentialFingerprint sha256 (m_hash m)) st"
  have empty: "ss_sessions ?st = []" using assms(2,3) by (simp add: Rebind_sessions)
  then have "Live ?st now = []" by (simp add: Live_def live_rows_def)
  with assms(4) empty show ?thesis
    by (auto simp: Persist_def Let_def DeleteExpired_def sql_delete_where_def split: if_splits)
qed

lemma rotation_revokes_witness:
  "map_of (m_sessions (fst (Persist toy_sha (True, True, True) 0
     (Some (SaveSession ''tok'' 9000000 demo_store)) (NewManager ''admin'' ''other'' 720)))) = Map.empty"
proof -
  have ok: "sessions_ok (SaveSession ''tok'' 9000000 demo_store)"
    by (rule sessions_ok_Save) (simp add: sessions_ok_def demo_store_def sess.invar_empty)
  have hash: "m_hash (NewManager ''admin'' ''other'' 720) = ''other''" "m_sessions (NewManager ''admin'' ''other'' 720) = []"
    by (simp_all add: NewManager_def Let_def)
  have ne: "ss_credential (SaveSession ''tok'' 9000000 demo_store) \<noteq> Some (credentialFingerprint toy_sha (m_hash (NewManager ''admin'' ''other'' 720)))"
    unfolding hash by (simp add: demo_store_def) code_simp
  have fp: "credentialFingerprint toy_sha (m_hash (NewManager ''admin'' ''other'' 720)) \<noteq> ''''"
    unfolding hash by code_simp
  show ?thesis using rotation_revokes [OF ok ne fp surjective_pairing, of True True True 0] hash by simp
qed

end
