(* ===== verification/Logins.thy ===== *)
theory Logins
  imports Manager
begin

text \<open>
  Logins that run at the same time. \<open>Login\<close> of \<open>internal/auth/manager.go\<close> holds the mutex only inside \<open>rateLimited\<close>,
  \<open>recordFailure\<close> and the section that issues the session; the argon2id verification between them runs under the
  channel \<open>hashSlots\<close>. Here a connection goes through these pieces one at a time, and the pieces of several
  connections interleave.
\<close>

record login_try =
  rq_ip :: string
  rq_user :: string
  rq_password :: string
  rq_https :: bool

text \<open>Where a login is: before its check, waiting for a slot, hashing, past the comparison, answered.\<close>

datatype login_phase =
  Arrived | Admitted | Hashing | Judged bool | Answered "(auth_error, Cookie option) result"

record logins =
  ls_manager :: Manager
  ls_conns :: "(login_try \<times> login_phase) list"

definition hashSlots :: nat where "hashSlots = 4"

definition request_of :: "logins \<Rightarrow> nat \<Rightarrow> login_try" where
  "request_of s i = fst (ls_conns s ! i)"

definition login_at :: "logins \<Rightarrow> nat \<Rightarrow> login_phase" where
  "login_at s i = snd (ls_conns s ! i)"

definition to_phase :: "nat \<Rightarrow> login_phase \<Rightarrow> logins \<Rightarrow> logins" where
  "to_phase i ph s = s\<lparr>ls_conns := (ls_conns s)[i := (request_of s i, ph)]\<rparr>"

definition hashing :: "logins \<Rightarrow> nat" where
  "hashing s = length (filter (\<lambda>c. snd c = Hashing) (ls_conns s))"

subsection \<open>The pieces of a login\<close>

definition login_check :: "Time \<Rightarrow> nat \<Rightarrow> logins \<Rightarrow> logins" where
  "login_check now i s =
     (case rateLimited now (rq_ip (request_of s i)) (ls_manager s) of (limited, m) \<Rightarrow>
        to_phase i (if limited then Answered (Inl ErrRateLimited) else Admitted) (s\<lparr>ls_manager := m\<rparr>))"

text \<open>\<open>verifyPassword\<close>: the slot, or the client is gone; then the comparison, after which the slot is free.\<close>

definition login_acquire :: "nat \<Rightarrow> logins \<Rightarrow> logins" where
  "login_acquire i s = to_phase i Hashing s"

definition login_shed :: "nat \<Rightarrow> logins \<Rightarrow> logins" where
  "login_shed i s = to_phase i (Answered (Inl ErrRateLimited)) s"

definition login_hash :: "kdf \<Rightarrow> nat \<Rightarrow> logins \<Rightarrow> logins" where
  "login_hash IDKey i s =
     to_phase i
       (case VerifyPassword IDKey (m_hash (ls_manager s)) (rq_password (request_of s i)) of
          Inl e \<Rightarrow> Answered (Inl (ErrVerify e))
        | Inr passOK \<Rightarrow> Judged (rq_user (request_of s i) = m_user (ls_manager s) \<and> passOK)) s"

definition login_fail :: "Time \<Rightarrow> nat \<Rightarrow> logins \<Rightarrow> logins" where
  "login_fail now i s =
     to_phase i (Answered (Inl ErrBadCredentials)) (s\<lparr>ls_manager := recordFailure now (rq_ip (request_of s i)) (ls_manager s)\<rparr>)"

definition login_issue :: "8 word list option \<Rightarrow> Time \<Rightarrow> bool \<Rightarrow> nat \<Rightarrow> logins \<Rightarrow> logins" where
  "login_issue rand now save_ok i s =
     (let m = ls_manager s; rq = request_of s i in
      case newToken rand of
        None \<Rightarrow> to_phase i (Answered (Inl ErrToken)) s
      | Some token \<Rightarrow>
          let expiry = now + m_ttl m in
          to_phase i (Answered (Inr (Some (session_cookie token expiry (m_ttl m) (rq_https rq)))))
            (s\<lparr>ls_manager := issue (rq_ip rq) token expiry save_ok m\<rparr>))"

subsection \<open>Interleaving\<close>

text \<open>
  A connection that has its answer may send the next request. Between the pieces of logins there are logouts, checks of
  cookies and reaps.
\<close>

inductive login_step :: "kdf \<Rightarrow> logins \<Rightarrow> logins \<Rightarrow> bool" for IDKey where
  next_request: "i < length (ls_conns s) \<Longrightarrow> login_at s i = Answered r \<Longrightarrow>
    login_step IDKey s (s\<lparr>ls_conns := (ls_conns s)[i := (rq, Arrived)]\<rparr>)"
| disabled: "i < length (ls_conns s) \<Longrightarrow> login_at s i = Arrived \<Longrightarrow> \<not> AuthEnabled (ls_manager s) \<Longrightarrow>
    login_step IDKey s (to_phase i (Answered (Inr None)) s)"
| check: "i < length (ls_conns s) \<Longrightarrow> login_at s i = Arrived \<Longrightarrow> AuthEnabled (ls_manager s) \<Longrightarrow>
    login_step IDKey s (login_check now i s)"
| acquire: "i < length (ls_conns s) \<Longrightarrow> login_at s i = Admitted \<Longrightarrow> hashing s < hashSlots \<Longrightarrow>
    login_step IDKey s (login_acquire i s)"
| shed: "i < length (ls_conns s) \<Longrightarrow> login_at s i = Admitted \<Longrightarrow> login_step IDKey s (login_shed i s)"
| hash: "i < length (ls_conns s) \<Longrightarrow> login_at s i = Hashing \<Longrightarrow> login_step IDKey s (login_hash IDKey i s)"
| reject: "i < length (ls_conns s) \<Longrightarrow> login_at s i = Judged False \<Longrightarrow> login_step IDKey s (login_fail now i s)"
| grant: "i < length (ls_conns s) \<Longrightarrow> login_at s i = Judged True \<Longrightarrow> login_step IDKey s (login_issue rand now ok i s)"
| logout: "login_step IDKey s (s\<lparr>ls_manager := snd (Logout ok c https (ls_manager s))\<rparr>)"
| cookie: "login_step IDKey s (s\<lparr>ls_manager := snd (Authenticated ok now c (ls_manager s))\<rparr>)"
| reaper: "login_step IDKey s (s\<lparr>ls_manager := reap ok now (ls_manager s)\<rparr>)"

text \<open>A manager without failures and \<open>n\<close> idle connections; what such a server reaches.\<close>

definition logins_start :: "nat \<Rightarrow> logins \<Rightarrow> bool" where
  "logins_start n s \<longleftrightarrow> m_failures (ls_manager s) = [] \<and> m_global (ls_manager s) = no_failures \<and>
     length (ls_conns s) = n \<and> (\<forall>c \<in> set (ls_conns s). \<exists>r. snd c = Answered r)"

inductive login_reach :: "kdf \<Rightarrow> nat \<Rightarrow> logins \<Rightarrow> bool" for IDKey n where
  start: "logins_start n s \<Longrightarrow> login_reach IDKey n s"
| step: "login_reach IDKey n s \<Longrightarrow> login_step IDKey s s' \<Longrightarrow> login_reach IDKey n s'"

end
