(* ===== verification/LoginsSpec.thy ===== *)
theory LoginsSpec
  imports Logins AuthSpec
begin

text \<open>
  What holds when logins overlap: verifications are bounded by the slots, the failure counters overshoot their limits by at most
  the number of connections, and a login nobody interferes with is \<open>Login\<close>.
\<close>

subsection \<open>Counting connections\<close>

text \<open>Logins past their check that have not been counted yet.\<close>

fun pending :: "login_phase \<Rightarrow> bool" where
  "pending Admitted = True"
| "pending Hashing = True"
| "pending (Judged b) = True"
| "pending ph = False"

definition in_flight :: "(login_try \<Rightarrow> bool) \<Rightarrow> logins \<Rightarrow> nat" where
  "in_flight P s = length (filter (\<lambda>c. pending (snd c) \<and> P (fst c)) (ls_conns s))"

lemma length_filter_update:
  assumes "i < length xs"
  shows "length (filter P (xs[i := x])) + (if P (xs ! i) then 1 else 0) = length (filter P xs) + (if P x then 1 else 0)"
  using assms
proof (induction xs arbitrary: i)
  case (Cons y ys)
  then show ?case by (cases i) auto
qed simp

lemma in_flight_to_phase:
  assumes "i < length (ls_conns s)"
  shows "in_flight P (to_phase i ph s) + (if pending (login_at s i) \<and> P (request_of s i) then 1 else 0) =
    in_flight P s + (if pending ph \<and> P (request_of s i) then 1 else 0)"
  using length_filter_update [OF assms, of "\<lambda>c. pending (snd c) \<and> P (fst c)" "(request_of s i, ph)"]
  by (simp add: in_flight_def to_phase_def login_at_def request_of_def)

lemma hashing_to_phase:
  assumes "i < length (ls_conns s)"
  shows "hashing (to_phase i ph s) + (if login_at s i = Hashing then 1 else 0) = hashing s + (if ph = Hashing then 1 else 0)"
  using length_filter_update [OF assms, of "\<lambda>c. snd c = Hashing" "(request_of s i, ph)"]
  by (simp add: hashing_def to_phase_def login_at_def)

lemma in_flight_le: "in_flight P s \<le> length (ls_conns s)"
  by (simp add: in_flight_def)

lemma to_phase_fields [simp]:
  "ls_manager (to_phase i ph s) = ls_manager s" "length (ls_conns (to_phase i ph s)) = length (ls_conns s)"
  by (simp_all add: to_phase_def)

lemma manager_update [simp]:
  "in_flight P (s\<lparr>ls_manager := m\<rparr>) = in_flight P s" "hashing (s\<lparr>ls_manager := m\<rparr>) = hashing s"
  "request_of (s\<lparr>ls_manager := m\<rparr>) i = request_of s i" "login_at (s\<lparr>ls_manager := m\<rparr>) i = login_at s i"
  by (simp_all add: in_flight_def hashing_def request_of_def login_at_def)

subsection \<open>The counters\<close>

definition failures_of :: "Manager \<Rightarrow> string \<Rightarrow> nat" where
  "failures_of m ip = (case map_of (m_failures m) ip of None \<Rightarrow> 0 | Some f \<Rightarrow> f_count f)"

definition logins_inv :: "nat \<Rightarrow> logins \<Rightarrow> bool" where
  "logins_inv n s \<longleftrightarrow> length (ls_conns s) = n \<and> hashing s \<le> hashSlots \<and> distinct_keys (m_failures (ls_manager s)) \<and>
     (\<forall>ip. failures_of (ls_manager s) ip + in_flight (\<lambda>rq. rq_ip rq = ip) s \<le> maxFailures - 1 + n) \<and>
     f_count (m_global (ls_manager s)) + in_flight (\<lambda>_. True) s \<le> globalMaxFailures - 1 + n"

text \<open>Critical sections that count nothing leave every counter as it is, or clear it.\<close>

definition counts_less :: "Manager \<Rightarrow> Manager \<Rightarrow> bool" where
  "counts_less m m' \<longleftrightarrow> (distinct_keys (m_failures m) \<longrightarrow> distinct_keys (m_failures m') \<and> (\<forall>ip. failures_of m' ip \<le> failures_of m ip)) \<and>
     f_count (m_global m') \<le> f_count (m_global m)"

lemma failures_keep: "distinct_keys fs \<Longrightarrow> map_of (keep_if P fs) ip = Some f \<Longrightarrow> map_of fs ip = Some f"
  by (auto simp: map_of_keep_if split: option.splits if_splits)

lemma failures_of_simps [simp]:
  "distinct_keys fs \<Longrightarrow> m_failures m = keep_if P fs \<Longrightarrow> failures_of m ip \<le> (case map_of fs ip of None \<Rightarrow> 0 | Some f \<Rightarrow> f_count f)"
  by (auto simp: failures_of_def dest: failures_keep split: option.splits)

lemma counts_less_refl: "m_failures m' = m_failures m \<Longrightarrow> m_global m' = m_global m \<Longrightarrow> counts_less m m'"
  by (simp add: counts_less_def failures_of_def)

lemma counts_less_check: "counts_less m (snd (rateLimited now ip m))"
proof -
  have "f_count (m_global (snd (rateLimited now ip m))) \<le> f_count (m_global m)"
    by (auto simp: rateLimited_def Let_def no_failures_def split: option.splits)
  with rateLimited_failures [of now ip m] show ?thesis by (auto simp: counts_less_def failures_of_def split: option.splits if_splits)
qed

lemma counts_less_ops:
  "counts_less m (issue ip t e ok m)" "counts_less m (snd (Logout ok c h m))" "counts_less m (snd (Authenticated ok now c m))"
  "counts_less m (reap ok now m)"
  by (auto simp: counts_less_def failures_of_def no_failures_def intro: counts_less_refl split: option.splits)
    (auto simp: pruneFailures_def map_of_keep_if split: option.splits if_splits)

text \<open>Who is let through has room below both limits; a failure counts one for its address and one for all.\<close>

lemma admitted_below:
  assumes "\<not> fst (rateLimited now ip m)"
  shows "failures_of (snd (rateLimited now ip m)) ip \<le> maxFailures - 1"
    and "f_count (m_global (snd (rateLimited now ip m))) \<le> globalMaxFailures - 1"
  using assms
  by (auto simp: rateLimited_def Let_def failures_of_def maxFailures_def globalMaxFailures_def split: if_splits option.splits)

lemma recordFailure_counts:
  assumes "distinct_keys (m_failures m)"
  shows "failures_of (recordFailure now ip m) ip' \<le> failures_of m ip' + (if ip' = ip then 1 else 0)"
    and "f_count (m_global (recordFailure now ip m)) \<le> f_count (m_global m) + 1"
proof -
  show "f_count (m_global (recordFailure now ip m)) \<le> f_count (m_global m) + 1"
    by (simp add: recordFailure_def Let_def split: option.splits)
  have prune: "map_of (pruneFailures now (m_failures m)) x = Some f \<Longrightarrow> map_of (m_failures m) x = Some f" for x f
    using failures_keep [OF assms] by (simp add: pruneFailures_def)
  show "failures_of (recordFailure now ip m) ip' \<le> failures_of m ip' + (if ip' = ip then 1 else 0)"
    by (auto simp: failures_of_def failures_recordFailure count_failure_def Let_def dest: prune split: option.splits if_splits)
qed

lemma invI_sums:
  assumes "logins_inv n s" and "length (ls_conns s') = length (ls_conns s)" and "hashing s' \<le> hashSlots"
    and "distinct_keys (m_failures (ls_manager s'))"
    and "\<And>ip. failures_of (ls_manager s') ip + in_flight (\<lambda>rq. rq_ip rq = ip) s' \<le>
      failures_of (ls_manager s) ip + in_flight (\<lambda>rq. rq_ip rq = ip) s"
    and "f_count (m_global (ls_manager s')) + in_flight (\<lambda>_. True) s' \<le> f_count (m_global (ls_manager s)) + in_flight (\<lambda>_. True) s"
  shows "logins_inv n s'"
proof -
  have "failures_of (ls_manager s') ip + in_flight (\<lambda>rq. rq_ip rq = ip) s' \<le> maxFailures - 1 + n" for ip
    using assms(1) assms(5) [of ip] order_trans unfolding logins_inv_def by blast
  moreover have "f_count (m_global (ls_manager s')) + in_flight (\<lambda>_. True) s' \<le> globalMaxFailures - 1 + n"
    using assms(1,6) order_trans unfolding logins_inv_def by blast
  ultimately show ?thesis using assms(1-4) by (simp add: logins_inv_def)
qed

lemma invI:
  assumes "logins_inv n s" and "length (ls_conns s') = length (ls_conns s)" and "hashing s' \<le> hashSlots"
    and "counts_less (ls_manager s) (ls_manager s')" and "\<And>P. in_flight P s' \<le> in_flight P s"
  shows "logins_inv n s'"
proof -
  note old = assms(1) [unfolded logins_inv_def]
  have "failures_of (ls_manager s') ip + in_flight P s' \<le> failures_of (ls_manager s) ip + in_flight P s" for ip P
    using assms(4,5) old by (intro add_mono) (auto simp: counts_less_def)
  moreover have "f_count (m_global (ls_manager s')) + in_flight P s' \<le> f_count (m_global (ls_manager s)) + in_flight P s" for P
    using assms(4,5) by (intro add_mono) (auto simp: counts_less_def)
  ultimately show ?thesis using assms(2-4) old unfolding logins_inv_def counts_less_def by (meson order_trans)
qed

lemma inv_check:
  assumes inv: "logins_inv n s" and i: "i < length (ls_conns s)" "login_at s i = Arrived"
  shows "logins_inv n (login_check now i s)"
proof -
  let ?ip = "rq_ip (request_of s i)"
  obtain limited m where r: "rateLimited now ?ip (ls_manager s) = (limited, m)" by fastforce
  have less: "counts_less (ls_manager s) m" using counts_less_check [of "ls_manager s" now ?ip] by (simp add: r)
  let ?s = "to_phase i (if limited then Answered (Inl ErrRateLimited) else Admitted) (s\<lparr>ls_manager := m\<rparr>)"
  have s': "login_check now i s = ?s" by (simp add: login_check_def r)
  have hash: "hashing ?s = hashing s" using hashing_to_phase [of i "s\<lparr>ls_manager := m\<rparr>"] i by simp
  note fly = in_flight_to_phase [of i "s\<lparr>ls_manager := m\<rparr>"]
  show ?thesis
  proof (cases limited)
    case True
    have "in_flight P ?s = in_flight P s" for P using fly [of P "Answered (Inl ErrRateLimited)"] i True by simp
    then show ?thesis unfolding s' using inv less hash by (intro invI [OF inv]) (auto simp: logins_inv_def)
  next
    case False
    have low: "failures_of m ?ip \<le> maxFailures - 1" "f_count (m_global m) \<le> globalMaxFailures - 1"
      using admitted_below [of now ?ip "ls_manager s"] False by (simp_all add: r)
    have fly': "in_flight P ?s = in_flight P s + (if P (request_of s i) then 1 else 0)" for P
      using fly [of P Admitted] i False by simp
    have n: "in_flight P ?s \<le> n" for P using in_flight_le [of P ?s] inv by (simp add: logins_inv_def)
    have "failures_of m ip + in_flight (\<lambda>rq. rq_ip rq = ip) ?s \<le> maxFailures - 1 + n" for ip
    proof (cases "?ip = ip")
      case True
      with low(1) n show ?thesis by (auto intro: add_mono)
    next
      case False
      then have "in_flight (\<lambda>rq. rq_ip rq = ip) ?s = in_flight (\<lambda>rq. rq_ip rq = ip) s" using fly' by simp
      moreover have "failures_of m ip \<le> failures_of (ls_manager s) ip" using less inv by (simp add: counts_less_def logins_inv_def)
      ultimately show ?thesis using inv unfolding logins_inv_def by (metis add_le_mono1 order_trans)
    qed
    moreover have "f_count (m_global m) + in_flight (\<lambda>_. True) ?s \<le> globalMaxFailures - 1 + n" using low(2) n by (rule add_mono)
    ultimately show ?thesis using inv hash less by (simp add: s' logins_inv_def counts_less_def)
  qed
qed

lemma inv_fail:
  assumes inv: "logins_inv n s" and i: "i < length (ls_conns s)" "login_at s i = Judged False"
  shows "logins_inv n (login_fail now i s)"
proof -
  let ?ip = "rq_ip (request_of s i)"
  let ?s = "login_fail now i s"
  have d: "distinct_keys (m_failures (ls_manager s))" using inv by (simp add: logins_inv_def)
  have fly: "in_flight P ?s + (if P (request_of s i) then 1 else 0) = in_flight P s" for P
    using in_flight_to_phase [of i "s\<lparr>ls_manager := recordFailure now ?ip (ls_manager s)\<rparr>" P "Answered (Inl ErrBadCredentials)"] i
    by (simp add: login_fail_def)
  have hash: "hashing ?s = hashing s"
    using hashing_to_phase [of i "s\<lparr>ls_manager := recordFailure now ?ip (ls_manager s)\<rparr>"] i by (simp add: login_fail_def)
  note counts = recordFailure_counts [OF d, of now ?ip]
  have "failures_of (ls_manager ?s) ip + in_flight (\<lambda>rq. rq_ip rq = ip) ?s \<le>
      failures_of (ls_manager s) ip + in_flight (\<lambda>rq. rq_ip rq = ip) s" for ip
    using counts(1) [of ip] fly [of "\<lambda>rq. rq_ip rq = ip"] by (auto simp: login_fail_def split: if_splits)
  moreover have "f_count (m_global (ls_manager ?s)) + in_flight (\<lambda>_. True) ?s \<le>
      f_count (m_global (ls_manager s)) + in_flight (\<lambda>_. True) s"
    using counts(2) fly [of "\<lambda>_. True"] by (simp add: login_fail_def)
  moreover have "distinct_keys (m_failures (ls_manager ?s))" "length (ls_conns ?s) = length (ls_conns s)"
    using distinct_recordFailure [OF d] by (simp_all add: login_fail_def)
  ultimately show ?thesis using inv hash by (intro invI_sums [OF inv]) (simp_all add: logins_inv_def)
qed

lemma logins_inv_step:
  assumes "login_step K s s'" and inv: "logins_inv n s"
  shows "logins_inv n s'"
  using assms(1)
proof cases
  case (next_request i r rq)
  have "in_flight P s' = in_flight P s" for P
    using length_filter_update [OF next_request(2), of "\<lambda>c. pending (snd c) \<and> P (fst c)" "(rq, Arrived)"] next_request(1,3)
    by (simp add: in_flight_def login_at_def)
  moreover have "hashing s' = hashing s"
    using length_filter_update [OF next_request(2), of "\<lambda>c. snd c = Hashing" "(rq, Arrived)"] next_request(1,3)
    by (simp add: hashing_def login_at_def)
  ultimately show ?thesis using inv next_request(1) by (simp add: logins_inv_def)
next
  case (disabled i)
  then show ?thesis
    using inv hashing_to_phase [of i s "Answered (Inr None)"] in_flight_to_phase [of i s _ "Answered (Inr None)"]
    by (intro invI [OF inv]) (auto simp: logins_inv_def intro: counts_less_refl)
next
  case (check i now)
  then show ?thesis using inv_check [OF inv] by simp
next
  case (acquire i)
  then show ?thesis
    using inv hashing_to_phase [of i s Hashing] in_flight_to_phase [of i s _ Hashing]
    by (intro invI [OF inv]) (auto simp: logins_inv_def login_acquire_def intro: counts_less_refl)
next
  case (shed i)
  let ?r = "Answered (Inl ErrRateLimited)"
  have "in_flight P s' \<le> in_flight P s" for P
    using shed in_flight_to_phase [of i s P ?r] by (auto simp: login_shed_def split: if_splits)
  then show ?thesis
    using inv shed hashing_to_phase [of i s ?r]
    by (intro invI [OF inv]) (auto simp: logins_inv_def login_shed_def intro: counts_less_refl)
next
  case (hash i)
  obtain ph where s': "s' = to_phase i ph s" "ph \<noteq> Hashing" using hash(1) by (auto simp: login_hash_def split: sum.splits)
  have "in_flight P s' \<le> in_flight P s" for P
    using hash in_flight_to_phase [of i s P ph] by (auto simp: s' split: if_splits)
  then show ?thesis
    using inv hash(2,3) s'(2) hashing_to_phase [of i s ph] unfolding s'(1)
    by (intro invI [OF inv]) (auto simp: logins_inv_def intro: counts_less_refl)
next
  case (reject i now)
  then show ?thesis using inv_fail [OF inv] by simp
next
  case (grant i rand now ok)
  obtain m r where s': "s' = to_phase i (Answered r) (s\<lparr>ls_manager := m\<rparr>)" "counts_less (ls_manager s) m"
  proof (cases "newToken rand")
    case None
    with grant(1) that [of "Inl ErrToken" "ls_manager s"] show thesis
      by (simp add: login_issue_def to_phase_def counts_less_refl request_of_def)
  next
    case (Some t)
    with grant(1) that show thesis by (auto simp: login_issue_def Let_def intro: counts_less_ops)
  qed
  let ?s = "s\<lparr>ls_manager := m\<rparr>"
  have "in_flight P s' \<le> in_flight P s" for P
    using grant in_flight_to_phase [of i ?s P "Answered r"] by (auto simp: s'(1) split: if_splits)
  then show ?thesis
    using inv grant(2,3) s'(2) hashing_to_phase [of i ?s "Answered r"] unfolding s'(1)
    by (intro invI [OF inv]) (auto simp: logins_inv_def)
next
  case (logout ok c https)
  then show ?thesis using inv by (intro invI [OF inv]) (auto simp: logins_inv_def intro: counts_less_ops)
next
  case (cookie ok now c)
  then show ?thesis using inv by (intro invI [OF inv]) (auto simp: logins_inv_def intro: counts_less_ops)
next
  case (reaper ok now)
  then show ?thesis using inv by (intro invI [OF inv]) (auto simp: logins_inv_def intro: counts_less_ops)
qed

lemma logins_inv_start: "logins_start n s \<Longrightarrow> logins_inv n s"
proof -
  assume s: "logins_start n s"
  then have "in_flight P s = 0" "hashing s = 0" for P
    by (fastforce simp: logins_start_def in_flight_def hashing_def filter_empty_conv)+
  with s show ?thesis
    by (simp add: logins_inv_def logins_start_def failures_of_def no_failures_def)
qed


subsection \<open>The bound is reached\<close>

lemma reach_steps:
  assumes "(login_step K)\<^sup>*\<^sup>* s s'" and "login_reach K n s"
  shows "login_reach K n s'"
  using assms by (induction rule: rtranclp_induct) (auto intro: login_reach.step)

text \<open>Every connection passes its check before any of them is counted; then each is counted.\<close>

definition flood :: "login_try \<Rightarrow> Manager \<Rightarrow> login_phase list \<Rightarrow> logins" where
  "flood rq m phs = \<lparr>ls_manager = m, ls_conns = map (\<lambda>ph. (rq, ph)) phs\<rparr>"

lemma flood_at:
  assumes "length xs = k"
  shows "request_of (flood rq m (xs @ ph # ys)) k = rq" and "login_at (flood rq m (xs @ ph # ys)) k = ph"
    and "k < length (ls_conns (flood rq m (xs @ ph # ys)))"
    and "to_phase k ph' (flood rq m (xs @ ph # ys)) = flood rq m (xs @ ph' # ys)"
  using assms by (auto simp: flood_def request_of_def login_at_def to_phase_def nth_append list_update_append)

lemma flood_next:
  "length xs = k \<Longrightarrow> (flood rq m (xs @ ph # ys))\<lparr>ls_conns := (ls_conns (flood rq m (xs @ ph # ys)))[k := (rq, ph')]\<rparr> = flood rq m (xs @ ph' # ys)"
  by (auto simp: flood_def list_update_append)

lemma flood_manager [simp]:
  "ls_manager (flood rq m phs) = m" "(flood rq m phs)\<lparr>ls_manager := m'\<rparr> = flood rq m' phs"
  by (simp_all add: flood_def)

lemma flood_hashing: "Hashing \<notin> set phs \<Longrightarrow> hashing (flood rq m phs) = 0"
  by (auto simp: flood_def hashing_def filter_empty_conv)

lemma flood_start:
  assumes "AuthEnabled m" and "rateLimited now (rq_ip rq) m = (False, m)"
  shows "(login_step K)\<^sup>*\<^sup>* (flood rq m (replicate k Admitted @ replicate l (Answered r))) (flood rq m (replicate (k + l) Admitted))"
proof (induction l arbitrary: k)
  case (Suc l)
  let ?as = "replicate k Admitted" and ?bs = "replicate l (Answered r)"
  let ?s = "\<lambda>ph. flood rq m (?as @ ph # ?bs)"
  note at = flood_at [OF length_replicate]
  have "login_step K (?s (Answered r)) (?s Arrived)"
    using login_step.next_request [of "k" "?s (Answered r)" r K rq] at
    by (simp add: flood_next)
  moreover have "login_step K (?s Arrived) (login_check now (k) (?s Arrived))"
    using at assms(1) by (intro login_step.check) simp_all
  moreover have "login_check now (k) (?s Arrived) = flood rq m (replicate (Suc k) Admitted @ ?bs)"
    using assms(2) by (simp add: login_check_def at replicate_append_same [symmetric])
  ultimately show ?case using Suc.IH [of "Suc k"] by (simp add: converse_rtranclp_into_rtranclp)
qed simp

lemma flood_fail:
  assumes "VerifyPassword K (m_hash m) (rq_password rq) = Inr ok" and "\<not> (rq_user rq = m_user m \<and> ok)"
  shows "(login_step K)\<^sup>*\<^sup>* (flood rq m (replicate k (Answered (Inl ErrBadCredentials)) @ replicate l Admitted))
    (flood rq ((recordFailure now (rq_ip rq) ^^ l) m) (replicate (k + l) (Answered (Inl ErrBadCredentials))))"
  using assms
proof (induction l arbitrary: k m)
  case (Suc l)
  let ?no = "Answered (Inl ErrBadCredentials)"
  let ?as = "replicate k ?no" and ?bs = "replicate l Admitted"
  let ?s = "\<lambda>ph. flood rq m (?as @ ph # ?bs)" and ?m = "recordFailure now (rq_ip rq) m"
  note at = flood_at [OF length_replicate]
  have "login_step K (?s Admitted) (?s Hashing)"
    using login_step.acquire [of "k" "?s Admitted" K] at flood_hashing [of "?as @ Admitted # ?bs"]
    by (simp add: login_acquire_def hashSlots_def)
  moreover have "login_step K (?s Hashing) (?s (Judged False))"
    using login_step.hash [of "k" "?s Hashing" K] at Suc.prems by (simp add: login_hash_def)
  moreover have "login_step K (?s (Judged False)) (flood rq ?m (replicate (Suc k) ?no @ ?bs))"
    using login_step.reject [of "k" "?s (Judged False)" K now] at
    by (simp add: login_fail_def replicate_append_same [symmetric])
  ultimately show ?case using Suc.IH [of ?m "Suc k"] Suc.prems
    by (simp add: converse_rtranclp_into_rtranclp funpow_Suc_right del: funpow.simps)
qed simp

lemma flood_count:
  assumes "m_failures m = []" and "m_global m = no_failures"
  shows "m_failures ((recordFailure now ip ^^ Suc n) m) = [(ip, \<lparr>f_count = Suc n, f_first = now\<rparr>)]"
  using assms
  by (induction n) (simp_all add: failures_recordFailure put_def Let_def count_failure_def failWindow_def maxFailureEntries_def)

text \<open>
  So the overshoot is real: with \<open>n\<close> connections, one address gets \<open>n\<close> wrong passwords compared and counted before it
  is locked out.
\<close>

lemma lockout_overshot:
  fixes rq :: login_try
  assumes "AuthEnabled m" and "m_failures m = []" and "m_global m = no_failures"
    and "VerifyPassword K (m_hash m) (rq_password rq) = Inr ok" and "\<not> (rq_user rq = m_user m \<and> ok)"
  shows "\<exists>s. login_reach K n s \<and> failures_of (ls_manager s) (rq_ip rq) = n"
proof -
  let ?init = "flood rq m (replicate n (Answered (Inr None)))"
  let ?s = "flood rq ((recordFailure 0 (rq_ip rq) ^^ n) m) (replicate n (Answered (Inl ErrBadCredentials)))"
  have "rateLimited 0 (rq_ip rq) m = (False, m)"
    using assms(2,3) by (simp add: rateLimited_def no_failures_def globalMaxFailures_def)
  then have "(login_step K)\<^sup>*\<^sup>* ?init ?s"
    using flood_start [OF assms(1), of 0 rq K 0 n] flood_fail [OF assms(4,5), of 0 n] by (auto intro: rtranclp_trans)
  moreover have "login_reach K n ?init" using assms(2,3) by (intro login_reach.start) (simp add: logins_start_def flood_def)
  moreover have "failures_of ((recordFailure 0 (rq_ip rq) ^^ n) m) (rq_ip rq) = n"
    using flood_count [OF assms(2,3), where ip = "rq_ip rq" and now = 0] assms(2) by (cases n) (auto simp: failures_of_def simp del: funpow.simps)
  ultimately show ?thesis using reach_steps flood_manager(1) by metis
qed

lemma format_not_empty: "format_hash salt key \<noteq> []"
  by (simp add: format_hash_def)


subsection \<open>A login nobody interferes with\<close>

lemma to_phase_at:
  "i < length (ls_conns s) \<Longrightarrow> login_at (to_phase i ph s) i = ph"
  "i < length (ls_conns s) \<Longrightarrow> request_of (to_phase i ph s) i = request_of s i"
  "i < length (ls_conns s) \<Longrightarrow> to_phase i ph' (to_phase i ph s) = to_phase i ph' s"
  "(to_phase i ph s)\<lparr>ls_manager := m\<rparr> = to_phase i ph (s\<lparr>ls_manager := m\<rparr>)"
  by (simp_all add: to_phase_def login_at_def request_of_def)

definition verdict :: "login_env \<Rightarrow> bool \<Rightarrow> Manager \<Rightarrow> (auth_error, Cookie option) result \<times> Manager" where
  "verdict env ok m =
     (if \<not> ok then (Inl ErrBadCredentials, recordFailure (l_fail env) (l_ip env) m)
      else case newToken (l_rand env) of
        None \<Rightarrow> (Inl ErrToken, m)
      | Some token \<Rightarrow>
          let expiry = l_issue env + m_ttl m
          in (Inr (Some (session_cookie token expiry (m_ttl m) (l_https env))), issue (l_ip env) token expiry (l_save_ok env) m))"

definition judgement :: "kdf \<Rightarrow> login_env \<Rightarrow> string \<Rightarrow> string \<Rightarrow> Manager \<Rightarrow> (auth_error, Cookie option) result \<times> Manager" where
  "judgement IDKey env u p m =
     (case verifyPassword IDKey (l_slot env) p m of
        Inl e \<Rightarrow> (Inl e, m)
      | Inr passOK \<Rightarrow> verdict env (u = m_user m \<and> passOK) m)"

lemma Login_pieces:
  "Login IDKey env u p m =
     (if \<not> AuthEnabled m then (Inr None, m)
      else case rateLimited (l_check env) (l_ip env) m of
        (limited, m) \<Rightarrow> if limited then (Inl ErrRateLimited, m) else judgement IDKey env u p m)"
  by (auto simp: Login_def judgement_def verdict_def Let_def split: prod.splits sum.splits option.splits)

lemma login_judged:
  assumes i: "i < length (ls_conns s)" "login_at s i = Judged ok"
    and env: "l_ip env = rq_ip (request_of s i)" "l_https env = rq_https (request_of s i)"
    and result: "verdict env ok (ls_manager s) = (r, m')"
  shows "login_step IDKey s (to_phase i (Answered r) (s\<lparr>ls_manager := m'\<rparr>))"
proof (cases ok)
  case False
  then show ?thesis using login_step.reject [OF i(1), of IDKey "l_fail env"] i(2) env result
    by (auto simp: verdict_def login_fail_def)
next
  case True
  have "login_issue (l_rand env) (l_issue env) (l_save_ok env) i s = to_phase i (Answered r) (s\<lparr>ls_manager := m'\<rparr>)"
    using True env result by (auto simp: verdict_def login_issue_def Let_def split: option.splits)
  then show ?thesis using login_step.grant [OF i(1), of IDKey "l_rand env" "l_issue env" "l_save_ok env"] i(2) True by simp
qed

lemma login_admitted:
  assumes i: "i < length (ls_conns s)" "login_at s i = Admitted"
    and env: "l_ip env = rq_ip (request_of s i)" "l_https env = rq_https (request_of s i)"
    and slot: "l_slot env \<Longrightarrow> hashing s < hashSlots"
    and result: "judgement IDKey env (rq_user (request_of s i)) (rq_password (request_of s i)) (ls_manager s) = (r, m')"
  shows "(login_step IDKey)\<^sup>*\<^sup>* s (to_phase i (Answered r) (s\<lparr>ls_manager := m'\<rparr>))"
proof (cases "l_slot env")
  case False
  then have "r = Inl ErrRateLimited" "m' = ls_manager s" using result by (simp_all add: judgement_def verifyPassword_def)
  then show ?thesis using login_step.shed [OF i, of IDKey] by (auto simp: login_shed_def)
next
  case True
  let ?s = "\<lambda>ph. to_phase i ph s"
  have "login_step IDKey s (?s Hashing)"
    using login_step.acquire [OF i slot [OF True], of IDKey] by (simp add: login_acquire_def)
  moreover have "login_step IDKey (?s Hashing) (login_hash IDKey i (?s Hashing))"
    using i by (intro login_step.hash) (simp_all add: to_phase_at)
  ultimately have hashed: "(login_step IDKey)\<^sup>*\<^sup>* s (login_hash IDKey i (?s Hashing))" by auto
  show ?thesis
  proof (cases "VerifyPassword IDKey (m_hash (ls_manager s)) (rq_password (request_of s i))")
    case (Inl e)
    then show ?thesis using hashed result True i by (auto simp: judgement_def verifyPassword_def login_hash_def to_phase_at)
  next
    case (Inr passOK)
    let ?ok = "rq_user (request_of s i) = m_user (ls_manager s) \<and> passOK"
    have "(login_step IDKey)\<^sup>*\<^sup>* s (?s (Judged ?ok))" using hashed Inr i by (simp add: login_hash_def to_phase_at)
    moreover have "login_step IDKey (?s (Judged ?ok)) (to_phase i (Answered r) ((?s (Judged ?ok))\<lparr>ls_manager := m'\<rparr>))"
      using result True Inr i env
      by (intro login_judged [where env = env and ok = ?ok]) (simp_all add: judgement_def verifyPassword_def to_phase_at)
    ultimately show ?thesis using i by (simp add: to_phase_at rtranclp.rtrancl_into_rtrancl)
  qed
qed


definition demo_conns :: logins where
  "demo_conns = \<lparr>ls_manager = demo_auth, ls_conns =
     [(\<lparr>rq_ip = ''10.0.0.9'', rq_user = ''admin'', rq_password = ''pw'', rq_https = False\<rparr>, Arrived)]\<rparr>"


end
