(* ===== verification/Netip.thy ===== *)
theory Netip
  imports JobTypes
begin

unbundle bit_operations_syntax

text \<open>
  The part of the standard library's \<open>net/netip\<close> the program uses: parsing and printing of
  addresses, IPv4-mapped addresses, prefixes and containment. An IPv6 address carries its zone,
  empty when there is none.
\<close>

datatype Addr = V4 "32 word" | V6 "128 word" string

subsection \<open>Parsing\<close>

definition parse_octet :: "string \<Rightarrow> int option" where
  "parse_octet s =
     (if s = [] \<or> (length s > 1 \<and> hd s = CHR ''0'') \<or> length s > 3 then None
      else case digits_val 0 s of None \<Rightarrow> None | Some n \<Rightarrow> if n > 255 then None else Some (int n))"

text \<open>Four octets separated by dots: their value. An octet longer than three digits is above 255 or has a leading zero.\<close>

definition parse_ipv4_fields :: "string \<Rightarrow> int option" where
  "parse_ipv4_fields s =
     (case map parse_octet (Split s CHR ''.'') of
        [Some a, Some b, Some c, Some d] \<Rightarrow> Some (((a * 256 + b) * 256 + c) * 256 + d)
      | _ \<Rightarrow> None)"

definition hex_val :: "char \<Rightarrow> int option" where
  "hex_val c =
     (if is_digit c then Some (int (byte c) - 48)
      else if 97 \<le> byte c \<and> byte c \<le> 102 then Some (int (byte c) - 87)
      else if 65 \<le> byte c \<and> byte c \<le> 70 then Some (int (byte c) - 55)
      else None)"

definition is_hex :: "char \<Rightarrow> bool" where
  "is_hex c \<longleftrightarrow> hex_val c \<noteq> None"

definition hex_num :: "string \<Rightarrow> int" where
  "hex_num s = foldl (\<lambda>acc c. acc * 16 + the (hex_val c)) 0 s"

text \<open>
  The loop of \<open>parseIPv6\<close>: \<open>gs\<close> are the 16-bit groups read so far and \<open>ell\<close> the number of groups
  before \<open>::\<close>, if it was seen. The result is the groups and that number.
\<close>

function parse_groups :: "int list \<Rightarrow> nat option \<Rightarrow> string \<Rightarrow> (int list \<times> nat option) option" where
  "parse_groups gs ell s =
     (if length gs \<ge> 8 then (if s = [] then Some (gs, ell) else None)
      else
        let h = takeWhile is_hex s; r = dropWhile is_hex s in
        if h = [] \<or> length h > 4 then None
        else if r \<noteq> [] \<and> hd r = CHR ''.'' then
          (if ell = None \<and> length gs \<noteq> 6 then None
           else if length gs + 2 > 8 then None
           else case parse_ipv4_fields s of
             None \<Rightarrow> None
           | Some v \<Rightarrow> Some (gs @ [v div 65536, v mod 65536], ell))
        else
          let gs' = gs @ [hex_num h] in
          if r = [] then Some (gs', ell)
          else if hd r \<noteq> CHR '':'' \<or> tl r = [] then None
          else if hd (tl r) = CHR '':'' then
            (if ell \<noteq> None then None
             else if tl (tl r) = [] then Some (gs', Some (length gs'))
             else parse_groups gs' (Some (length gs')) (tl (tl r)))
          else parse_groups gs' ell (tl r))"
  by pat_completeness auto
termination
proof (relation "measure (\<lambda>(gs, ell, s). 8 - length gs)")
qed auto

declare parse_groups.simps [simp del]

lemmas parse_groups_code [code] = parse_groups.simps [of gs ell "[]" for gs ell] parse_groups.simps [of gs ell "c # s" for gs ell c s]

definition groups_value :: "int list \<Rightarrow> int" where
  "groups_value gs = foldl (\<lambda>acc g. acc * 65536 + g) 0 gs"

text \<open>Filling the gap of \<open>::\<close>, which must stand for at least one group.\<close>

definition expand_groups :: "int list \<times> nat option \<Rightarrow> int list option" where
  "expand_groups p =
     (case p of (gs, ell) \<Rightarrow>
        if length gs < 8 then
          (case ell of None \<Rightarrow> None
           | Some k \<Rightarrow> Some (take k gs @ replicate (8 - length gs) 0 @ drop k gs))
        else if ell \<noteq> None then None else Some gs)"

definition parse_ipv6 :: "string \<Rightarrow> Addr option" where
  "parse_ipv6 input =
     (let (s, zone, found) = Cut input CHR ''%'' in
      if found \<and> zone = '''' then None
      else
        let (ell, s') = (if HasPrefix s ''::'' then (Some 0, drop 2 s) else (None, s)) in
        if ell \<noteq> None \<and> s' = '''' then Some (V6 0 zone)
        else case parse_groups [] ell s' of
          None \<Rightarrow> None
        | Some p \<Rightarrow> map_option (\<lambda>gs. V6 (word_of_int (groups_value gs)) zone) (expand_groups p))"

definition ParseAddr :: "string \<Rightarrow> Addr option" where
  "ParseAddr s =
     (case find (\<lambda>c. c = CHR ''.'' \<or> c = CHR '':'' \<or> c = CHR ''%'') s of
        None \<Rightarrow> None
      | Some c \<Rightarrow>
          if c = CHR ''.'' then map_option (\<lambda>n. V4 (word_of_int n)) (parse_ipv4_fields s)
          else if c = CHR '':'' then parse_ipv6 s
          else None)"

subsection \<open>Addresses\<close>

fun Is4 :: "Addr \<Rightarrow> bool" where
  "Is4 (V4 _) = True" | "Is4 (V6 _ _) = False"

fun Is6 :: "Addr \<Rightarrow> bool" where
  "Is6 (V4 _) = False" | "Is6 (V6 _ _) = True"

fun BitLen :: "Addr \<Rightarrow> nat" where
  "BitLen (V4 _) = 32" | "BitLen (V6 _ _) = 128"

fun Is4In6 :: "Addr \<Rightarrow> bool" where
  "Is4In6 (V4 _) = False"
| "Is4In6 (V6 a _) = (drop_bit 32 a = 0xffff)"

fun Unmap :: "Addr \<Rightarrow> Addr" where
  "Unmap (V6 a z) = (if Is4In6 (V6 a z) then V4 (ucast a) else V6 a z)"
| "Unmap a = a"

fun Zone :: "Addr \<Rightarrow> string" where
  "Zone (V4 _) = ''''" | "Zone (V6 _ z) = z"

definition octet_string :: "32 word \<Rightarrow> nat \<Rightarrow> string" where
  "octet_string a k = itoa_nat (unat (drop_bit k a AND 255))"

definition ipv4_string :: "32 word \<Rightarrow> string" where
  "ipv4_string a = Join (map (octet_string a) [24, 16, 8, 0]) ''.''"

definition groups :: "128 word \<Rightarrow> int list" where
  "groups a = map (\<lambda>k. uint (drop_bit k a AND 65535)) [112, 96, 80, 64, 48, 32, 16, 0]"

function hex_int :: "int \<Rightarrow> string" where
  "hex_int n = (if n < 16 then [hex_digit (nat n)] else hex_int (n div 16) @ [hex_digit (nat (n mod 16))])"
  by pat_completeness auto
termination
  by (relation "measure nat") auto

declare hex_int.simps [simp del]

text \<open>The longest run of zero groups, at least two of them, the first of equal ones: start and length.\<close>

definition zero_run :: "int list \<Rightarrow> nat \<times> nat" where
  "zero_run gs = foldl (\<lambda>(st, len) i.
     let l = length (takeWhile (\<lambda>g. g = 0) (drop i gs)) in if l \<ge> 2 \<and> l > len then (i, l) else (st, len))
     (0, 0) [0..<length gs]"

definition ipv6_string :: "128 word \<Rightarrow> string" where
  "ipv6_string a =
     (let gs = groups a; (st, len) = zero_run gs; hex = (\<lambda>xs. Join (map hex_int xs) '':'')
      in if len = 0 then hex gs else hex (take st gs) @ ''::'' @ hex (drop (st + len) gs))"

fun String :: "Addr \<Rightarrow> string" where
  "String (V4 a) = ipv4_string a"
| "String (V6 a z) =
     (if Is4In6 (V6 a z) then ''::ffff:'' @ ipv4_string (ucast a) else ipv6_string a) @
     (if z = '''' then '''' else ''%'' @ z)"

subsection \<open>Prefixes\<close>

record Prefix =
  p_addr :: Addr
  p_bits :: nat

definition valid_prefix :: "Prefix \<Rightarrow> bool" where
  "valid_prefix p \<longleftrightarrow> p_bits p \<le> BitLen (p_addr p) \<and> Zone (p_addr p) = ''''"

definition Contains_addr :: "Prefix \<Rightarrow> Addr \<Rightarrow> bool" where
  "Contains_addr p ip =
     (case (p_addr p, ip) of
        (V4 a, V4 b) \<Rightarrow> drop_bit (32 - p_bits p) (a XOR b) = 0
      | (V6 a _, V6 b z) \<Rightarrow> z = '''' \<and> drop_bit (128 - p_bits p) (a XOR b) = 0
      | _ \<Rightarrow> False)"

fun Masked :: "Prefix \<Rightarrow> Prefix" where
  "Masked p = (case p_addr p of
      V4 a \<Rightarrow> p\<lparr>p_addr := V4 (push_bit (32 - p_bits p) (drop_bit (32 - p_bits p) a))\<rparr>
    | V6 a z \<Rightarrow> p\<lparr>p_addr := V6 (push_bit (128 - p_bits p) (drop_bit (128 - p_bits p) a)) z\<rparr>)"

definition PrefixFrom :: "Addr \<Rightarrow> nat \<Rightarrow> Prefix" where
  "PrefixFrom a bits = \<lparr>p_addr = (case a of V4 w \<Rightarrow> V4 w | V6 w z \<Rightarrow> V6 w ''''), p_bits = bits\<rparr>"

definition ParsePrefix :: "string \<Rightarrow> Prefix option" where
  "ParsePrefix s =
     (case LastIndexByte s CHR ''/'' of
        None \<Rightarrow> None
      | Some i \<Rightarrow>
          let bits = drop (Suc i) s in
          case ParseAddr (take i s) of
            None \<Rightarrow> None
          | Some ip \<Rightarrow>
              if Zone ip \<noteq> '''' then None
              else if length bits > 1 \<and> \<not> (is_digit (hd bits) \<and> hd bits \<noteq> CHR ''0'') then None
              else case Atoi bits of
                None \<Rightarrow> None
              | Some n \<Rightarrow> if n < 0 \<or> n > int (BitLen ip) then None else Some (PrefixFrom ip (nat n)))"

end
