(* ===== verification/Proxy.thy ===== *)
theory Proxy
  imports Netip
begin

text \<open>
  Which forwarding headers to believe, \<open>internal/proxy/proxy.go\<close>. A request is its peer address,
  host, whether it came over TLS, and its headers: a function from canonical header names to the
  list of values, in order.
\<close>

subsection \<open>Standard library\<close>

text \<open>\<open>net.SplitHostPort\<close>: the host, or none when the text is not \<open>host:port\<close>.\<close>

definition SplitHostPort :: "string \<Rightarrow> (string \<times> string) option" where
  "SplitHostPort hp =
     (case LastIndexByte hp CHR '':'' of
        None \<Rightarrow> None
      | Some i \<Rightarrow>
          if hd hp = CHR ''['' then
            (case IndexByte hp CHR '']'' of
               None \<Rightarrow> None
             | Some e \<Rightarrow>
                 if Suc e \<noteq> i then None
                 else if CHR ''['' \<in> set (drop 1 hp) \<or> CHR '']'' \<in> set (drop (Suc e) hp) then None
                 else Some (drop 1 (take e hp), drop (Suc i) hp))
          else if CHR '':'' \<in> set (take i hp) then None
          else if CHR ''['' \<in> set hp \<or> CHR '']'' \<in> set hp then None
          else Some (take i hp, drop (Suc i) hp))"

text \<open>\<open>(&url.URL{Host: h}).Hostname()\<close>\<close>

definition validOptionalPort :: "string \<Rightarrow> bool" where
  "validOptionalPort p \<longleftrightarrow> p = '''' \<or> hd p = CHR '':'' \<and> list_all is_digit (tl p)"

definition url_Hostname :: "string \<Rightarrow> string" where
  "url_Hostname h =
     (let h = (case LastIndexByte h CHR '':'' of
                 None \<Rightarrow> h
               | Some i \<Rightarrow> if validOptionalPort (drop i h) then take i h else h)
      in if HasPrefix h ''['' \<and> HasSuffix h '']'' then drop 1 (take (length h - 1) h) else h)"

subsection \<open>The request and the trust set\<close>

record Request =
  RemoteAddr :: string
  Host :: string
  TLS :: bool
  Header :: "string \<Rightarrow> string list"

definition header_Get :: "Request \<Rightarrow> string \<Rightarrow> string" where
  "header_Get r k = (case Header r k of [] \<Rightarrow> '''' | v # _ \<Rightarrow> v)"

type_synonym Trust = "Prefix list"

definition loopback :: "Prefix list" where
  "loopback = [PrefixFrom (V4 0x7F000000) 8, PrefixFrom (V6 1 '''') 128]"

definition New :: "Prefix list \<Rightarrow> Trust" where
  "New extra = loopback @ extra"

definition peerIP :: "Request \<Rightarrow> string" where
  "peerIP r = (case SplitHostPort (RemoteAddr r) of None \<Rightarrow> RemoteAddr r | Some (host, _) \<Rightarrow> host)"

definition trusted :: "Trust \<Rightarrow> string \<Rightarrow> bool" where
  "trusted t ip =
     (case ParseAddr (TrimSpace ip) of
        None \<Rightarrow> False
      | Some addr \<Rightarrow> list_ex (\<lambda>p. Contains_addr p (Unmap addr)) t)"

definition FromProxy :: "Trust \<Rightarrow> Request \<Rightarrow> bool" where
  "FromProxy t r = trusted t (peerIP r)"

text \<open>All values of the header, flattened into one list of non-empty hops.\<close>

definition split_hops :: "string \<Rightarrow> string list" where
  "split_hops v = filter (\<lambda>s. s \<noteq> '''') (map TrimSpace (Split v CHR '',''))"

definition forwardedFor :: "Request \<Rightarrow> string list" where
  "forwardedFor r = concat (map split_hops (Header r ''X-Forwarded-For''))"

text \<open>The loop over the hops, right to left.\<close>

fun last_untrusted :: "Trust \<Rightarrow> string list \<Rightarrow> Addr option" where
  "last_untrusted t [] = None"
| "last_untrusted t (h # hs) =
     (case ParseAddr h of
        None \<Rightarrow> last_untrusted t hs
      | Some addr \<Rightarrow> if \<not> trusted t (String addr) then Some addr else last_untrusted t hs)"

definition ClientIP :: "Trust \<Rightarrow> Request \<Rightarrow> string" where
  "ClientIP t r =
     (let peer = peerIP r in
      if \<not> trusted t peer then peer
      else case last_untrusted t (rev (forwardedFor r)) of
        Some addr \<Rightarrow> String (Unmap addr)
      | None \<Rightarrow>
          let ip = TrimSpace (header_Get r ''X-Real-Ip'')
          in if ip \<noteq> '''' then ip else peer)"

text \<open>The first element of a comma-separated header.\<close>

definition firstValue :: "string \<Rightarrow> string" where
  "firstValue header = (case Cut header CHR '','' of (first, _, _) \<Rightarrow> TrimSpace first)"

definition IsHTTPS :: "Trust \<Rightarrow> Request \<Rightarrow> bool" where
  "IsHTTPS t r =
     (if TLS r then True
      else if \<not> FromProxy t r then False
      else EqualFold (firstValue (header_Get r ''X-Forwarded-Proto'')) ''https'')"

definition hostname :: "string \<Rightarrow> string" where
  "hostname host =
     (let h = url_Hostname host;
          h = (if CHR '':'' \<in> set h then ''['' @ h @ '']'' else h)
      in ToLower h)"

definition Hostname :: "Trust \<Rightarrow> Request \<Rightarrow> string" where
  "Hostname t r =
     (let host = Host r;
          host = (if FromProxy t r then
                    (let v = firstValue (header_Get r ''X-Forwarded-Host'') in if v \<noteq> '''' then v else host)
                  else host)
      in hostname host)"

definition Origin :: "Trust \<Rightarrow> Request \<Rightarrow> string \<times> string" where
  "Origin t r = ((if IsHTTPS t r then ''https'' else ''http''), Hostname t r)"

subsection \<open>The client's address\<close>

lemma last_untrusted_append:
  "last_untrusted t (hs @ gs) = (case last_untrusted t hs of Some a \<Rightarrow> Some a | None \<Rightarrow> last_untrusted t gs)"
  by (induction hs) (auto split: option.splits)

lemma last_untrusted_None:
  "last_untrusted t hs = None \<longleftrightarrow> list_all (\<lambda>h. case ParseAddr h of None \<Rightarrow> True | Some a \<Rightarrow> trusted t (String a)) hs"
  by (induction hs) (auto split: option.splits)

lemma last_untrusted_Some:
  "last_untrusted t hs = Some a \<Longrightarrow> \<not> trusted t (String a) \<and> (\<exists>h \<in> set hs. ParseAddr h = Some a)"
  by (induction hs) (auto split: option.splits if_splits)

lemma Split_mid: "Split (a @ c # b) c = Split a c @ Split b c"
proof (induction a)
  case (Cons x a)
  show ?case
  proof (cases "x = c")
    case False
    obtain p ps where "Split a c = p # ps" using Split_nonempty [of a c] by (cases "Split a c") auto
    with False Cons show ?thesis by simp
  qed (use Cons in simp)
qed simp

lemma split_hops_comma: "split_hops (a @ CHR '','' # b) = split_hops a @ split_hops b"
  by (simp add: split_hops_def Split_mid)

text \<open>A request with other values of the header.\<close>

definition with_xff :: "string list \<Rightarrow> Request \<Rightarrow> Request" where
  "with_xff vs r = r\<lparr>Header := (Header r)(''X-Forwarded-For'' := vs)\<rparr>"

lemma with_xff_fields [simp]:
  "peerIP (with_xff vs r) = peerIP r" "forwardedFor (with_xff vs r) = concat (map split_hops vs)"
  "header_Get (with_xff vs r) ''X-Real-Ip'' = header_Get r ''X-Real-Ip''"
  by (simp_all add: with_xff_def peerIP_def forwardedFor_def header_Get_def split: option.splits)

lemma ClientIP_suffix:
  assumes "concat (map split_hops vs) = pre @ hops" and "last_untrusted t (rev hops) = Some a"
    and "trusted t (peerIP r)"
  shows "ClientIP t (with_xff vs r) = String (Unmap a)"
  using assms by (simp add: ClientIP_def last_untrusted_append Let_def)

text \<open>
  C7. The client address cannot be forged: once what our proxies appended, \<open>w\<close> and the later header
  values, holds an address that is not one of ours, whatever the client put in front of it, in
  the same header or in headers of its own, changes nothing.
\<close>
theorem client_ip_unforgeable:
  assumes "trusted t (peerIP r)"
    and "list_ex (\<lambda>h. case ParseAddr h of None \<Rightarrow> False | Some a \<Rightarrow> \<not> trusted t (String a)) (concat (map split_hops (w # vs)))"
  shows "ClientIP t (with_xff (forged @ [x @ '','' @ w] @ vs) r) = ClientIP t (with_xff (w # vs) r)"
proof -
  let ?hops = "concat (map split_hops (w # vs))"
  have "last_untrusted t (rev ?hops) \<noteq> None"
    using assms(2) unfolding last_untrusted_None list_ex_iff list_all_iff by (auto split: option.splits)
  then obtain a where a: "last_untrusted t (rev ?hops) = Some a" by blast
  have "concat (map split_hops (forged @ [x @ '','' @ w] @ vs)) =
      (concat (map split_hops forged) @ split_hops x) @ ?hops"
    using split_hops_comma [of x w] by simp
  from ClientIP_suffix [OF this a assms(1)] ClientIP_suffix [of "w # vs" "[]" ?hops t a r] a assms(1)
  show ?thesis by simp
qed

definition demo_request :: Request where
  "demo_request = \<lparr>RemoteAddr = ''127.0.0.1:5000'', Host = ''x'', TLS = False, Header = (\<lambda>_. [])\<rparr>"

lemma client_ip_unforgeable_witness:
  "ClientIP (New []) (with_xff ([] @ [''1.1.1.1'' @ '','' @ ''9.9.9.9''] @ [''127.0.0.1'']) demo_request) = ''9.9.9.9''"
proof -
  have "trusted (New []) (peerIP demo_request)"
    and "list_ex (\<lambda>h. case ParseAddr h of None \<Rightarrow> False | Some a \<Rightarrow> \<not> trusted (New []) (String a))
      (concat (map split_hops [''9.9.9.9'', ''127.0.0.1'']))"
    and "ClientIP (New []) (with_xff [''9.9.9.9'', ''127.0.0.1''] demo_request) = ''9.9.9.9''"
    by code_simp+
  then show ?thesis
    by (simp only: client_ip_unforgeable [where t = "New []" and r = demo_request and w = "''9.9.9.9''"
      and vs = "[''127.0.0.1'']" and forged = "[]" and x = "''1.1.1.1''"])
qed

text \<open>
  Headers prove nothing without a proxy: when the peer is not trusted, the client address is the
  peer, the scheme follows the connection and the host name follows the Host header, whatever the
  forwarding headers say.
\<close>
theorem untrusted_peer_ignores_headers:
  assumes "\<not> trusted t (peerIP r)"
  shows "ClientIP t (r\<lparr>Header := h\<rparr>) = peerIP r \<and> IsHTTPS t (r\<lparr>Header := h\<rparr>) = TLS r \<and>
    Hostname t (r\<lparr>Header := h\<rparr>) = hostname (Host r)"
proof -
  have "peerIP (r\<lparr>Header := h\<rparr>) = peerIP r" by (simp add: peerIP_def split: option.splits)
  with assms show ?thesis by (simp add: ClientIP_def IsHTTPS_def Hostname_def FromProxy_def Let_def)
qed

lemma untrusted_peer_ignores_headers_witness:
  "ClientIP (New []) ((demo_request\<lparr>RemoteAddr := ''8.8.8.8:1''\<rparr>)\<lparr>Header := (\<lambda>_. [''127.0.0.1''])\<rparr>) = ''8.8.8.8''"
proof -
  have "\<not> trusted (New []) (peerIP (demo_request\<lparr>RemoteAddr := ''8.8.8.8:1''\<rparr>))" by code_simp
  from untrusted_peer_ignores_headers [OF this] have
    "ClientIP (New []) ((demo_request\<lparr>RemoteAddr := ''8.8.8.8:1''\<rparr>)\<lparr>Header := (\<lambda>_. [''127.0.0.1''])\<rparr>) =
       peerIP (demo_request\<lparr>RemoteAddr := ''8.8.8.8:1''\<rparr>)" by blast
  moreover have "peerIP (demo_request\<lparr>RemoteAddr := ''8.8.8.8:1''\<rparr>) = ''8.8.8.8''" by code_simp
  ultimately show ?thesis by (rule trans)
qed

end
