(* ===== verification/GoFloat.thy ===== *)
theory GoFloat
  imports Complex_Main
begin

text \<open>
  IEEE 754 binary64 arithmetic on finite values. A \<open>float64\<close> is the rational number it stands for;
  every operation rounds its exact result to the nearest representable number, ties to even, and
  \<open>None\<close> is an overflow to infinity. The sign of zero is not kept: the program never shows it.
\<close>

function bitlen :: "int \<Rightarrow> int" where
  "bitlen n = (if n \<le> 0 then 0 else 1 + bitlen (n div 2))"
  by pat_completeness auto
termination
  by (relation "measure nat") auto

declare bitlen.simps [simp del]

lemma bitlen_code [code]:
  "bitlen 0 = 0"
  "bitlen (Int.Neg k) = 0"
  "bitlen (Int.Pos Num.One) = 1"
  "bitlen (Int.Pos (Num.Bit0 k)) = 1 + bitlen (Int.Pos k)"
  "bitlen (Int.Pos (Num.Bit1 k)) = 1 + bitlen (Int.Pos k)"
proof -
  have one: "bitlen n = 1 + bitlen (n div 2)" if "0 < n" for n
    using that by (subst bitlen.simps) simp
  show zero: "bitlen 0 = 0" by (simp add: bitlen.simps)
  show "bitlen (Int.Neg k) = 0" by (subst bitlen.simps) simp
  show "bitlen (Int.Pos Num.One) = 1" using one [of 1] zero by simp
  show "bitlen (Int.Pos (Num.Bit0 k)) = 1 + bitlen (Int.Pos k)"
    using one [of "numeral (Num.Bit0 k)"] by simp
  show "bitlen (Int.Pos (Num.Bit1 k)) = 1 + bitlen (Int.Pos k)"
    using one [of "numeral (Num.Bit1 k)"] by simp
qed

definition pow2 :: "int \<Rightarrow> rat" where
  "pow2 e = (if 0 \<le> e then 2 ^ nat e else 1 / 2 ^ nat (- e))"

definition round_even :: "rat \<Rightarrow> int" where
  "round_even x =
     (let f = \<lfloor>x\<rfloor>; d = x - of_int f
      in if d < 1 / 2 then f else if d > 1 / 2 then f + 1 else if even f then f else f + 1)"

text \<open>The exponent that leaves 53 bits before the point, but not below that of the subnormal numbers.\<close>

definition fl_exp :: "rat \<Rightarrow> int" where
  "fl_exp x =
     (let (n, d) = quotient_of x; e = bitlen n - bitlen d - 53;
          e = (if x / pow2 e \<ge> 2 ^ 53 then e + 1 else e)
      in max e (- 1074))"

definition fl_pos :: "rat \<Rightarrow> rat option" where
  "fl_pos x = (let e = fl_exp x; v = of_int (round_even (x / pow2 e)) * pow2 e
     in if v \<ge> 2 ^ 1024 then None else Some v)"

definition fl :: "rat \<Rightarrow> rat option" where
  "fl x = (if x = 0 then Some 0 else if x > 0 then fl_pos x else map_option uminus (fl_pos (- x)))"

text \<open>An operation whose result cannot overflow.\<close>

definition fl_fin :: "rat \<Rightarrow> rat" where
  "fl_fin x = (case fl x of Some v \<Rightarrow> v | None \<Rightarrow> x)"

lemma fl_zero [simp]: "fl 0 = Some 0"
  by (simp add: fl_def)

lemma round_even_int [simp]: "round_even (of_int n) = n"
  by (simp add: round_even_def Let_def)

lemma round_even_nonneg: "0 \<le> x \<Longrightarrow> 0 \<le> round_even x"
  by (auto simp: round_even_def Let_def)

lemma pow2_pos [simp]: "0 < pow2 e"
  by (simp add: pow2_def)

lemma fl_pos_nonneg: "0 < x \<Longrightarrow> fl_pos x = Some v \<Longrightarrow> 0 \<le> v"
proof -
  assume x: "0 < x" and "fl_pos x = Some v"
  then have v: "v = of_int (round_even (x / pow2 (fl_exp x))) * pow2 (fl_exp x)"
    by (simp add: fl_pos_def Let_def split: if_splits)
  have "0 \<le> round_even (x / pow2 (fl_exp x))"
    using x by (intro round_even_nonneg divide_nonneg_pos) simp_all
  then show "0 \<le> v" unfolding v by (intro mult_nonneg_nonneg) (simp_all add: less_imp_le)
qed

subsection \<open>Rounding is idempotent\<close>

lemma bitlen_bounds: "0 < n \<Longrightarrow> 0 < bitlen n \<and> 2 ^ nat (bitlen n - 1) \<le> n \<and> n < 2 ^ nat (bitlen n)"
proof (induction n rule: bitlen.induct)
  case (1 n)
  show ?case
  proof (cases "n = 1")
    case True
    then show ?thesis by (simp add: bitlen.simps)
  next
    case False
    with 1 have IH: "0 < bitlen (n div 2)" "2 ^ nat (bitlen (n div 2) - 1) \<le> n div 2" "n div 2 < 2 ^ nat (bitlen (n div 2))"
      by auto
    have b: "bitlen n = 1 + bitlen (n div 2)" using 1(2) by (subst bitlen.simps) simp
    have "nat (bitlen n - 1) = Suc (nat (bitlen (n div 2) - 1))" "nat (bitlen n) = Suc (nat (bitlen (n div 2)))"
      using IH(1) b by simp_all
    then have "2 ^ nat (bitlen n - 1) = 2 * (2 ^ nat (bitlen (n div 2) - 1) :: int)"
      "2 ^ nat (bitlen n) = 2 * (2 ^ nat (bitlen (n div 2)) :: int)" by simp_all
    with IH b show ?thesis by linarith
  qed
qed

lemma pow2_add: "pow2 (a + b) = pow2 a * pow2 b"
  by (auto simp: pow2_def nat_add_distrib power_add field_simps simp flip: power_add
      intro!: arg_cong [where f = "\<lambda>k. (2::rat) ^ k"])
    
lemma pow2_nonzero [simp]: "pow2 e \<noteq> 0"
  by (simp add: pow2_def)

lemma pow2_of_nat: "pow2 (int k) = 2 ^ k"
  by (simp add: pow2_def)

lemma pow2_mono: "a \<le> b \<Longrightarrow> pow2 a \<le> pow2 b"
  using pow2_add [of a "b - a"] pow2_of_nat [of "nat (b - a)"] pow2_pos [of a]
  by (simp add: mult_le_cancel_left1 del: pow2_pos)

lemma fl_exp_bounds:
  assumes "0 < x"
  shows "x < 2 ^ 53 * pow2 (fl_exp x)" and "fl_exp x = - 1074 \<or> 2 ^ 52 * pow2 (fl_exp x) \<le> x" and "- 1074 \<le> fl_exp x"
proof -
  obtain n d where nd: "quotient_of x = (n, d)" by (cases "quotient_of x")
  have x: "x = of_int n / of_int d" and d: "0 < d" using quotient_of_div [OF nd] quotient_of_denom_pos [OF nd] by auto
  then have n: "0 < n" using assms by (simp add: zero_less_divide_iff)
  define e where "e = bitlen n - bitlen d - 53"
  have pn: "pow2 (bitlen n - 1) \<le> of_int n" "of_int n < pow2 (bitlen n)" if "0 < n" for n
  proof -
    have "(of_int (2 ^ nat (bitlen n - 1)) :: rat) \<le> of_int n" "of_int n < (of_int (2 ^ nat (bitlen n)) :: rat)"
      using bitlen_bounds [OF that] by (simp_all only: of_int_le_iff of_int_less_iff)
    then show "pow2 (bitlen n - 1) \<le> of_int n" "of_int n < pow2 (bitlen n)"
      using bitlen_bounds [OF that] by (simp_all add: pow2_def)
  qed
  have up: "x < 2 ^ 54 * pow2 e"
  proof -
    have "of_int n < pow2 (bitlen n)" by (rule pn(2) [OF n])
    also have "pow2 (bitlen n) = 2 ^ 54 * pow2 e * pow2 (bitlen d - 1)"
      using pow2_of_nat [of 54] pow2_add [of 54 e] pow2_add [of "54 + e" "bitlen d - 1"] by (simp add: e_def)
    also have "\<dots> \<le> 2 ^ 54 * pow2 e * of_int d" using pn(1) [OF d] by (intro mult_left_mono) (simp_all add: less_imp_le)
    finally show ?thesis using d by (simp add: x field_simps)
  qed
  have low: "2 ^ 52 * pow2 e \<le> x"
  proof -
    have "2 ^ 52 * pow2 e * of_int d \<le> 2 ^ 52 * pow2 e * pow2 (bitlen d)"
      using pn(2) [OF d] by (intro mult_left_mono) (simp_all add: less_imp_le)
    also have "\<dots> = pow2 (bitlen n - 1)"
      using pow2_of_nat [of 52] pow2_add [of 52 e] pow2_add [of "52 + e" "bitlen d"] by (simp add: e_def)
    also have "\<dots> \<le> of_int n" by (rule pn(1) [OF n])
    finally show ?thesis using d by (simp add: x field_simps)
  qed
  define e' where "e' = (if x / pow2 e \<ge> 2 ^ 53 then e + 1 else e)"
  have e1: "pow2 (e + 1) = 2 * pow2 e" using pow2_add [of e 1] by (simp add: pow2_def)
  have up': "x < 2 ^ 53 * pow2 e'" using up e1 by (auto simp: e'_def field_simps not_le)
  have low': "2 ^ 52 * pow2 e' \<le> x" using low e1 pow2_pos [of e] by (auto simp: e'_def field_simps)
  have fe: "fl_exp x = max e' (- 1074)" by (simp add: fl_exp_def nd Let_def e'_def e_def)
  show "- 1074 \<le> fl_exp x" by (simp add: fe)
  show "fl_exp x = - 1074 \<or> 2 ^ 52 * pow2 (fl_exp x) \<le> x" using low' by (auto simp: fe max_def)
  have "pow2 e' \<le> pow2 (fl_exp x)" by (rule pow2_mono) (simp add: fe)
  with up' show "x < 2 ^ 53 * pow2 (fl_exp x)" by simp
qed

lemma round_even_le: "x \<le> of_int k \<Longrightarrow> round_even x \<le> k"
  by (auto simp: round_even_def Let_def floor_le_iff)

lemma fl_pos_idem:
  assumes "0 < x" and "fl_pos x = Some v" and "0 < v"
  shows "fl_pos v = Some v"
proof -
  let ?e = "fl_exp x"
  define f where "f = fl_exp v"
  define m where "m = round_even (x / pow2 ?e)"
  have v: "v = of_int m * pow2 ?e" and small: "v < 2 ^ 1024"
    using assms(2) by (auto simp: fl_pos_def Let_def m_def split: if_splits)
  have "m \<le> 2 ^ 53"
    unfolding m_def by (rule round_even_le) (use fl_exp_bounds(1) [OF assms(1)] in \<open>simp add: field_simps\<close>)
  then have le: "v \<le> 2 ^ 53 * pow2 ?e"
    unfolding v using mult_right_mono [of "of_int m :: rat" "2 ^ 53" "pow2 ?e"] of_int_le_iff [of m "2 ^ 53", where 'a = rat]
    by (simp add: less_imp_le)
  have "\<exists>k. v / pow2 f = of_int k"
  proof (cases "f \<le> ?e")
    case True
    then have "pow2 ?e = 2 ^ nat (?e - f) * pow2 f" using pow2_add [of "?e - f" f] by (simp add: pow2_def)
    then have "v = of_int (m * 2 ^ nat (?e - f)) * pow2 f" unfolding v by simp
    then show ?thesis using pow2_pos [of f] by (metis less_irrefl nonzero_mult_div_cancel_right)
  next
    case False
    then have low: "2 ^ 52 * pow2 f \<le> v" using fl_exp_bounds(2) [OF assms(3)] fl_exp_bounds(3) [OF assms(1)] unfolding f_def by auto
    have "pow2 (?e + 1) \<le> pow2 f" using False by (intro pow2_mono) simp
    then have "2 ^ 53 * pow2 ?e \<le> 2 ^ 52 * pow2 f" using pow2_add [of ?e 1] by (simp add: pow2_def [of 1])
    with low le have "v = 2 ^ 52 * pow2 f" by linarith
    then show ?thesis by (intro exI [of _ "2 ^ 52"]) (simp add: nonzero_divide_eq_eq)
  qed
  then have "of_int (round_even (v / pow2 f)) * pow2 f = v" by (auto simp: divide_eq_eq)
  with small show ?thesis by (simp add: fl_pos_def Let_def f_def)
qed

lemma fl_idem: "fl x = Some v \<Longrightarrow> fl v = Some v"
proof (cases "v = 0")
  case False
  assume x: "fl x = Some v"
  then consider "0 < x" "fl_pos x = Some v" | w where "x < 0" "fl_pos (- x) = Some w" "v = - w"
  proof (cases "0 < x")
    case True
    with x that(1) show ?thesis by (simp add: fl_def)
  next
    case no: False
    have "x \<noteq> 0" using x False by auto
    with no have "x < 0" by simp
    with x have w: "map_option uminus (fl_pos (- x)) = Some v" by (simp add: fl_def)
    then show ?thesis using that(2) [OF \<open>x < 0\<close>] by (cases "fl_pos (- x)") auto
  qed
  then show ?thesis
  proof cases
    case 1
    then have "0 < v" using fl_pos_nonneg False by fastforce
    moreover have "fl_pos v = Some v" by (rule fl_pos_idem [OF 1 \<open>0 < v\<close>])
    ultimately show ?thesis by (simp add: fl_def)
  next
    case 2
    then have "0 < w" using fl_pos_nonneg [of "- x" w] False by auto
    moreover have "fl_pos w = Some w" using 2(1) by (intro fl_pos_idem [OF _ 2(2) \<open>0 < w\<close>]) simp
    ultimately show ?thesis by (simp add: fl_def 2(3))
  qed
qed simp

subsection \<open>How far rounding goes\<close>

lemma round_even_near: "of_int (round_even x) \<le> x + 1 / 2"
proof -
  have "of_int \<lfloor>x\<rfloor> \<le> x" by (rule of_int_floor_le)
  then show ?thesis unfolding round_even_def Let_def by (auto; linarith)
qed

lemma fl_raw_upper:
  assumes "0 < x" shows "of_int (round_even (x / pow2 (fl_exp x))) * pow2 (fl_exp x) \<le> x * (1 + 1 / 2 ^ 52) + 1 / 2 ^ 1074"
proof -
  let ?e = "fl_exp x" let ?u = "pow2 (fl_exp x)"
  have "of_int (round_even (x / ?u)) * ?u \<le> (x / ?u + 1 / 2) * ?u"
    using round_even_near by (intro mult_right_mono) (simp_all add: less_imp_le)
  also have "\<dots> = x + ?u / 2" by (simp add: field_simps)
  finally have v: "of_int (round_even (x / ?u)) * ?u \<le> x + ?u / 2" .
  have "?u / 2 \<le> x / 2 ^ 52 + 1 / 2 ^ 1074"
  proof (cases "?e = - 1074")
    case True
    then have "?u = 1 / 2 ^ 1074" by (simp add: pow2_def)
    then show ?thesis using assms(1) by simp
  next
    case False
    with fl_exp_bounds(2) [OF assms(1)] have "2 ^ 52 * ?u \<le> x" by simp
    then have "?u \<le> x / 2 ^ 52" by (simp add: field_simps)
    moreover have "(0::rat) < 1 / 2 ^ 1074" by simp
    ultimately show ?thesis using pow2_pos [of ?e] by linarith
  qed
  with v show ?thesis by (simp add: algebra_simps)
qed

text \<open>The rounded value, once the exponent is known.\<close>

lemma fl_eqI:
  assumes "2 ^ 52 * pow2 e \<le> x" "x < 2 ^ 53 * pow2 e" "- 1074 \<le> e" "round_even (x / pow2 e) = n" "of_int n * pow2 e < 2 ^ 1024"
  shows "fl x = Some (of_int n * pow2 e)"
proof -
  have x: "0 < x" using assms(1) pow2_pos [of e] by (smt (verit, best) less_le_trans mult_pos_pos zero_less_numeral zero_less_power)
  let ?f = "fl_exp x"
  have up: "\<not> e < ?f"
  proof
    assume "e < ?f"
    then have "pow2 (e + 1) \<le> pow2 ?f" by (intro pow2_mono) simp
    then have "2 * pow2 e \<le> pow2 ?f" using pow2_add [of e 1] by (simp add: pow2_def [of 1])
    moreover have "2 ^ 52 * pow2 ?f \<le> x" using fl_exp_bounds(2) [OF x] \<open>e < ?f\<close> assms(3) by auto
    ultimately show False using assms(2) by simp
  qed
  have "\<not> ?f < e"
  proof
    assume "?f < e"
    then have "pow2 (?f + 1) \<le> pow2 e" by (intro pow2_mono) simp
    then have "2 * pow2 ?f \<le> pow2 e" using pow2_add [of ?f 1] by (simp add: pow2_def [of 1])
    then show False using fl_exp_bounds(1) [OF x] assms(1) by simp
  qed
  with up have "?f = e" by simp
  then show ?thesis using x assms(4,5) by (simp add: fl_def fl_pos_def Let_def)
qed

text \<open>Rounding up moves a result by little, and only a huge one overflows.\<close>

lemma fl_upper:
  assumes "0 \<le> x" and "fl x = Some v"
  shows "0 \<le> v \<and> v \<le> x * (1 + 1 / 1000000) + 1 / 1000000"
proof (cases "x = 0")
  case False
  with assms have x: "0 < x" "fl_pos x = Some v" by (auto simp: fl_def)
  then have "v = of_int (round_even (x / pow2 (fl_exp x))) * pow2 (fl_exp x)"
    by (auto simp: fl_pos_def Let_def split: if_splits)
  moreover have "x * (1 + 1 / 2 ^ 52) \<le> x * (1 + 1 / 1000000)" using x(1) by (intro mult_left_mono) simp_all
  moreover have "(1::rat) / 2 ^ 1074 \<le> 1 / 1000000" by simp
  ultimately show ?thesis using fl_raw_upper [OF x(1)] fl_pos_nonneg [OF x] by linarith
qed (use assms in simp)

lemma fl_overflow:
  assumes "0 \<le> x" and "fl x = None" shows "2 ^ 100 \<le> x"
proof -
  from assms have x: "0 < x" "fl_pos x = None" by (auto simp: fl_def split: if_splits)
  then have "2 ^ 1024 \<le> of_int (round_even (x / pow2 (fl_exp x))) * pow2 (fl_exp x)"
    by (auto simp: fl_pos_def Let_def split: if_splits)
  with fl_raw_upper [OF x(1)] have "2 ^ 1024 \<le> x * (1 + 1 / 2 ^ 52) + 1 / 2 ^ 1074" by (rule order_trans [rotated])
  moreover have "x * (1 + 1 / 2 ^ 52) \<le> x * 2" using x(1) by (intro mult_left_mono) simp_all
  moreover have "(1::rat) / 2 ^ 1074 \<le> 1" by simp
  ultimately have "2 ^ 1024 - 1 \<le> x * 2" by linarith
  then show ?thesis by simp
qed

lemma floor_ratio: "\<lfloor>numeral a / numeral b :: rat\<rfloor> = numeral a div numeral b"
  using floor_divide_of_int_eq [of "numeral a" "numeral b"] by simp

subsection \<open>Rounding is monotone\<close>

lemma round_even_ge: "of_int k \<le> x \<Longrightarrow> k \<le> round_even x"
proof -
  assume "of_int k \<le> x"
  then have "k \<le> \<lfloor>x\<rfloor>" by (simp add: le_floor_iff)
  also have "\<lfloor>x\<rfloor> \<le> round_even x" by (auto simp: round_even_def Let_def)
  finally show ?thesis .
qed

lemma round_even_mono: "x \<le> y \<Longrightarrow> round_even x \<le> round_even y"
proof (cases "\<lfloor>x\<rfloor> = \<lfloor>y\<rfloor>")
  case True
  then show "x \<le> y \<Longrightarrow> round_even x \<le> round_even y" by (auto simp: round_even_def Let_def)
next
  case False
  assume "x \<le> y"
  with False have less: "\<lfloor>x\<rfloor> + 1 \<le> \<lfloor>y\<rfloor>" using floor_mono [of x y] by simp
  have "round_even x \<le> \<lfloor>x\<rfloor> + 1" by (auto simp: round_even_def Let_def)
  also note less
  also have "\<lfloor>y\<rfloor> \<le> round_even y" by (auto simp: round_even_def Let_def)
  finally show "round_even x \<le> round_even y" .
qed

lemma fl_exp_mono:
  assumes "0 < x" "x \<le> y" shows "fl_exp x \<le> fl_exp y"
proof (rule ccontr)
  let ?e = "fl_exp x"
  assume "\<not> ?e \<le> fl_exp y"
  then have less: "fl_exp y \<le> ?e - 1" by simp
  have y: "0 < y" using assms by simp
  have "2 ^ 52 * pow2 ?e \<le> x" using fl_exp_bounds(2) [OF assms(1)] fl_exp_bounds(3) [OF y] less by auto
  also have "\<dots> \<le> y" by (rule assms(2))
  also have "\<dots> < 2 ^ 53 * pow2 (fl_exp y)" by (rule fl_exp_bounds(1) [OF y])
  also have "\<dots> \<le> 2 ^ 53 * pow2 (?e - 1)" using pow2_mono [OF less] by simp
  also have "\<dots> = 2 ^ 52 * pow2 ?e" using pow2_add [of 1 "?e - 1"] by (simp add: pow2_def [of 1])
  finally show False by simp
qed

definition rounded :: "rat \<Rightarrow> rat" where
  "rounded x = of_int (round_even (x / pow2 (fl_exp x))) * pow2 (fl_exp x)"

lemma rounded_mono:
  assumes "0 < x" "x \<le> y" shows "rounded x \<le> rounded y"
proof (cases "fl_exp x = fl_exp y")
  case True
  have "round_even (x / pow2 (fl_exp y)) \<le> round_even (y / pow2 (fl_exp y))"
    using assms(2) by (intro round_even_mono divide_right_mono) (simp_all add: less_imp_le)
  then show ?thesis by (simp add: rounded_def True mult_right_mono less_imp_le)
next
  case False
  let ?a = "fl_exp x" and ?b = "fl_exp y"
  have ab: "?a + 1 \<le> ?b" using False fl_exp_mono [OF assms] by simp
  have y: "0 < y" using assms by simp
  have "round_even (x / pow2 ?a) \<le> 2 ^ 53"
    by (rule round_even_le) (use fl_exp_bounds(1) [OF assms(1)] in \<open>simp add: field_simps\<close>)
  then have "rounded x \<le> of_int (2 ^ 53) * pow2 ?a"
    unfolding rounded_def by (intro mult_right_mono) (simp_all only: of_int_le_iff less_imp_le pow2_pos)
  also have "\<dots> = 2 ^ 52 * pow2 (?a + 1)" using pow2_add [of ?a 1] by (simp add: pow2_def [of 1])
  also have "\<dots> \<le> 2 ^ 52 * pow2 ?b" using pow2_mono [OF ab] by simp
  also have "\<dots> = of_int (2 ^ 52) * pow2 ?b" by simp
  also have "\<dots> \<le> rounded y"
  proof -
    have "2 ^ 52 * pow2 ?b \<le> y" using fl_exp_bounds(2) [OF y] fl_exp_bounds(3) [OF assms(1)] ab by auto
    then have "2 ^ 52 \<le> round_even (y / pow2 ?b)" by (intro round_even_ge) (simp add: field_simps)
    then show ?thesis unfolding rounded_def by (intro mult_right_mono) (simp_all only: of_int_le_iff less_imp_le pow2_pos)
  qed
  finally show ?thesis .
qed

lemma fl_rounded: "0 < x \<Longrightarrow> fl x = (if rounded x \<ge> 2 ^ 1024 then None else Some (rounded x))"
  by (simp add: fl_def fl_pos_def Let_def rounded_def)

lemma rounded_nonneg: "0 < x \<Longrightarrow> 0 \<le> rounded x"
  by (simp add: rounded_def round_even_nonneg less_imp_le)

lemma fl_mono:
  assumes "0 \<le> x" "x \<le> y" "fl y = Some w"
  obtains v where "fl x = Some v" "0 \<le> v" "v \<le> w"
proof (cases "x = 0")
  case True
  have "0 \<le> w"
  proof (cases "y = 0")
    case False
    then show ?thesis using assms rounded_nonneg [of y] by (auto simp: fl_rounded split: if_splits)
  qed (use assms(3) in simp)
  then show thesis using that [of 0] True by simp
next
  case False
  then have x: "0 < x" and y: "0 < y" using assms(1,2) by simp_all
  have w: "w = rounded y" "rounded y < 2 ^ 1024" using assms(3) y by (auto simp: fl_rounded split: if_splits)
  have le: "rounded x \<le> rounded y" using x assms(2) by (rule rounded_mono)
  then have "fl x = Some (rounded x)" using w(2) x by (simp add: fl_rounded)
  then show thesis using that rounded_nonneg [OF x] le w(1) by simp
qed

text \<open>A small integer is representable.\<close>

lemma fl_int: "0 \<le> n \<Longrightarrow> n \<le> 2 ^ 52 \<Longrightarrow> fl (of_int n) = Some (of_int n)"
proof (cases "n = 0")
  case False
  assume "0 \<le> n" "n \<le> 2 ^ 52"
  with False have n: "0 < (of_int n :: rat)" "(of_int n :: rat) \<le> of_int (2 ^ 52)" unfolding of_int_le_iff by simp_all
  let ?e = "fl_exp (of_int n)"
  have "?e \<le> 0"
  proof (rule ccontr)
    assume "\<not> ?e \<le> 0"
    then have "pow2 1 \<le> pow2 ?e" "2 ^ 52 * pow2 ?e \<le> of_int n" using fl_exp_bounds(2) [OF n(1)] by (auto intro: pow2_mono)
    with n(2) show False by (simp add: pow2_def [of 1])
  qed
  then obtain m where m: "of_int n / pow2 ?e = of_int m" by (auto simp: pow2_def intro!: that [of "n * 2 ^ nat (- ?e)"])
  then have "rounded (of_int n) = of_int m * pow2 ?e" unfolding rounded_def by (simp only: round_even_int)
  also have "\<dots> = of_int n" unfolding m [symmetric] by simp
  finally have "rounded (of_int n) = of_int n" .
  moreover have "(of_int n :: rat) < 2 ^ 1024" using n(2) by (rule le_less_trans) simp
  ultimately show ?thesis using n(1) by (simp add: fl_rounded)
qed simp

end
