(* ===== verification/GoJson.thy ===== *)
theory GoJson
  imports JobTypes GoFloat
begin

text \<open>
  Decoding of a JSON value into a struct, as \<open>encoding/json\<close> does it with
  \<open>DisallowUnknownFields\<close>, and encoding of a struct. A JSON value has already been read from text:
  a number keeps whether its literal is an integer, since Go refuses to store \<open>1.0\<close> or \<open>1e2\<close> into
  an int; an object keeps its members in order, duplicates included.
\<close>

datatype json =
  JNull
| JBool bool
| JInt int
| JFrac rat
| JStr string
| JArr "json list"
| JObj "(string \<times> json) list"

text \<open>
  The fields of a struct: the name of each and how a value is stored into it, \<open>None\<close> being a
  value of the wrong type. \<open>null\<close> is never an error and changes nothing.
\<close>

type_synonym 'p json_fields = "(string \<times> (json \<Rightarrow> 'p \<Rightarrow> 'p option)) list"

fun store_string :: "((string \<Rightarrow> string) \<Rightarrow> 'p \<Rightarrow> 'p) \<Rightarrow> json \<Rightarrow> 'p \<Rightarrow> 'p option" where
  "store_string upd JNull p = Some p"
| "store_string upd (JStr s) p = Some (upd (\<lambda>_. s) p)"
| "store_string upd _ p = None"

fun store_bool :: "((bool \<Rightarrow> bool) \<Rightarrow> 'p \<Rightarrow> 'p) \<Rightarrow> json \<Rightarrow> 'p \<Rightarrow> 'p option" where
  "store_bool upd JNull p = Some p"
| "store_bool upd (JBool b) p = Some (upd (\<lambda>_. b) p)"
| "store_bool upd _ p = None"

definition is_int64 :: "int \<Rightarrow> bool" where
  "is_int64 n \<longleftrightarrow> int64_min \<le> n \<and> n \<le> int64_max"

fun store_int :: "((int \<Rightarrow> int) \<Rightarrow> 'p \<Rightarrow> 'p) \<Rightarrow> json \<Rightarrow> 'p \<Rightarrow> 'p option" where
  "store_int upd JNull p = Some p"
| "store_int upd (JInt n) p = (if is_int64 n then Some (upd (\<lambda>_. n) p) else None)"
| "store_int upd _ p = None"

fun store_float :: "((rat \<Rightarrow> rat) \<Rightarrow> 'p \<Rightarrow> 'p) \<Rightarrow> json \<Rightarrow> 'p \<Rightarrow> 'p option" where
  "store_float upd JNull p = Some p"
| "store_float upd (JInt n) p = map_option (\<lambda>v. upd (\<lambda>_. v) p) (fl (of_int n))"
| "store_float upd (JFrac x) p = map_option (\<lambda>v. upd (\<lambda>_. v) p) (fl x)"
| "store_float upd _ p = None"

text \<open>A member finds its field by its exact name, or else by its folded name; no field is an error.\<close>

definition find_field :: "'p json_fields \<Rightarrow> string \<Rightarrow> (json \<Rightarrow> 'p \<Rightarrow> 'p option) option" where
  "find_field fs k = (case map_of fs k of
      Some st \<Rightarrow> Some st
    | None \<Rightarrow> map_option snd (find (\<lambda>(name, _). EqualFold k name) fs))"

fun decode_members :: "'p json_fields \<Rightarrow> (string \<times> json) list \<Rightarrow> 'p \<Rightarrow> 'p option" where
  "decode_members fs [] p = Some p"
| "decode_members fs ((k, v) # ms) p =
     (case find_field fs k of
        None \<Rightarrow> None
      | Some st \<Rightarrow> (case st v p of None \<Rightarrow> None | Some p' \<Rightarrow> decode_members fs ms p'))"

fun decode_struct :: "'p json_fields \<Rightarrow> json \<Rightarrow> 'p \<Rightarrow> 'p option" where
  "decode_struct fs JNull p = Some p"
| "decode_struct fs (JObj ms) p = decode_members fs ms p"
| "decode_struct fs _ p = None"

text \<open>Members under their exact names.\<close>

lemma find_field_exact: "map_of fs k = Some st \<Longrightarrow> find_field fs k = Some st"
  by (simp add: find_field_def)

end
