(* ===== verification/Presets.thy ===== *)
theory Presets
  imports GoJson GoPath "HOL-Library.Word"
begin

unbundle bit_operations_syntax

text \<open>
  The option tables and the parameter validation of \<open>internal/presets/presets.go\<close>. A value the
  client sends is matched against a fixed table before a runner sees it. The raw parameters are a
  JSON value, \<open>None\<close> when the request has none. The \<open>Parse\<close> functions return the validated struct
  or the validation error: the field and the reason, where the text of a JSON decoding error and
  the quoting of a rejected value are left symbolic.
\<close>

datatype reason = Text string | NotAllowed string | JsonError

record ValidationError =
  v_field :: string
  v_reason :: reason

definition invalid :: "string \<Rightarrow> reason \<Rightarrow> ValidationError" where
  "invalid field reason = \<lparr>v_field = field, v_reason = reason\<rparr>"

subsection \<open>Option tables\<close>

text \<open>Pairs of value and label.\<close>

type_synonym Options = "(string \<times> string) list"

definition VideoContainers :: Options where
  "VideoContainers =
    [(''mp4'', ''MP4''), (''mkv'', ''MKV''), (''webm'', ''WebM''), (''mov'', ''MOV'')]"

definition VideoCodecs :: Options where
  "VideoCodecs =
    [(''h264'', ''H.264 (widest support)''), (''h265'', ''H.265 / HEVC (smaller)''),
     (''vp9'', ''VP9''), (''av1'', ''AV1 (slowest, smallest)''), (''copy'', ''Copy (no re-encode)'')]"

definition EncodeSpeeds :: Options where
  "EncodeSpeeds =
    [(''veryfast'', ''Quickest - biggest file''), (''faster'', ''Quicker - bigger file''),
     (''fast'', ''Quick''), (''medium'', ''Normal (recommended)''),
     (''slow'', ''Slower - smaller file''), (''veryslow'', ''Slowest - smallest file'')]"

definition Resolutions :: Options where
  "Resolutions =
    [(''source'', ''Source''), (''2160'', ''4K (2160p)''), (''1440'', ''1440p''),
     (''1080'', ''1080p''), (''720'', ''720p''), (''480'', ''480p''), (''360'', ''360p'')]"

definition FrameRates :: Options where
  "FrameRates =
    [(''source'', ''Source''), (''60'', ''60 fps''), (''30'', ''30 fps''), (''24'', ''24 fps'')]"

definition AudioCodecs :: Options where
  "AudioCodecs =
    [(''aac'', ''AAC''), (''opus'', ''Opus''), (''mp3'', ''MP3''), (''flac'', ''FLAC (lossless)''),
     (''copy'', ''Copy''), (''none'', ''Remove audio'')]"

definition AudioBitrates :: Options where
  "AudioBitrates =
    [(''64'', ''64 kbps''), (''96'', ''96 kbps''), (''128'', ''128 kbps''), (''192'', ''192 kbps''),
     (''256'', ''256 kbps''), (''320'', ''320 kbps'')]"

definition AudioFormats :: Options where
  "AudioFormats =
    [(''mp3'', ''MP3''), (''m4a'', ''M4A / AAC''), (''opus'', ''Opus''), (''flac'', ''FLAC''),
     (''wav'', ''WAV'')]"

definition ImageFormats :: Options where
  "ImageFormats =
    [(''source'', ''Same as the input''), (''jpg'', ''JPEG''), (''png'', ''PNG''),
     (''webp'', ''WebP''), (''avif'', ''AVIF''), (''gif'', ''GIF''), (''tiff'', ''TIFF''),
     (''svg'', ''SVG (embeds the picture)''),
     (''svg_trace'', ''SVG (traced outlines, black and white)'')]"

definition EncodePresets :: Options where
  "EncodePresets =
    [(''quality'', ''Best quality - bigger file, slower''),
     (''balanced'', ''Balanced - good quality, reasonable size''),
     (''speed'', ''Fastest encode - larger file''), (''size'', ''Smallest file - slower''),
     (''custom'', ''Custom - set everything myself'')]"

definition CompressTargets :: Options where
  "CompressTargets =
    [(''light'', ''Light - near-original quality''),
     (''balanced'', ''Balanced - good quality, much smaller''),
     (''aggressive'', ''Aggressive - smallest file''),
     (''target_size'', ''Target file size - I'' @ [CHR 0x27] @ ''ll pick the megabytes'')]"

definition ImageQualityPresets :: Options where
  "ImageQualityPresets =
    [(''original'', ''Original - no re-encode''), (''high'', ''High - near-original quality''),
     (''balanced'', ''Balanced - good quality, smaller file''),
     (''small'', ''Small - smaller file, visible loss''),
     (''custom'', ''Custom - set the quality myself'')]"

definition TraceTargets :: Options where
  "TraceTargets =
    [(''dark'', ''The dark areas''), (''light'', ''The light areas'')]"

definition RetentionChoices :: Options where
  "RetentionChoices =
    [(''1'', ''1 day''), (''7'', ''7 days''), (''30'', ''30 days''), (''0'', ''Forever'')]"

text \<open>Accepted quality range per video codec.\<close>

definition CRFBounds :: "(string \<times> int \<times> int) list" where
  "CRFBounds = [(''h264'', 14, 34), (''h265'', 18, 38), (''vp9'', 20, 45), (''av1'', 20, 50)]"

definition CompressCRF :: "(string \<times> (string \<times> int) list) list" where
  "CompressCRF =
    [(''light'', [(''h264'', 20), (''h265'', 24), (''vp9'', 28), (''av1'', 30)]),
     (''balanced'', [(''h264'', 24), (''h265'', 28), (''vp9'', 33), (''av1'', 36)]),
     (''aggressive'', [(''h264'', 30), (''h265'', 34), (''vp9'', 40), (''av1'', 44)])]"

text \<open>Speed, resolution and audio bitrate a compress target fills into the form.\<close>

definition CompressTargetTune :: "(string \<times> string \<times> string \<times> string) list" where
  "CompressTargetTune =
    [(''light'', ''fast'', ''source'', ''192''), (''balanced'', ''medium'', ''source'', ''128''),
     (''aggressive'', ''slow'', ''720'', ''96''), (''target_size'', ''medium'', ''source'', ''128'')]"

definition EncodePresetSpeed :: "(string \<times> string) list" where
  "EncodePresetSpeed = [(''quality'', ''slow''), (''balanced'', ''medium''), (''speed'', ''veryfast''), (''size'', ''slow'')]"

definition EncodePresetCRF :: "(string \<times> (string \<times> int) list) list" where
  "EncodePresetCRF =
    [(''quality'', [(''h264'', 18), (''h265'', 22), (''vp9'', 24), (''av1'', 26)]),
     (''balanced'', [(''h264'', 23), (''h265'', 27), (''vp9'', 31), (''av1'', 34)]),
     (''speed'', [(''h264'', 25), (''h265'', 29), (''vp9'', 33), (''av1'', 36)]),
     (''size'', [(''h264'', 30), (''h265'', 34), (''vp9'', 40), (''av1'', 45)])]"

definition ImageCompressQuality :: "(string \<times> int) list" where
  "ImageCompressQuality = [(''light'', 90), (''balanced'', 78), (''aggressive'', 62)]"

definition ImageConvertQuality :: "(string \<times> int) list" where
  "ImageConvertQuality = [(''original'', 0), (''high'', 92), (''balanced'', 80), (''small'', 60)]"

definition imageFormatByExt :: "(string \<times> string) list" where
  "imageFormatByExt =
    [(''jpg'', ''jpg''), (''jpeg'', ''jpg''), (''png'', ''png''), (''webp'', ''webp''), (''avif'', ''avif''),
     (''gif'', ''gif''), (''tif'', ''tiff''), (''tiff'', ''tiff''), (''svg'', ''svg'')]"

definition TargetSizeMinMB :: int where "TargetSizeMinMB = 1"
definition TargetSizeMaxMB :: int where "TargetSizeMaxMB = 65536"
definition editMaxSeconds :: rat where "editMaxSeconds = 24 * 3600"
definition editMinSpan :: rat where "editMinSpan = fl_fin (1 / 10)"
definition cropMinPixels :: int where "cropMinPixels = 16"
definition cropMaxPixels :: int where "cropMaxPixels = 20000"
definition maxDim :: int where "maxDim = 20000"

text \<open>A lookup in a map of maps: a missing outer key is the empty map.\<close>

definition lookup2 :: "(string \<times> (string \<times> int) list) list \<Rightarrow> string \<Rightarrow> string \<Rightarrow> int option" where
  "lookup2 m a b = (case map_of m a of None \<Rightarrow> None | Some n \<Rightarrow> map_of n b)"

subsection \<open>Parameters\<close>

record DownloadParams =
  dl_Mode :: string
  dl_FormatID :: string
  dl_AudioFormat :: string
  dl_AudioBitrate :: string
  dl_Container :: string
  dl_EmbedSubs :: bool
  dl_EmbedThumb :: bool
  dl_EmbedMetadata :: bool
  dl_RetentionDays :: int

record ConvertParams =
  cv_Preset :: string
  cv_Container :: string
  cv_VideoCodec :: string
  cv_Speed :: string
  cv_CRF :: int
  cv_Resolution :: string
  cv_FrameRate :: string
  cv_AudioCodec :: string
  cv_AudioBitrate :: string
  cv_StripMetadata :: bool
  cv_RetentionDays :: int

record CompressParams =
  cm_Target :: string
  cm_TargetSizeMB :: int
  cm_Container :: string
  cm_VideoCodec :: string
  cm_Speed :: string
  cm_Resolution :: string
  cm_AudioBitrate :: string
  cm_StripMetadata :: bool
  cm_RetentionDays :: int

record ImageParams =
  im_Format :: string
  im_Trace :: string
  im_Quality :: int
  im_Width :: int
  im_Height :: int
  im_StripMetadata :: bool
  im_RetentionDays :: int

record EditParams =
  ed_Start :: rat
  ed_End :: rat
  ed_CropX :: int
  ed_CropY :: int
  ed_CropW :: int
  ed_CropH :: int
  ed_RetentionDays :: int

text \<open>The JSON names of the fields.\<close>

definition DownloadFields :: "DownloadParams json_fields" where
  "DownloadFields =
    [(''mode'', store_string dl_Mode_update), (''format_id'', store_string dl_FormatID_update),
     (''audio_format'', store_string dl_AudioFormat_update), (''audio_bitrate'', store_string dl_AudioBitrate_update),
     (''container'', store_string dl_Container_update), (''embed_subs'', store_bool dl_EmbedSubs_update),
     (''embed_thumbnail'', store_bool dl_EmbedThumb_update), (''embed_metadata'', store_bool dl_EmbedMetadata_update),
     (''retention_days'', store_int dl_RetentionDays_update)]"

definition ConvertFields :: "ConvertParams json_fields" where
  "ConvertFields =
    [(''preset'', store_string cv_Preset_update), (''container'', store_string cv_Container_update),
     (''video_codec'', store_string cv_VideoCodec_update), (''speed'', store_string cv_Speed_update),
     (''crf'', store_int cv_CRF_update), (''resolution'', store_string cv_Resolution_update),
     (''frame_rate'', store_string cv_FrameRate_update), (''audio_codec'', store_string cv_AudioCodec_update),
     (''audio_bitrate'', store_string cv_AudioBitrate_update), (''strip_metadata'', store_bool cv_StripMetadata_update),
     (''retention_days'', store_int cv_RetentionDays_update)]"

definition CompressFields :: "CompressParams json_fields" where
  "CompressFields =
    [(''target'', store_string cm_Target_update), (''target_size_mb'', store_int cm_TargetSizeMB_update),
     (''container'', store_string cm_Container_update), (''video_codec'', store_string cm_VideoCodec_update),
     (''speed'', store_string cm_Speed_update), (''resolution'', store_string cm_Resolution_update),
     (''audio_bitrate'', store_string cm_AudioBitrate_update), (''strip_metadata'', store_bool cm_StripMetadata_update),
     (''retention_days'', store_int cm_RetentionDays_update)]"

definition ImageFields :: "ImageParams json_fields" where
  "ImageFields =
    [(''format'', store_string im_Format_update), (''trace'', store_string im_Trace_update),
     (''quality'', store_int im_Quality_update), (''width'', store_int im_Width_update),
     (''height'', store_int im_Height_update), (''strip_metadata'', store_bool im_StripMetadata_update),
     (''retention_days'', store_int im_RetentionDays_update)]"

definition EditFields :: "EditParams json_fields" where
  "EditFields =
    [(''start'', store_float ed_Start_update), (''end'', store_float ed_End_update),
     (''crop_x'', store_int ed_CropX_update), (''crop_y'', store_int ed_CropY_update),
     (''crop_w'', store_int ed_CropW_update), (''crop_h'', store_int ed_CropH_update),
     (''retention_days'', store_int ed_RetentionDays_update)]"

subsection \<open>Checks\<close>

text \<open>A check returns the error it finds, if any.\<close>

definition decode :: "'p json_fields \<Rightarrow> json option \<Rightarrow> 'p \<Rightarrow> ValidationError + 'p" where
  "decode fs raw p = (case raw of
      None \<Rightarrow> Inr p
    | Some j \<Rightarrow> (case decode_struct fs j p of None \<Rightarrow> Inl (invalid ''params'' JsonError) | Some p' \<Rightarrow> Inr p'))"

definition oneOf :: "string \<Rightarrow> string \<Rightarrow> Options \<Rightarrow> ValidationError option" where
  "oneOf field value opts =
     (if value \<in> set (map fst opts) then None else Some (invalid field (NotAllowed value)))"

definition checkRetention :: "int \<Rightarrow> ValidationError option" where
  "checkRetention days =
     (if days \<in> set [0, 1, 7, 30] then None else Some (invalid ''retention_days'' (Text ''must be one of 0, 1, 7, 30'')))"

definition DefaultAudioCodec :: "string \<Rightarrow> string" where
  "DefaultAudioCodec container = (if container = ''webm'' then ''opus'' else ''aac'')"

definition checkContainerCodec :: "string \<Rightarrow> string \<Rightarrow> string \<Rightarrow> ValidationError option" where
  "checkContainerCodec container vcodec acodec =
     (if vcodec = ''copy'' \<or> acodec = ''copy'' then None
      else if container = ''webm'' then
        (if vcodec \<noteq> ''vp9'' \<and> vcodec \<noteq> ''av1'' then Some (invalid ''container'' (Text ''WebM accepts only VP9 or AV1 video''))
         else if acodec \<noteq> ''opus'' \<and> acodec \<noteq> ''none'' then Some (invalid ''audio_codec'' (Text ''WebM accepts only Opus audio''))
         else None)
      else if container = ''mp4'' \<or> container = ''mov'' then
        (if vcodec = ''vp9'' then
           Some (invalid ''container'' (Text ''VP9 is not supported in MP4/MOV here - use WebM or MKV''))
         else if acodec = ''flac'' then
           Some (invalid ''audio_codec'' (Text ''FLAC is not supported in MP4/MOV - use MKV''))
         else None)
      else None)"

text \<open>The format selector: one or two ids joined by a plus, each starting with a letter or digit.\<close>

definition format_id :: "string \<Rightarrow> bool" where
  "format_id s \<longleftrightarrow> s \<noteq> [] \<and> is_alnum (hd s) \<and> list_all (\<lambda>c. is_alnum c \<or> c \<in> set ''_.-'') s"

definition formatIDRe :: "string \<Rightarrow> bool" where
  "formatIDRe s = (case Split s CHR ''+'' of [a] \<Rightarrow> format_id a | [a, b] \<Rightarrow> format_id a \<and> format_id b | _ \<Rightarrow> False)"

definition between_text :: "int \<Rightarrow> int \<Rightarrow> string \<Rightarrow> reason" where
  "between_text lo hi rest = Text (''must be between '' @ Itoa lo @ '' and '' @ Itoa hi @ rest)"

subsection \<open>Downloads\<close>

definition download_checks :: "DownloadParams \<Rightarrow> ValidationError option list" where
  "download_checks p =
     [if dl_Mode p \<noteq> ''video'' \<and> dl_Mode p \<noteq> ''audio'' then Some (invalid ''mode'' (Text ''must be video or audio'')) else None,
      if dl_FormatID p \<noteq> '''' \<and> \<not> formatIDRe (dl_FormatID p)
        then Some (invalid ''format_id'' (Text ''contains disallowed characters'')) else None,
      if length (dl_FormatID p) > 64 then Some (invalid ''format_id'' (Text ''too long'')) else None,
      if dl_Mode p = ''audio'' then oneOf ''audio_format'' (dl_AudioFormat p) AudioFormats else None,
      if dl_Mode p = ''audio'' \<and> dl_AudioBitrate p \<noteq> ''''
        then oneOf ''audio_bitrate'' (dl_AudioBitrate p) AudioBitrates else None,
      if dl_Mode p \<noteq> ''audio'' \<and> dl_Container p \<noteq> ''''
        then oneOf ''container'' (dl_Container p) VideoContainers else None,
      checkRetention (dl_RetentionDays p)]"

definition checked :: "ValidationError option list \<Rightarrow> 'p \<Rightarrow> ValidationError + 'p" where
  "checked cs p = (case first_error cs of None \<Rightarrow> Inr p | Some e \<Rightarrow> Inl e)"

definition DownloadDefaults :: "int \<Rightarrow> DownloadParams" where
  "DownloadDefaults d = \<lparr>dl_Mode = ''video'', dl_FormatID = '''', dl_AudioFormat = '''', dl_AudioBitrate = '''',
     dl_Container = '''', dl_EmbedSubs = False, dl_EmbedThumb = False, dl_EmbedMetadata = False, dl_RetentionDays = d\<rparr>"

definition ParseDownload :: "json option \<Rightarrow> int \<Rightarrow> ValidationError + DownloadParams" where
  "ParseDownload raw d =
     (case decode DownloadFields raw (DownloadDefaults d) of
        Inl e \<Rightarrow> Inl e
      | Inr p \<Rightarrow> checked (download_checks p) p)"


subsection \<open>Conversion\<close>

text \<open>The raw speed and CRF are only checked for \<open>custom\<close>; any other preset overrides both.\<close>

definition checkPreset :: "ConvertParams \<Rightarrow> ValidationError option" where
  "checkPreset p =
     (if cv_Preset p \<noteq> ''custom'' then
        (if cv_VideoCodec p = ''copy'' then
           Some (invalid ''preset'' (Text ''there is nothing to tune when copying the video stream - choose the custom preset''))
         else if lookup2 EncodePresetCRF (cv_Preset p) (cv_VideoCodec p) = None then
           Some (invalid ''preset'' (Text (''has no settings for the '' @ cv_VideoCodec p @ '' codec'')))
         else None)
      else case oneOf ''speed'' (cv_Speed p) EncodeSpeeds of
        Some e \<Rightarrow> Some e
      | None \<Rightarrow>
          if cv_VideoCodec p = ''copy'' then None
          else case map_of CRFBounds (cv_VideoCodec p) of
            None \<Rightarrow> Some (invalid ''video_codec'' (Text ''no quality range defined''))
          | Some (lo, hi) \<Rightarrow>
              if cv_CRF p < lo \<or> cv_CRF p > hi
              then Some (invalid ''crf'' (between_text lo hi ('' for '' @ cv_VideoCodec p)))
              else None)"

definition Resolved :: "ConvertParams \<Rightarrow> string \<times> int" where
  "Resolved p =
     (case lookup2 EncodePresetCRF (cv_Preset p) (cv_VideoCodec p) of
        None \<Rightarrow> (cv_Speed p, cv_CRF p)
      | Some crf \<Rightarrow> ((case map_of EncodePresetSpeed (cv_Preset p) of Some s \<Rightarrow> s | None \<Rightarrow> ''''), crf))"

definition ConvertDefaults :: "int \<Rightarrow> ConvertParams" where
  "ConvertDefaults d = \<lparr>cv_Preset = ''custom'', cv_Container = ''mp4'', cv_VideoCodec = ''h264'', cv_Speed = ''medium'',
     cv_CRF = 23, cv_Resolution = ''source'', cv_FrameRate = ''source'', cv_AudioCodec = ''aac'',
     cv_AudioBitrate = ''192'', cv_StripMetadata = False, cv_RetentionDays = d\<rparr>"

definition convert_checks :: "ConvertParams \<Rightarrow> ValidationError option list" where
  "convert_checks p =
     [oneOf ''container'' (cv_Container p) VideoContainers,
      oneOf ''video_codec'' (cv_VideoCodec p) VideoCodecs,
      oneOf ''preset'' (cv_Preset p) EncodePresets,
      checkPreset p,
      oneOf ''resolution'' (cv_Resolution p) Resolutions,
      oneOf ''frame_rate'' (cv_FrameRate p) FrameRates,
      oneOf ''audio_codec'' (cv_AudioCodec p) AudioCodecs,
      if cv_AudioCodec p \<noteq> ''none'' \<and> cv_AudioCodec p \<noteq> ''copy'' \<and> cv_AudioCodec p \<noteq> ''flac''
        then oneOf ''audio_bitrate'' (cv_AudioBitrate p) AudioBitrates else None,
      checkContainerCodec (cv_Container p) (cv_VideoCodec p) (cv_AudioCodec p),
      checkRetention (cv_RetentionDays p)]"

definition ParseConvert :: "json option \<Rightarrow> int \<Rightarrow> ValidationError + ConvertParams" where
  "ParseConvert raw d =
     (case decode ConvertFields raw (ConvertDefaults d) of
        Inl e \<Rightarrow> Inl e
      | Inr p \<Rightarrow> (case checked (convert_checks p) p of
            Inl e \<Rightarrow> Inl e
          | Inr p \<Rightarrow> Inr (p\<lparr>cv_Speed := fst (Resolved p), cv_CRF := snd (Resolved p)\<rparr>)))"

subsection \<open>Compression\<close>

definition IsSizeTarget :: "CompressParams \<Rightarrow> bool" where
  "IsSizeTarget p \<longleftrightarrow> cm_Target p = ''target_size''"

definition CompressCRFFor :: "CompressParams \<Rightarrow> int" where
  "CompressCRFFor p = (case lookup2 CompressCRF (cm_Target p) (cm_VideoCodec p) of Some n \<Rightarrow> n | None \<Rightarrow> 0)"

definition checkTargetSize :: "CompressParams \<Rightarrow> ValidationError option" where
  "checkTargetSize p =
     (if \<not> IsSizeTarget p then
        (if cm_TargetSizeMB p \<noteq> 0 then
           Some (invalid ''target_size_mb'' (Text ''is only accepted when target is target_size''))
         else if lookup2 CompressCRF (cm_Target p) (cm_VideoCodec p) = None then
           Some (invalid ''video_codec'' (Text ''not supported for compression''))
         else None)
      else if cm_VideoCodec p = ''copy'' then
        Some (invalid ''video_codec'' (Text (''a copied stream keeps its original bitrate, so it cannot hit a size target '' @
          ''- pick a codec to re-encode with'')))
      else if map_of CRFBounds (cm_VideoCodec p) = None then
        Some (invalid ''video_codec'' (Text ''not supported for compression''))
      else if cm_TargetSizeMB p = 0 then
        Some (invalid ''target_size_mb'' (Text ''is required when target is target_size''))
      else if cm_TargetSizeMB p < TargetSizeMinMB \<or> cm_TargetSizeMB p > TargetSizeMaxMB then
        Some (invalid ''target_size_mb'' (between_text TargetSizeMinMB TargetSizeMaxMB '' MB''))
      else None)"

definition CompressDefaults :: "int \<Rightarrow> CompressParams" where
  "CompressDefaults d = \<lparr>cm_Target = ''balanced'', cm_TargetSizeMB = 0, cm_Container = ''mp4'', cm_VideoCodec = ''h264'',
     cm_Speed = ''medium'', cm_Resolution = ''source'', cm_AudioBitrate = ''128'', cm_StripMetadata = False,
     cm_RetentionDays = d\<rparr>"

definition compress_checks :: "CompressParams \<Rightarrow> ValidationError option list" where
  "compress_checks p =
     [oneOf ''target'' (cm_Target p) CompressTargets,
      oneOf ''container'' (cm_Container p) VideoContainers,
      oneOf ''speed'' (cm_Speed p) EncodeSpeeds,
      oneOf ''resolution'' (cm_Resolution p) Resolutions,
      oneOf ''audio_bitrate'' (cm_AudioBitrate p) AudioBitrates,
      checkTargetSize p,
      checkContainerCodec (cm_Container p) (cm_VideoCodec p) (DefaultAudioCodec (cm_Container p)),
      checkRetention (cm_RetentionDays p)]"

definition ParseCompress :: "json option \<Rightarrow> int \<Rightarrow> ValidationError + CompressParams" where
  "ParseCompress raw d =
     (case decode CompressFields raw (CompressDefaults d) of
        Inl e \<Rightarrow> Inl e
      | Inr p \<Rightarrow> checked (compress_checks p) p)"

subsection \<open>Images\<close>

definition ImageDefaults :: "int \<Rightarrow> ImageParams" where
  "ImageDefaults d = \<lparr>im_Format = ''webp'', im_Trace = ''dark'', im_Quality = 82, im_Width = 0, im_Height = 0,
     im_StripMetadata = True, im_RetentionDays = d\<rparr>"

definition image_checks :: "ImageParams \<Rightarrow> ValidationError option list" where
  "image_checks p =
     [oneOf ''format'' (im_Format p) ImageFormats,
      oneOf ''trace'' (im_Trace p) TraceTargets,
      if im_Quality p < 0 \<or> im_Quality p > 100 then Some (invalid ''quality'' (between_text 0 100 '''')) else None,
      if im_Width p < 0 \<or> im_Width p > maxDim then Some (invalid ''width'' (between_text 0 maxDim '''')) else None,
      if im_Height p < 0 \<or> im_Height p > maxDim then Some (invalid ''height'' (between_text 0 maxDim '''')) else None,
      checkRetention (im_RetentionDays p)]"

definition ParseImage :: "json option \<Rightarrow> int \<Rightarrow> ValidationError + ImageParams" where
  "ParseImage raw d =
     (case decode ImageFields raw (ImageDefaults d) of
        Inl e \<Rightarrow> Inl e
      | Inr p \<Rightarrow> checked (image_checks p) p)"

text \<open>\<open>source\<close> is decided by the extension of the input, through a table of what can be written.\<close>

definition ResolveFormat :: "ImageParams \<Rightarrow> string \<Rightarrow> ValidationError + string" where
  "ResolveFormat p inputPath =
     (if im_Format p \<noteq> ''source'' then Inr (im_Format p)
      else let ext = ToLower (TrimPrefix (Ext inputPath) ''.'') in
        if ext = '''' then
          Inl (invalid ''format'' (Text ''this file has no extension, so its format cannot be kept - choose an output format''))
        else case map_of imageFormatByExt ext of
          None \<Rightarrow> Inl (invalid ''format'' (Text (ToUpper ext @ '' files cannot be written back as '' @ ToUpper ext @
            '' - choose an output format'')))
        | Some f \<Rightarrow> Inr f)"

subsection \<open>Edits\<close>

text \<open>
  \<open>checkCrop\<close> clears the lowest bit of a crop size, and checks the two sizes in the order the
  iteration over a Go map has, which is arbitrary: \<open>h_first\<close> is that choice.
\<close>

definition even_down :: "int \<Rightarrow> int" where
  "even_down n = n AND NOT 1"

definition crop_range :: "string \<Rightarrow> int \<Rightarrow> ValidationError option" where
  "crop_range field v =
     (if v < cropMinPixels \<or> v > cropMaxPixels
      then Some (invalid field (between_text cropMinPixels cropMaxPixels '' pixels'')) else None)"

definition checkCrop :: "bool \<Rightarrow> EditParams \<Rightarrow> ValidationError option \<times> EditParams" where
  "checkCrop h_first p =
     (if ed_CropW p = 0 \<and> ed_CropH p = 0 then
        (if ed_CropX p \<noteq> 0 \<or> ed_CropY p \<noteq> 0
         then (Some (invalid ''crop_w'' (Text ''an offset needs a crop size as well'')), p) else (None, p))
      else
        let p = p\<lparr>ed_CropW := even_down (ed_CropW p), ed_CropH := even_down (ed_CropH p)\<rparr>;
            sizes = [crop_range ''crop_w'' (ed_CropW p), crop_range ''crop_h'' (ed_CropH p)]
        in (first_error ((if h_first then rev sizes else sizes) @
              [if ed_CropX p < 0 \<or> ed_CropY p < 0 \<or> ed_CropX p > cropMaxPixels \<or> ed_CropY p > cropMaxPixels
               then Some (invalid ''crop_x'' (Text ''is outside the frame'')) else None]), p))"

definition edit_checks :: "EditParams \<Rightarrow> ValidationError option list" where
  "edit_checks p =
     [if ed_Start p < 0 \<or> ed_Start p > editMaxSeconds then Some (invalid ''start'' (Text ''is outside the file'')) else None,
      if ed_End p < 0 \<or> ed_End p > editMaxSeconds then Some (invalid ''end'' (Text ''is outside the file'')) else None,
      if ed_End p > 0 \<and> fl_fin (ed_End p - ed_Start p) < editMinSpan
        then Some (invalid ''end'' (Text ''must be at least a tenth of a second after the start'')) else None]"

definition EditDefaults :: "int \<Rightarrow> EditParams" where
  "EditDefaults d = \<lparr>ed_Start = 0, ed_End = 0, ed_CropX = 0, ed_CropY = 0, ed_CropW = 0, ed_CropH = 0, ed_RetentionDays = d\<rparr>"

definition ParseEdit :: "bool \<Rightarrow> json option \<Rightarrow> int \<Rightarrow> ValidationError + EditParams" where
  "ParseEdit h_first raw d =
     (case decode EditFields raw (EditDefaults d) of
        Inl e \<Rightarrow> Inl e
      | Inr p \<Rightarrow> (case first_error (edit_checks p) of
            Some e \<Rightarrow> Inl e
          | None \<Rightarrow> (case checkCrop h_first p of
                (Some e, _) \<Rightarrow> Inl e
              | (None, p) \<Rightarrow> checked [checkRetention (ed_RetentionDays p)] p)))"

definition HasCrop :: "EditParams \<Rightarrow> bool" where
  "HasCrop p \<longleftrightarrow> ed_CropW p > 0 \<and> ed_CropH p > 0"

definition Span :: "EditParams \<Rightarrow> rat" where
  "Span p = (if ed_End p \<le> ed_Start p then 0 else fl_fin (ed_End p - ed_Start p))"

subsection \<open>What the form is told\<close>

record EncodePresetValue =
  ev_Speed :: string
  ev_CRF :: "(string \<times> int) list"

record CompressTargetValue =
  tv_CRF :: "(string \<times> int) list"
  tv_Speed :: string
  tv_Resolution :: string
  tv_AudioBitrate :: string

definition inner :: "(string \<times> (string \<times> int) list) list \<Rightarrow> string \<Rightarrow> (string \<times> int) list" where
  "inner m k = (case map_of m k of Some n \<Rightarrow> n | None \<Rightarrow> [])"

definition encodePresetValues :: "(string \<times> EncodePresetValue) list" where
  "encodePresetValues =
     map (\<lambda>(preset, speed). (preset, \<lparr>ev_Speed = speed, ev_CRF = inner EncodePresetCRF preset\<rparr>)) EncodePresetSpeed"

definition compressTargetValues :: "(string \<times> CompressTargetValue) list" where
  "compressTargetValues =
     map (\<lambda>(target, speed, res, bitrate). (target, \<lparr>tv_CRF = inner CompressCRF target, tv_Speed = speed,
       tv_Resolution = res, tv_AudioBitrate = bitrate\<rparr>)) CompressTargetTune"

end
