(* ===== verification/Params.thy ===== *)
theory Params
  imports Presets
begin

text \<open>
  From the client's raw parameters to what is stored and what a runner reads back: \<open>parseParams\<close>
  of \<open>internal/api/handlers_jobs.go\<close>, the marshalling of the validated struct by
  \<open>handleCreateJob\<close>, and the second parse each runner starts with. \<open>params_ok\<close> is what a runner may
  rely on.
\<close>

datatype job_params =
  PDownload DownloadParams
| PConvert ConvertParams
| PCompress CompressParams
| PImage ImageParams
| PEdit EditParams

fun retention_of :: "job_params \<Rightarrow> int" where
  "retention_of (PDownload p) = dl_RetentionDays p"
| "retention_of (PConvert p) = cv_RetentionDays p"
| "retention_of (PCompress p) = cm_RetentionDays p"
| "retention_of (PImage p) = im_RetentionDays p"
| "retention_of (PEdit p) = ed_RetentionDays p"

text \<open>\<open>h_first\<close> is the map order inside \<open>checkCrop\<close>.\<close>

fun parseParams :: "bool \<Rightarrow> Type \<Rightarrow> json option \<Rightarrow> int \<Rightarrow> ValidationError + (job_params \<times> int)" where
  "parseParams h_first TypeDownload raw d =
     (case ParseDownload raw d of Inl e \<Rightarrow> Inl e | Inr p \<Rightarrow> Inr (PDownload p, dl_RetentionDays p))"
| "parseParams h_first TypeConvert raw d =
     (case ParseConvert raw d of Inl e \<Rightarrow> Inl e | Inr p \<Rightarrow> Inr (PConvert p, cv_RetentionDays p))"
| "parseParams h_first TypeCompress raw d =
     (case ParseCompress raw d of Inl e \<Rightarrow> Inl e | Inr p \<Rightarrow> Inr (PCompress p, cm_RetentionDays p))"
| "parseParams h_first TypeImage raw d =
     (case ParseImage raw d of Inl e \<Rightarrow> Inl e | Inr p \<Rightarrow> Inr (PImage p, im_RetentionDays p))"
| "parseParams h_first TypeEdit raw d =
     (case ParseEdit h_first raw d of Inl e \<Rightarrow> Inl e | Inr p \<Rightarrow> Inr (PEdit p, ed_RetentionDays p))"

subsection \<open>Marshalling\<close>

text \<open>
  \<open>json.Marshal\<close> of a struct: every field, in declaration order, under its JSON name. A float is
  written as a decimal literal; \<open>dec v\<close> is the number the literal for \<open>v\<close> denotes, in Go the
  shortest decimal that reads back as \<open>v\<close>.
\<close>

fun Marshal :: "(rat \<Rightarrow> rat) \<Rightarrow> job_params \<Rightarrow> json" where
  "Marshal dec (PDownload p) = JObj
     [(''mode'', JStr (dl_Mode p)), (''format_id'', JStr (dl_FormatID p)), (''audio_format'', JStr (dl_AudioFormat p)),
      (''audio_bitrate'', JStr (dl_AudioBitrate p)), (''container'', JStr (dl_Container p)),
      (''embed_subs'', JBool (dl_EmbedSubs p)), (''embed_thumbnail'', JBool (dl_EmbedThumb p)),
      (''embed_metadata'', JBool (dl_EmbedMetadata p)), (''retention_days'', JInt (dl_RetentionDays p))]"
| "Marshal dec (PConvert p) = JObj
     [(''preset'', JStr (cv_Preset p)), (''container'', JStr (cv_Container p)), (''video_codec'', JStr (cv_VideoCodec p)),
      (''speed'', JStr (cv_Speed p)), (''crf'', JInt (cv_CRF p)), (''resolution'', JStr (cv_Resolution p)),
      (''frame_rate'', JStr (cv_FrameRate p)), (''audio_codec'', JStr (cv_AudioCodec p)),
      (''audio_bitrate'', JStr (cv_AudioBitrate p)), (''strip_metadata'', JBool (cv_StripMetadata p)),
      (''retention_days'', JInt (cv_RetentionDays p))]"
| "Marshal dec (PCompress p) = JObj
     [(''target'', JStr (cm_Target p)), (''target_size_mb'', JInt (cm_TargetSizeMB p)), (''container'', JStr (cm_Container p)),
      (''video_codec'', JStr (cm_VideoCodec p)), (''speed'', JStr (cm_Speed p)), (''resolution'', JStr (cm_Resolution p)),
      (''audio_bitrate'', JStr (cm_AudioBitrate p)), (''strip_metadata'', JBool (cm_StripMetadata p)),
      (''retention_days'', JInt (cm_RetentionDays p))]"
| "Marshal dec (PImage p) = JObj
     [(''format'', JStr (im_Format p)), (''trace'', JStr (im_Trace p)), (''quality'', JInt (im_Quality p)),
      (''width'', JInt (im_Width p)), (''height'', JInt (im_Height p)), (''strip_metadata'', JBool (im_StripMetadata p)),
      (''retention_days'', JInt (im_RetentionDays p))]"
| "Marshal dec (PEdit p) = JObj
     [(''start'', JFrac (dec (ed_Start p))), (''end'', JFrac (dec (ed_End p))), (''crop_x'', JInt (ed_CropX p)),
      (''crop_y'', JInt (ed_CropY p)), (''crop_w'', JInt (ed_CropW p)), (''crop_h'', JInt (ed_CropH p)),
      (''retention_days'', JInt (ed_RetentionDays p))]"

subsection \<open>What decoding keeps\<close>

lemma find_SomeD: "find P xs = Some x \<Longrightarrow> P x \<and> x \<in> set xs"
  by (induction xs) (auto split: if_splits)

lemma decode_members_inv:
  assumes "\<And>k st v p p'. (k, st) \<in> set fs \<Longrightarrow> P p \<Longrightarrow> st v p = Some p' \<Longrightarrow> P p'"
  shows "P p \<Longrightarrow> decode_members fs ms p = Some p' \<Longrightarrow> P p'"
proof (induction ms arbitrary: p)
  case (Cons m ms)
  obtain k v where m: "m = (k, v)" by fastforce
  from Cons.prems(2) obtain st q where st: "find_field fs k = Some st" "st v p = Some q" "decode_members fs ms q = Some p'"
    unfolding m by (auto split: option.splits)
  from st(1) have "\<exists>k'. (k', st) \<in> set fs"
    by (auto simp: find_field_def dest: map_of_SomeD find_SomeD split: option.splits)
  then have "P q" using assms st(2) Cons.prems(1) by blast
  then show ?case using Cons.IH st(3) by blast
qed simp

lemma decode_inv:
  assumes "\<And>k st v p p'. (k, st) \<in> set fs \<Longrightarrow> P p \<Longrightarrow> st v p = Some p' \<Longrightarrow> P p'"
    and "P p" and "decode fs raw p = Inr p'"
  shows "P p'"
proof (cases raw)
  case None
  with assms(2,3) show ?thesis by (simp add: decode_def)
next
  case (Some j)
  with assms(3) have "decode_struct fs j p = Some p'" by (simp add: decode_def split: option.splits)
  then consider "p' = p" | ms where "decode_members fs ms p = Some p'" by (cases j) auto
  then show ?thesis
  proof cases
    case (2 ms)
    show ?thesis by (rule decode_members_inv [where P = P and fs = fs, OF _ assms(2) 2]) (rule assms(1))
  qed (simp add: assms(2))
qed

lemma store_Some:
  "store_string us v p = Some p' \<longleftrightarrow> v = JNull \<and> p' = p \<or> (\<exists>s. v = JStr s \<and> p' = us (\<lambda>_. s) p)"
  "store_bool ub v p = Some p' \<longleftrightarrow> v = JNull \<and> p' = p \<or> (\<exists>b. v = JBool b \<and> p' = ub (\<lambda>_. b) p)"
  "store_int ui v p = Some p' \<longleftrightarrow> v = JNull \<and> p' = p \<or> (\<exists>n. v = JInt n \<and> is_int64 n \<and> p' = ui (\<lambda>_. n) p)"
  by (cases v; auto)+

lemma store_float_Some:
  "store_float uf v p = Some p' \<Longrightarrow> v = JNull \<and> p' = p \<or> (\<exists>x. fl x = Some x \<and> p' = uf (\<lambda>_. x) p)"
proof (cases v)
  case (JInt n)
  assume "store_float uf v p = Some p'"
  then obtain x where "fl (of_int n) = Some x" "p' = uf (\<lambda>_. x) p" unfolding JInt by (cases "fl (of_int n)") auto
  with fl_idem [OF this(1)] show ?thesis by blast
next
  case (JFrac y)
  assume "store_float uf v p = Some p'"
  then obtain x where "fl y = Some x" "p' = uf (\<lambda>_. x) p" unfolding JFrac by (cases "fl y") auto
  with fl_idem [OF this(1)] show ?thesis by blast
qed auto

text \<open>A decoded integer fits its type, and a decoded float is representable.\<close>

definition convert_ints :: "ConvertParams \<Rightarrow> bool" where
  "convert_ints p \<longleftrightarrow> is_int64 (cv_CRF p)"

definition edit_floats :: "EditParams \<Rightarrow> bool" where
  "edit_floats p \<longleftrightarrow> fl (ed_Start p) = Some (ed_Start p) \<and> fl (ed_End p) = Some (ed_End p)"

lemma decode_convert_ints:
  assumes "decode ConvertFields raw (ConvertDefaults d) = Inr p"
  shows "convert_ints p"
proof (rule decode_inv [OF _ _ assms(1)])
  show "convert_ints (ConvertDefaults d)" by (simp add: convert_ints_def ConvertDefaults_def is_int64_def int64_min_def int64_max_def)
qed (auto simp: ConvertFields_def convert_ints_def store_Some)

lemma decode_edit_floats:
  assumes "decode EditFields raw (EditDefaults d) = Inr p"
  shows "edit_floats p"
proof (rule decode_inv [OF _ _ assms(1)])
  show "edit_floats (EditDefaults d)" by (simp add: edit_floats_def EditDefaults_def)
qed (auto simp: EditFields_def edit_floats_def store_Some dest!: store_float_Some)

end
