(* ===== verification/ParamsSpec.thy ===== *)
theory ParamsSpec
  imports Params
begin

text \<open>
  What the parameter validation guarantees: accepted parameters are well-formed, and they survive
  the way through the database to the runner unchanged.
\<close>

subsection \<open>What a runner may rely on\<close>

definition allowed :: "Options \<Rightarrow> string \<Rightarrow> bool" where
  "allowed opts v \<longleftrightarrow> v \<in> set (map fst opts)"

definition in_bounds :: "string \<Rightarrow> int \<Rightarrow> bool" where
  "in_bounds codec crf \<longleftrightarrow> (case map_of CRFBounds codec of None \<Rightarrow> False | Some (lo, hi) \<Rightarrow> lo \<le> crf \<and> crf \<le> hi)"

definition can_mux :: "string \<Rightarrow> string \<Rightarrow> string \<Rightarrow> bool" where
  "can_mux container v a \<longleftrightarrow> v = ''copy'' \<or> a = ''copy'' \<or>
     (container = ''webm'' \<longrightarrow> v \<in> {''vp9'', ''av1''} \<and> a \<in> {''opus'', ''none''}) \<and>
     (container \<in> {''mp4'', ''mov''} \<longrightarrow> v \<noteq> ''vp9'' \<and> a \<noteq> ''flac'')"

definition retention_ok :: "int \<Rightarrow> bool" where
  "retention_ok d \<longleftrightarrow> d \<in> {0, 1, 7, 30}"

definition crop_ok :: "EditParams \<Rightarrow> bool" where
  "crop_ok p \<longleftrightarrow>
     (ed_CropW p = 0 \<and> ed_CropH p = 0 \<and> ed_CropX p = 0 \<and> ed_CropY p = 0 \<or>
      even (ed_CropW p) \<and> even (ed_CropH p) \<and> ed_CropW p \<in> {16..20000} \<and> ed_CropH p \<in> {16..20000} \<and>
      ed_CropX p \<in> {0..20000} \<and> ed_CropY p \<in> {0..20000})"

fun params_ok :: "job_params \<Rightarrow> bool" where
  "params_ok (PDownload p) \<longleftrightarrow>
     dl_Mode p \<in> {''video'', ''audio''} \<and>
     (dl_FormatID p = '''' \<or> formatIDRe (dl_FormatID p)) \<and> length (dl_FormatID p) \<le> 64 \<and>
     (dl_Mode p = ''audio'' \<longrightarrow> allowed AudioFormats (dl_AudioFormat p) \<and>
        (dl_AudioBitrate p = '''' \<or> allowed AudioBitrates (dl_AudioBitrate p))) \<and>
     (dl_Mode p = ''video'' \<longrightarrow> dl_Container p = '''' \<or> allowed VideoContainers (dl_Container p)) \<and>
     retention_ok (dl_RetentionDays p)"
| "params_ok (PConvert p) \<longleftrightarrow>
     allowed VideoContainers (cv_Container p) \<and> allowed VideoCodecs (cv_VideoCodec p) \<and>
     allowed EncodeSpeeds (cv_Speed p) \<and> (cv_VideoCodec p = ''copy'' \<or> in_bounds (cv_VideoCodec p) (cv_CRF p)) \<and>
     allowed Resolutions (cv_Resolution p) \<and> allowed FrameRates (cv_FrameRate p) \<and> allowed AudioCodecs (cv_AudioCodec p) \<and>
     (cv_AudioCodec p \<in> {''none'', ''copy'', ''flac''} \<or> allowed AudioBitrates (cv_AudioBitrate p)) \<and>
     can_mux (cv_Container p) (cv_VideoCodec p) (cv_AudioCodec p) \<and> Resolved p = (cv_Speed p, cv_CRF p) \<and>
     retention_ok (cv_RetentionDays p)"
| "params_ok (PCompress p) \<longleftrightarrow>
     allowed CompressTargets (cm_Target p) \<and>
     allowed VideoContainers (cm_Container p) \<and> allowed EncodeSpeeds (cm_Speed p) \<and> allowed Resolutions (cm_Resolution p) \<and>
     allowed AudioBitrates (cm_AudioBitrate p) \<and> map_of CRFBounds (cm_VideoCodec p) \<noteq> None \<and>
     (if IsSizeTarget p then 1 \<le> cm_TargetSizeMB p \<and> cm_TargetSizeMB p \<le> 65536
      else cm_TargetSizeMB p = 0 \<and> in_bounds (cm_VideoCodec p) (CompressCRFFor p)) \<and>
     can_mux (cm_Container p) (cm_VideoCodec p) (DefaultAudioCodec (cm_Container p)) \<and> retention_ok (cm_RetentionDays p)"
| "params_ok (PImage p) \<longleftrightarrow>
     allowed ImageFormats (im_Format p) \<and> allowed TraceTargets (im_Trace p) \<and> im_Quality p \<in> {0..100} \<and>
     im_Width p \<in> {0..20000} \<and> im_Height p \<in> {0..20000} \<and> retention_ok (im_RetentionDays p)"
| "params_ok (PEdit p) \<longleftrightarrow>
     0 \<le> ed_Start p \<and> ed_Start p \<le> 86400 \<and> 0 \<le> ed_End p \<and> ed_End p \<le> 86400 \<and>
     (0 < ed_End p \<longrightarrow> editMinSpan \<le> fl_fin (ed_End p - ed_Start p)) \<and> crop_ok p \<and> retention_ok (ed_RetentionDays p)"

fun type_of :: "job_params \<Rightarrow> Type" where
  "type_of (PDownload p) = TypeDownload"
| "type_of (PConvert p) = TypeConvert"
| "type_of (PCompress p) = TypeCompress"
| "type_of (PImage p) = TypeImage"
| "type_of (PEdit p) = TypeEdit"

lemma check_None:
  "oneOf f v opts = None \<longleftrightarrow> allowed opts v"
  "checkRetention d = None \<longleftrightarrow> retention_ok d"
  "checkContainerCodec c v a = None \<longleftrightarrow> can_mux c v a"
  "crop_range f n = None \<longleftrightarrow> n \<in> {16..20000}"
  by (auto simp: oneOf_def allowed_def checkRetention_def retention_ok_def checkContainerCodec_def can_mux_def crop_range_def
      cropMinPixels_def cropMaxPixels_def)

lemma checked_Inr [simp]: "checked cs p = Inr q \<longleftrightarrow> q = p \<and> (\<forall>c \<in> set cs. c = None)"
  using first_error_None [of cs] by (auto simp: checked_def split: option.splits)

lemma lookup2_Some: "lookup2 m a b = Some n \<longleftrightarrow> (\<exists>t. map_of m a = Some t \<and> map_of t b = Some n)"
  by (simp add: lookup2_def split: option.splits)

lemma preset_crf:
  "lookup2 EncodePresetCRF a b = Some n \<Longrightarrow> in_bounds b n \<and> (\<exists>s. map_of EncodePresetSpeed a = Some s \<and> allowed EncodeSpeeds s)"
  by (auto simp: lookup2_Some EncodePresetCRF_def in_bounds_def CRFBounds_def EncodePresetSpeed_def allowed_def EncodeSpeeds_def
      split: if_splits)

lemma compress_crf: "lookup2 CompressCRF a b = Some n \<Longrightarrow> in_bounds b n"
  by (auto simp: lookup2_Some CompressCRF_def in_bounds_def CRFBounds_def split: if_splits)

lemma custom_unresolved: "lookup2 EncodePresetCRF ''custom'' b = None"
  by (simp add: lookup2_def EncodePresetCRF_def)

lemma checkPreset_None:
  "checkPreset p = None \<longleftrightarrow>
     (if cv_Preset p \<noteq> ''custom'' then cv_VideoCodec p \<noteq> ''copy'' \<and> lookup2 EncodePresetCRF (cv_Preset p) (cv_VideoCodec p) \<noteq> None
      else allowed EncodeSpeeds (cv_Speed p) \<and> (cv_VideoCodec p = ''copy'' \<or> in_bounds (cv_VideoCodec p) (cv_CRF p)))"
  using check_None(1) [of "''speed''" "cv_Speed p" EncodeSpeeds]
  by (auto simp: checkPreset_def in_bounds_def not_less split: option.splits)

lemma checkTargetSize_None:
  "checkTargetSize p = None \<longleftrightarrow>
     (if IsSizeTarget p then cm_VideoCodec p \<noteq> ''copy'' \<and> map_of CRFBounds (cm_VideoCodec p) \<noteq> None \<and>
        1 \<le> cm_TargetSizeMB p \<and> cm_TargetSizeMB p \<le> 65536
      else cm_TargetSizeMB p = 0 \<and> lookup2 CompressCRF (cm_Target p) (cm_VideoCodec p) \<noteq> None)"
  by (auto simp: checkTargetSize_def TargetSizeMinMB_def TargetSizeMaxMB_def)

text \<open>The struct \<open>ParseConvert\<close> returns: the one that passed, with the preset folded in.\<close>

definition folded :: "ConvertParams \<Rightarrow> ConvertParams" where
  "folded p = p\<lparr>cv_Speed := fst (Resolved p), cv_CRF := snd (Resolved p)\<rparr>"

lemma Resolved_folded [simp]: "Resolved (folded p) = Resolved p"
  by (auto simp: Resolved_def folded_def split: option.splits)

lemma folded_fields [simp]:
  "cv_Speed (folded p) = fst (Resolved p)" "cv_CRF (folded p) = snd (Resolved p)"
  "cv_Preset (folded p) = cv_Preset p" "cv_Container (folded p) = cv_Container p"
  "cv_VideoCodec (folded p) = cv_VideoCodec p" "cv_Resolution (folded p) = cv_Resolution p"
  "cv_FrameRate (folded p) = cv_FrameRate p" "cv_AudioCodec (folded p) = cv_AudioCodec p"
  "cv_AudioBitrate (folded p) = cv_AudioBitrate p" "cv_StripMetadata (folded p) = cv_StripMetadata p"
  "cv_RetentionDays (folded p) = cv_RetentionDays p"
  by (simp_all add: folded_def)

lemma folded_twice [simp]: "folded (folded p) = folded p"
  by (rule ConvertParams.equality) simp_all

lemma checkPreset_folded: "checkPreset p = None \<Longrightarrow> checkPreset (folded p) = None"
  by (auto simp: checkPreset_None Resolved_def custom_unresolved split: if_splits)

lemma convert_checks_folded:
  "(\<forall>c \<in> set (convert_checks p). c = None) \<Longrightarrow> (\<forall>c \<in> set (convert_checks (folded p)). c = None)"
  using checkPreset_folded [of p] by (auto simp: convert_checks_def split: if_splits)

lemma ParseConvert_Inr:
  "ParseConvert raw d = Inr q \<longleftrightarrow>
     (\<exists>p. decode ConvertFields raw (ConvertDefaults d) = Inr p \<and> (\<forall>c \<in> set (convert_checks p). c = None) \<and> q = folded p)"
proof -
  have "ParseConvert raw d = (case decode ConvertFields raw (ConvertDefaults d) of
      Inl e \<Rightarrow> Inl e | Inr p \<Rightarrow> (case checked (convert_checks p) p of Inl e \<Rightarrow> Inl e | Inr p \<Rightarrow> Inr (folded p)))"
    by (simp only: ParseConvert_def folded_def)
  also have "\<dots> = Inr q \<longleftrightarrow> (\<exists>p. decode ConvertFields raw (ConvertDefaults d) = Inr p \<and> checked (convert_checks p) p = Inr p \<and> q = folded p)"
    by (simp add: result_bind_Inr) (metis Inl_Inr_False)
  finally show ?thesis by simp
qed

lemma convert_params_ok:
  "(\<forall>c \<in> set (convert_checks p). c = None) \<Longrightarrow> params_ok (PConvert (folded p))"
proof -
  assume c: "\<forall>c \<in> set (convert_checks p). c = None"
  have "allowed EncodeSpeeds (fst (Resolved p)) \<and>
      (cv_VideoCodec p = ''copy'' \<or> in_bounds (cv_VideoCodec p) (snd (Resolved p)))"
    using c preset_crf [of "cv_Preset p" "cv_VideoCodec p"]
    by (auto simp: convert_checks_def checkPreset_None Resolved_def custom_unresolved split: if_splits option.splits)
  then show ?thesis
    using c by (auto simp: convert_checks_def check_None split: if_splits)
qed

lemma even_down_even: "even (even_down n)"
  by (simp add: even_down_def even_and_iff even_not_iff)

lemma even_down_id: "even n \<Longrightarrow> even_down n = n"
  unfolding even_down_def by (rule bit_eqI) (auto simp: bit_simps bit_0)

lemma checkCrop_cut:
  assumes "ed_CropW p \<noteq> 0 \<or> ed_CropH p \<noteq> 0"
  shows "checkCrop h p = (None, q) \<longleftrightarrow>
    q = p\<lparr>ed_CropW := even_down (ed_CropW p), ed_CropH := even_down (ed_CropH p)\<rparr> \<and>
    ed_CropW q \<in> {16..20000} \<and> ed_CropH q \<in> {16..20000} \<and> ed_CropX q \<in> {0..20000} \<and> ed_CropY q \<in> {0..20000}"
proof -
  let ?q = "p\<lparr>ed_CropW := even_down (ed_CropW p), ed_CropH := even_down (ed_CropH p)\<rparr>"
  let ?off = "ed_CropX p < 0 \<or> ed_CropY p < 0 \<or> ed_CropX p > cropMaxPixels \<or> ed_CropY p > cropMaxPixels"
  have off: "\<not> ?off \<longleftrightarrow> ed_CropX p \<in> {0..20000} \<and> ed_CropY p \<in> {0..20000}"
    by (auto simp: cropMaxPixels_def)
  have "checkCrop h p = (None, q) \<longleftrightarrow> q = ?q \<and>
      crop_range ''crop_w'' (even_down (ed_CropW p)) = None \<and> crop_range ''crop_h'' (even_down (ed_CropH p)) = None \<and> \<not> ?off"
    unfolding checkCrop_def using assms by (cases h) (auto simp: Let_def first_error_None)
  then show ?thesis unfolding off check_None by auto
qed

lemma checkCrop_sound: "checkCrop h p = (None, q) \<Longrightarrow> crop_ok q"
proof (cases "ed_CropW p = 0 \<and> ed_CropH p = 0")
  case True
  then show "checkCrop h p = (None, q) \<Longrightarrow> crop_ok q" by (auto simp: checkCrop_def crop_ok_def split: if_splits)
next
  case False
  then show "checkCrop h p = (None, q) \<Longrightarrow> crop_ok q" by (auto simp: checkCrop_cut crop_ok_def even_down_even)
qed

lemma checkCrop_frame:
  "checkCrop h p = (None, q) \<Longrightarrow> ed_Start q = ed_Start p \<and> ed_End q = ed_End p \<and> ed_RetentionDays q = ed_RetentionDays p"
  by (auto simp: checkCrop_def Let_def split: if_splits)

lemma edit_checks_frame: "checkCrop h p = (None, q) \<Longrightarrow> edit_checks q = edit_checks p"
  using checkCrop_frame [of h p q] by (simp add: edit_checks_def)

lemma checkCrop_id: "crop_ok q \<Longrightarrow> checkCrop h q = (None, q)"
proof (cases "ed_CropW q = 0 \<and> ed_CropH q = 0")
  case True
  then show "crop_ok q \<Longrightarrow> checkCrop h q = (None, q)" by (auto simp: checkCrop_def crop_ok_def)
next
  case False
  then show "crop_ok q \<Longrightarrow> checkCrop h q = (None, q)" by (auto simp: checkCrop_cut crop_ok_def even_down_id)
qed

lemma ParseEdit_Inr:
  "ParseEdit h raw d = Inr q \<longleftrightarrow>
     (\<exists>p. decode EditFields raw (EditDefaults d) = Inr p \<and> (\<forall>c \<in> set (edit_checks p). c = None) \<and>
        checkCrop h p = (None, q) \<and> retention_ok (ed_RetentionDays q))"
proof -
  have "(case checkCrop h p of (Some e, _) \<Rightarrow> Inl e | (None, p) \<Rightarrow> checked [checkRetention (ed_RetentionDays p)] p) = Inr q \<longleftrightarrow>
      checkCrop h p = (None, q) \<and> retention_ok (ed_RetentionDays q)" for p
    by (cases "checkCrop h p") (auto simp: check_None split: option.splits)
  then have "ParseEdit h raw d = Inr q \<longleftrightarrow>
     (\<exists>p. decode EditFields raw (EditDefaults d) = Inr p \<and> first_error (edit_checks p) = None \<and>
        checkCrop h p = (None, q) \<and> retention_ok (ed_RetentionDays q))"
    by (auto simp: ParseEdit_def result_bind_Inr split: option.splits)
  then show ?thesis by (simp only: first_error_None)
qed


text \<open>Decoding what was marshalled gives it back, whatever the struct was filled with before.\<close>

lemma decode_Marshal:
  "is_int64 (dl_RetentionDays p1) \<Longrightarrow> decode DownloadFields (Some (Marshal dec (PDownload p1))) q1 = Inr p1"
  "is_int64 (cv_CRF p2) \<Longrightarrow> is_int64 (cv_RetentionDays p2) \<Longrightarrow> decode ConvertFields (Some (Marshal dec (PConvert p2))) q2 = Inr p2"
  "is_int64 (cm_TargetSizeMB p3) \<Longrightarrow> is_int64 (cm_RetentionDays p3) \<Longrightarrow>
     decode CompressFields (Some (Marshal dec (PCompress p3))) q3 = Inr p3"
  "is_int64 (im_Quality p4) \<Longrightarrow> is_int64 (im_Width p4) \<Longrightarrow> is_int64 (im_Height p4) \<Longrightarrow> is_int64 (im_RetentionDays p4) \<Longrightarrow>
     decode ImageFields (Some (Marshal dec (PImage p4))) q4 = Inr p4"
  "fl (dec (ed_Start p5)) = Some (ed_Start p5) \<Longrightarrow> fl (dec (ed_End p5)) = Some (ed_End p5) \<Longrightarrow>
     is_int64 (ed_CropX p5) \<Longrightarrow> is_int64 (ed_CropY p5) \<Longrightarrow> is_int64 (ed_CropW p5) \<Longrightarrow> is_int64 (ed_CropH p5) \<Longrightarrow>
     is_int64 (ed_RetentionDays p5) \<Longrightarrow> decode EditFields (Some (Marshal dec (PEdit p5))) q5 = Inr p5"
  by (simp_all add: decode_def find_field_def DownloadFields_def ConvertFields_def CompressFields_def ImageFields_def EditFields_def)

lemma small_int64: "- 100000 \<le> n \<Longrightarrow> n \<le> 100000 \<Longrightarrow> is_int64 n"
  by (simp add: is_int64_def int64_min_def int64_max_def)

lemma retention_int64: "retention_ok d \<Longrightarrow> is_int64 d"
  by (rule small_int64) (auto simp: retention_ok_def)

lemma params_ok_iff:
  "params_ok (PDownload p1) \<longleftrightarrow> (\<forall>c \<in> set (download_checks p1). c = None)"
  "params_ok (PCompress p3) \<longleftrightarrow> (\<forall>c \<in> set (compress_checks p3). c = None)"
  "params_ok (PImage p4) \<longleftrightarrow> (\<forall>c \<in> set (image_checks p4). c = None)"
  "params_ok (PEdit p5) \<longleftrightarrow> (\<forall>c \<in> set (edit_checks p5). c = None) \<and> crop_ok p5 \<and> retention_ok (ed_RetentionDays p5)"
proof -
  show "params_ok (PDownload p1) \<longleftrightarrow> (\<forall>c \<in> set (download_checks p1). c = None)"
    by (auto simp: download_checks_def check_None split: if_splits)
  show "params_ok (PImage p4) \<longleftrightarrow> (\<forall>c \<in> set (image_checks p4). c = None)"
    by (auto simp: image_checks_def check_None maxDim_def not_less split: if_splits)
  show "params_ok (PEdit p5) \<longleftrightarrow> (\<forall>c \<in> set (edit_checks p5). c = None) \<and> crop_ok p5 \<and> retention_ok (ed_RetentionDays p5)"
    by (auto simp: edit_checks_def editMaxSeconds_def not_less split: if_splits)
  have tab: "lookup2 CompressCRF (cm_Target p3) (cm_VideoCodec p3) \<noteq> None \<longleftrightarrow> in_bounds (cm_VideoCodec p3) (CompressCRFFor p3)"
    by (cases "lookup2 CompressCRF (cm_Target p3) (cm_VideoCodec p3)")
      (auto simp: CompressCRFFor_def in_bounds_def CRFBounds_def split: if_splits
        dest!: compress_crf [unfolded in_bounds_def CRFBounds_def])
  have known: "in_bounds c n \<Longrightarrow> map_of CRFBounds c \<noteq> None" for c n
    by (auto simp: in_bounds_def split: option.splits)
  have copy: "map_of CRFBounds ''copy'' = None" by (simp add: CRFBounds_def)
  have "checkTargetSize p3 = None \<longleftrightarrow> map_of CRFBounds (cm_VideoCodec p3) \<noteq> None \<and>
     (if IsSizeTarget p3 then 1 \<le> cm_TargetSizeMB p3 \<and> cm_TargetSizeMB p3 \<le> 65536
      else cm_TargetSizeMB p3 = 0 \<and> in_bounds (cm_VideoCodec p3) (CompressCRFFor p3))"
    unfolding checkTargetSize_None tab using known copy by auto
  then show "params_ok (PCompress p3) \<longleftrightarrow> (\<forall>c \<in> set (compress_checks p3). c = None)"
    by (simp add: compress_checks_def check_None)
qed

lemma params_ok_int64:
  "params_ok (PCompress p3) \<Longrightarrow> is_int64 (cm_TargetSizeMB p3)"
  "params_ok (PImage p4) \<Longrightarrow> is_int64 (im_Quality p4) \<and> is_int64 (im_Width p4) \<and> is_int64 (im_Height p4)"
  "crop_ok p5 \<Longrightarrow> is_int64 (ed_CropX p5) \<and> is_int64 (ed_CropY p5) \<and> is_int64 (ed_CropW p5) \<and> is_int64 (ed_CropH p5)"
  by (auto simp: crop_ok_def intro!: small_int64 split: if_splits)

lemma parseParams_sound:
  assumes "parseParams h t raw d = Inr (ps, days)"
  shows "params_ok ps \<and> type_of ps = t \<and> days = retention_of ps"
proof (cases t)
  case TypeConvert
  with assms show ?thesis
    by (auto simp: result_bind_Inr ParseConvert_Inr simp del: params_ok.simps dest: convert_params_ok)
next
  case TypeEdit
  with assms obtain p q where q: "checkCrop h p = (None, q)" "ps = PEdit q" "days = ed_RetentionDays q"
      "retention_ok (ed_RetentionDays q)" and ok: "\<forall>c \<in> set (edit_checks p). c = None"
    by (auto simp: result_bind_Inr ParseEdit_Inr simp del: params_ok.simps)
  have "params_ok (PEdit q)"
    unfolding params_ok_iff edit_checks_frame [OF q(1)] using ok q checkCrop_sound by blast
  with q TypeEdit show ?thesis by (simp del: params_ok.simps)
qed (use assms in \<open>auto simp: result_bind_Inr ParseDownload_def ParseCompress_def ParseImage_def params_ok_iff
      simp del: params_ok.simps\<close>)

text \<open>
  C18. What the server accepts is within the tables: every parameter struct \<open>parseParams\<close> returns has
  the job's type and is well-formed. Names come from the option tables, the CRF lies within the bounds of
  its codec, container and codecs can be muxed, sizes, spans and crops are in range and crops
  are even, the retention is one of four.
\<close>
theorem params_sound:
  assumes "parseParams h t raw d = Inr (ps, days)"
  shows "params_ok ps \<and> type_of ps = t \<and> days = retention_of ps"
  by (rule parseParams_sound [OF assms])

definition demo_convert_request :: json where
  "demo_convert_request = JObj [(''container'', JStr ''webm''), (''video_codec'', JStr ''vp9''), (''audio_codec'', JStr ''opus''),
     (''preset'', JStr ''size''), (''crf'', JInt 99)]"

definition demo_convert :: ConvertParams where
  "demo_convert = (ConvertDefaults 7)\<lparr>cv_Preset := ''size'', cv_Container := ''webm'', cv_VideoCodec := ''vp9'',
     cv_AudioCodec := ''opus'', cv_Speed := ''slow'', cv_CRF := 40\<rparr>"

lemma params_sound_witness:
  "params_ok (PConvert demo_convert) \<and> type_of (PConvert demo_convert) = TypeConvert \<and>
     7 = retention_of (PConvert demo_convert)"
proof (rule params_sound)
  show "parseParams False TypeConvert (Some demo_convert_request) 7 = Inr (PConvert demo_convert, 7)"
    by code_simp
qed

lemma parse_Marshal:
  assumes "parseParams h t raw d = Inr (ps, days)" and "\<And>v. fl v = Some v \<Longrightarrow> fl (dec v) = Some v"
  shows "parseParams h' t (Some (Marshal dec ps)) d' = Inr (ps, days)"
proof (cases t)
  case TypeDownload
  with assms(1) obtain p where p: "ps = PDownload p" "params_ok ps" "days = dl_RetentionDays p"
    by (auto simp: result_bind_Inr ParseDownload_def params_ok_iff simp del: params_ok.simps)
  then have "is_int64 (dl_RetentionDays p)" by (auto intro: retention_int64)
  then show ?thesis using TypeDownload p
    by (simp add: ParseDownload_def decode_Marshal result_bind_Inr params_ok_iff del: params_ok.simps Marshal.simps)
next
  case TypeConvert
  with assms(1) obtain p where p: "decode ConvertFields raw (ConvertDefaults d) = Inr p" "ps = PConvert (folded p)"
      "days = cv_RetentionDays p" and ok: "\<forall>c \<in> set (convert_checks p). c = None"
    by (auto simp: result_bind_Inr ParseConvert_Inr simp del: params_ok.simps)
  have "params_ok ps" using convert_params_ok [OF ok] p(2) by simp
  then have "is_int64 (cv_RetentionDays p)" using p(2) by (auto intro: retention_int64)
  moreover have "is_int64 (snd (Resolved p))"
    using decode_convert_ints [OF p(1)] preset_crf [of "cv_Preset p" "cv_VideoCodec p"]
    by (auto simp: Resolved_def convert_ints_def in_bounds_def CRFBounds_def intro!: small_int64 split: option.splits if_splits)
  ultimately have "decode ConvertFields (Some (Marshal dec ps)) q = Inr (folded p)" for q
    unfolding p(2) by (intro decode_Marshal) simp_all
  then have "ParseConvert (Some (Marshal dec ps)) d' = Inr (folded (folded p))"
    using convert_checks_folded [OF ok] by (auto simp: ParseConvert_Inr)
  then show ?thesis using TypeConvert p by (simp add: folded_twice)
next
  case TypeCompress
  with assms(1) obtain p where p: "ps = PCompress p" "params_ok ps" "days = cm_RetentionDays p"
    by (auto simp: result_bind_Inr ParseCompress_def params_ok_iff simp del: params_ok.simps)
  then have "is_int64 (cm_RetentionDays p)" "is_int64 (cm_TargetSizeMB p)"
    using params_ok_int64(1) by (auto intro: retention_int64)
  then show ?thesis using TypeCompress p
    by (simp add: ParseCompress_def decode_Marshal result_bind_Inr params_ok_iff del: params_ok.simps Marshal.simps)
next
  case TypeImage
  with assms(1) obtain p where p: "ps = PImage p" "params_ok ps" "days = im_RetentionDays p"
    by (auto simp: result_bind_Inr ParseImage_def params_ok_iff simp del: params_ok.simps)
  then have "is_int64 (im_RetentionDays p)" by (auto intro: retention_int64)
  then show ?thesis using TypeImage p params_ok_int64(2) [of p]
    by (simp add: ParseImage_def decode_Marshal result_bind_Inr params_ok_iff del: params_ok.simps Marshal.simps)
next
  case TypeEdit
  with assms(1) obtain p q where p: "decode EditFields raw (EditDefaults d) = Inr p" "checkCrop h p = (None, q)"
      "ps = PEdit q" "days = ed_RetentionDays q" "retention_ok (ed_RetentionDays q)" and ok: "\<forall>c \<in> set (edit_checks p). c = None"
    by (auto simp: result_bind_Inr ParseEdit_Inr simp del: params_ok.simps)
  note frame = checkCrop_frame [OF p(2)] and crop = checkCrop_sound [OF p(2)]
  have "edit_checks q = edit_checks p" by (rule edit_checks_frame [OF p(2)])
  moreover have "edit_floats p" by (rule decode_edit_floats [OF p(1)])
  then have "decode EditFields (Some (Marshal dec ps)) r = Inr q" for r
    unfolding p(3) using assms(2) frame crop params_ok_int64(3) [OF crop] retention_int64 [OF p(5)]
    by (intro decode_Marshal) (simp_all add: edit_floats_def)
  ultimately have "ParseEdit h' (Some (Marshal dec ps)) d' = Inr q"
    using ok checkCrop_id [OF crop] p(5) by (auto simp: ParseEdit_Inr)
  then show ?thesis using TypeEdit p by simp
qed

text \<open>
  C19. A runner sees exactly what was accepted: re-parsing the marshalled struct yields the same struct and
  retention, whatever the default retention and the map order of the second parse.
\<close>
theorem params_roundtrip:
  assumes "parseParams h t raw d = Inr (ps, days)" and "\<And>v. fl v = Some v \<Longrightarrow> fl (dec v) = Some v"
  shows "parseParams h' t (Some (Marshal dec ps)) d' = Inr (ps, days)"
  by (rule parse_Marshal [OF assms])

definition demo_edit_request :: json where
  "demo_edit_request = JObj [(''start'', JInt 0), (''crop_w'', JInt 101), (''crop_h'', JInt 64), (''crop_x'', JInt 7)]"

definition demo_edit :: EditParams where
  "demo_edit = (EditDefaults 7)\<lparr>ed_CropX := 7, ed_CropW := 100, ed_CropH := 64\<rparr>"

lemma params_roundtrip_witness:
  "parseParams True TypeEdit (Some (Marshal (\<lambda>v. v) (PEdit demo_edit))) 30 = Inr (PEdit demo_edit, 7)"
proof (rule params_roundtrip)
  have "decode EditFields (Some demo_edit_request) (EditDefaults 7) = Inr (demo_edit\<lparr>ed_CropW := 101\<rparr>)"
    by (simp add: demo_edit_request_def demo_edit_def EditDefaults_def decode_def EditFields_def find_field_def is_int64_def
        int64_min_def int64_max_def)
  moreover have "checkCrop False (demo_edit\<lparr>ed_CropW := 101\<rparr>) = (None, demo_edit)" by code_simp
  ultimately have "ParseEdit False (Some demo_edit_request) 7 = Inr demo_edit"
    by (simp add: ParseEdit_Inr edit_checks_def demo_edit_def EditDefaults_def editMaxSeconds_def retention_ok_def)
  then show "parseParams False TypeEdit (Some demo_edit_request) 7 = Inr (PEdit demo_edit, 7)"
    by (simp add: demo_edit_def EditDefaults_def)
qed

end
