(* ===== verification/SourceURL.thy ===== *)
theory SourceURL
  imports Presets Proxy
begin

text \<open>
  The validation of a download URL of \<open>internal/presets/presets.go\<close>: the scheme and the host of the
  parsed URL, the ranges an address may not lie in, host names and their resolution. \<open>parse\<close> is
  \<open>url.Parse\<close>, \<open>None\<close> when it fails; \<open>lookup\<close> is the resolver, \<open>None\<close> when it fails. An invalid
  (zero) \<open>netip.Addr\<close> a resolver might hand out is \<open>None\<close>.
\<close>

unbundle bit_operations_syntax

record URL =
  u_Scheme :: string
  u_Host :: string
  u_String :: string

subsection \<open>Address predicates\<close>

fun IsLoopback :: "Addr \<Rightarrow> bool" where
  "IsLoopback (V4 a) \<longleftrightarrow> drop_bit 24 a = 127"
| "IsLoopback (V6 a z) \<longleftrightarrow> a = 1 \<and> z = ''''"

fun IsMulticast :: "Addr \<Rightarrow> bool" where
  "IsMulticast (V4 a) \<longleftrightarrow> drop_bit 28 a = 0xE"
| "IsMulticast (V6 a z) \<longleftrightarrow> drop_bit 120 a = 0xFF"

fun IsLinkLocalUnicast :: "Addr \<Rightarrow> bool" where
  "IsLinkLocalUnicast (V4 a) \<longleftrightarrow> drop_bit 16 a = 0xA9FE"
| "IsLinkLocalUnicast (V6 a z) \<longleftrightarrow> drop_bit 118 a = 0x3FA"

fun IsLinkLocalMulticast :: "Addr \<Rightarrow> bool" where
  "IsLinkLocalMulticast (V4 a) \<longleftrightarrow> drop_bit 8 a = 0xE00000"
| "IsLinkLocalMulticast (V6 a z) \<longleftrightarrow> drop_bit 112 a AND 0xFF0F = 0xFF02"

fun IsInterfaceLocalMulticast :: "Addr \<Rightarrow> bool" where
  "IsInterfaceLocalMulticast (V4 a) \<longleftrightarrow> False"
| "IsInterfaceLocalMulticast (V6 a z) \<longleftrightarrow> drop_bit 112 a AND 0xFF0F = 0xFF01"

fun IsPrivate :: "Addr \<Rightarrow> bool" where
  "IsPrivate (V4 a) \<longleftrightarrow> drop_bit 24 a = 10 \<or> drop_bit 20 a = 0xAC1 \<or> drop_bit 16 a = 0xC0A8"
| "IsPrivate (V6 a z) \<longleftrightarrow> drop_bit 121 a = 0x7E"

fun IsUnspecified :: "Addr \<Rightarrow> bool" where
  "IsUnspecified (V4 a) \<longleftrightarrow> a = 0"
| "IsUnspecified (V6 a z) \<longleftrightarrow> a = 0 \<and> z = ''''"

definition IsGlobalUnicast :: "Addr \<Rightarrow> bool" where
  "IsGlobalUnicast ip \<longleftrightarrow> ip \<noteq> V4 0 \<and> ip \<noteq> V4 0xFFFFFFFF \<and> ip \<noteq> V6 0 '''' \<and>
     \<not> IsLoopback ip \<and> \<not> IsMulticast ip \<and> \<not> IsLinkLocalUnicast ip"

fun WithZone :: "Addr \<Rightarrow> string \<Rightarrow> Addr" where
  "WithZone (V4 a) z = V4 a"
| "WithZone (V6 a _) z = V6 a z"

lemmas address_predicates =
  IsLoopback.simps IsMulticast.simps IsLinkLocalUnicast.simps IsPrivate.simps IsLinkLocalMulticast.simps
  IsInterfaceLocalMulticast.simps(2)

subsection \<open>The validation\<close>

definition blockedPrefixes :: "Prefix list" where
  "blockedPrefixes =
     [PrefixFrom (V4 0) 8, PrefixFrom (V4 0x0A000000) 8, PrefixFrom (V4 0x64400000) 10, PrefixFrom (V4 0x7F000000) 8,
      PrefixFrom (V4 0xA9FE0000) 16, PrefixFrom (V4 0xAC100000) 12, PrefixFrom (V4 0xC0000000) 24,
      PrefixFrom (V4 0xC0A80000) 16, PrefixFrom (V4 0xC6120000) 15, PrefixFrom (V4 0xF0000000) 4,
      PrefixFrom (V6 0 '''') 96, PrefixFrom (V6 0x0064FF9B000000000000000000000000 '''') 96,
      PrefixFrom (V6 0xFC000000000000000000000000000000 '''') 7]"

definition addrPermitted :: "Addr option \<Rightarrow> bool" where
  "addrPermitted addr =
     (case addr of
        None \<Rightarrow> False
      | Some addr \<Rightarrow>
          let addr = WithZone (Unmap addr) '''' in
          if \<not> IsGlobalUnicast addr \<or> IsPrivate addr \<or> IsLoopback addr \<or> IsUnspecified addr \<or> IsMulticast addr \<or>
             IsLinkLocalUnicast addr \<or> IsLinkLocalMulticast addr \<or> IsInterfaceLocalMulticast addr then False
          else \<not> list_ex (\<lambda>p. Contains_addr p addr) blockedPrefixes)"

definition label_ok :: "string \<Rightarrow> bool" where
  "label_ok label \<longleftrightarrow> label \<noteq> '''' \<and> length label \<le> 63 \<and> list_all (\<lambda>c. is_alnum c \<or> c = CHR ''-'' \<or> c = CHR ''_'') label"

definition last_label :: "string \<Rightarrow> string" where
  "last_label host = (case LastIndexByte host CHR ''.'' of None \<Rightarrow> host | Some i \<Rightarrow> drop (Suc i) host)"

definition isDNSName :: "string \<Rightarrow> bool" where
  "isDNSName host =
     (let host = TrimSuffix host ''.'' in
      if host = '''' \<or> length host > 253 then False
      else if \<not> list_all label_ok (Split host CHR ''.'') then False
      else is_alpha (hd (last_label host)))"

definition notPublicReason :: string where
  "notPublicReason = ''must point at a public internet address - loopback, link-local, '' @
     ''multicast and private or LAN addresses are refused''"

definition checkSourceHost :: "(string \<Rightarrow> Addr option list option) \<Rightarrow> string \<Rightarrow> ValidationError option" where
  "checkSourceHost lookup host =
     (if host = '''' then Some (invalid ''url'' (Text ''is missing a hostname''))
      else case ParseAddr host of
        Some addr \<Rightarrow> if \<not> addrPermitted (Some addr) then Some (invalid ''url'' (Text notPublicReason)) else None
      | None \<Rightarrow>
          if \<not> isDNSName host then Some (invalid ''url'' (Text ''hostname is not valid''))
          else case lookup host of
            None \<Rightarrow> Some (invalid ''url'' (Text ''hostname could not be resolved''))
          | Some addrs \<Rightarrow>
              if addrs = [] then Some (invalid ''url'' (Text ''hostname could not be resolved''))
              else if list_ex (\<lambda>a. \<not> addrPermitted a) addrs then Some (invalid ''url'' (Text notPublicReason))
              else None)"

definition ValidateSourceURL ::
  "(string \<Rightarrow> URL option) \<Rightarrow> (string \<Rightarrow> Addr option list option) \<Rightarrow> string \<Rightarrow> ValidationError + string" where
  "ValidateSourceURL parse lookup raw =
     (let raw = TrimSpace raw in
      if raw = '''' then Inl (invalid ''url'' (Text ''is required''))
      else if length raw > 2048 then Inl (invalid ''url'' (Text ''is too long''))
      else case parse raw of
        None \<Rightarrow> Inl (invalid ''url'' (Text ''is not a valid URL''))
      | Some u \<Rightarrow>
          if u_Scheme u \<noteq> ''http'' \<and> u_Scheme u \<noteq> ''https'' then
            Inl (invalid ''url'' (Text ''must start with http:// or https://''))
          else if u_Host u = '''' then Inl (invalid ''url'' (Text ''is missing a hostname''))
          else if HasPrefix raw ''-'' then Inl (invalid ''url'' (Text ''must not start with a dash''))
          else (case checkSourceHost lookup (url_Hostname (u_Host u)) of
              Some e \<Rightarrow> Inl e
            | None \<Rightarrow> Inr (u_String u)))"

subsection \<open>The forbidden ranges\<close>

text \<open>The same judgement as two tables of intervals, first and last address of each.\<close>

definition ranges4 :: "(int \<times> int) list" where
  "ranges4 =
     [(0x00000000, 0x00FFFFFF), (0x0A000000, 0x0AFFFFFF), (0x64400000, 0x647FFFFF), (0x7F000000, 0x7FFFFFFF),
      (0xA9FE0000, 0xA9FEFFFF), (0xAC100000, 0xAC1FFFFF), (0xC0000000, 0xC00000FF), (0xC0A80000, 0xC0A8FFFF),
      (0xC6120000, 0xC613FFFF), (0xE0000000, 0xFFFFFFFF)]"

definition ranges6 :: "(int \<times> int) list" where
  "ranges6 =
     [(0, 0xFFFFFFFF),
      (0x0064FF9B000000000000000000000000, 0x0064FF9B0000000000000000FFFFFFFF),
      (0xFC000000000000000000000000000000, 0xFDFFFFFFFFFFFFFFFFFFFFFFFFFFFFFF),
      (0xFE800000000000000000000000000000, 0xFEBFFFFFFFFFFFFFFFFFFFFFFFFFFFFF),
      (0xFF000000000000000000000000000000, 0xFFFFFFFFFFFFFFFFFFFFFFFFFFFFFFFF)]"

definition outside :: "(int \<times> int) list \<Rightarrow> int \<Rightarrow> bool" where
  "outside rs n \<longleftrightarrow> list_all (\<lambda>(lo, hi). n < lo \<or> hi < n) rs"

fun public_addr :: "Addr \<Rightarrow> bool" where
  "public_addr (V4 a) \<longleftrightarrow> outside ranges4 (uint a)"
| "public_addr (V6 a z) \<longleftrightarrow> outside ranges6 (uint a)"

lemma div_interval: "0 < (d::int) \<Longrightarrow> n div d = c \<longleftrightarrow> c * d \<le> n \<and> n < c * d + d"
proof
  assume d: "0 < d"
  assume "n div d = c"
  then have "n = c * d + n mod d" using div_mult_mod_eq [of n d] by simp
  with d show "c * d \<le> n \<and> n < c * d + d" using pos_mod_bound [of d n] pos_mod_sign [of d n] by linarith
next
  assume d: "0 < d" and "c * d \<le> n \<and> n < c * d + d"
  then show "n div d = c" by (intro int_div_pos_eq [of _ _ _ "n - c * d"]) (auto simp: mult.commute)
qed

lemma uint_div_drop: "uint (drop_bit k (a::'a::len word)) = uint a div 2 ^ k"
proof -
  have "uint (drop_bit k a) = drop_bit k (uint a)"
    by (rule bit_eqI) (auto simp: bit_unsigned_iff bit_drop_bit_eq dest: bit_imp_le_length)
  then show ?thesis by (simp only: drop_bit_eq_div)
qed

lemma drop_bit_interval:
  fixes a :: "'a::len word"
  shows "drop_bit k a = b \<longleftrightarrow> uint b * 2 ^ k \<le> uint a \<and> uint a < uint b * 2 ^ k + 2 ^ k"
proof -
  have "drop_bit k a = b \<longleftrightarrow> uint a div 2 ^ k = uint b"
    by (simp only: word_uint_eq_iff uint_div_drop)
  then show ?thesis by (simp add: div_interval)
qed

lemma xor_eq_0: "x XOR y = 0 \<longleftrightarrow> y = (x :: 'a::len word)"
  by (auto simp: bit_eq_iff bit_xor_iff)

lemma prefix_interval:
  fixes a b :: "'a::len word"
  shows "drop_bit k a XOR drop_bit k b = 0 \<longleftrightarrow>
     uint (drop_bit k a) * 2 ^ k \<le> uint b \<and> uint b < uint (drop_bit k a) * 2 ^ k + 2 ^ k"
  unfolding xor_eq_0 by (rule drop_bit_interval)

lemma multicast_scope:
  fixes a :: "128 word"
  assumes "drop_bit 112 a AND 0xFF0F = b" and "drop_bit 8 b = 0xFF"
  shows "drop_bit 120 a = 0xFF"
proof -
  have "drop_bit 120 a AND 0xFF = drop_bit 8 (drop_bit 112 a AND 0xFF0F)"
    by (simp add: drop_bit_and)
  moreover have "drop_bit 120 a AND 0xFF = take_bit 8 (drop_bit 120 a)"
    by (simp add: take_bit_eq_mask mask_eq_exp_minus_1)
  moreover have "take_bit 8 (drop_bit 120 a) = drop_bit 120 a"
    by (rule bit_word_eqI) (use bit_imp_le_length [of a] in \<open>fastforce simp: bit_simps\<close>)
  ultimately show ?thesis using assms by simp
qed

lemma Contains_interval:
  "Contains_addr (PrefixFrom (V4 b) n) (V4 a) \<longleftrightarrow>
     uint (drop_bit (32 - n) b) * 2 ^ (32 - n) \<le> uint a \<and> uint a < uint (drop_bit (32 - n) b) * 2 ^ (32 - n) + 2 ^ (32 - n)"
  "Contains_addr (PrefixFrom (V6 c []) n) (V6 d []) \<longleftrightarrow>
     uint (drop_bit (128 - n) c) * 2 ^ (128 - n) \<le> uint d \<and> uint d < uint (drop_bit (128 - n) c) * 2 ^ (128 - n) + 2 ^ (128 - n)"
  "\<not> Contains_addr (PrefixFrom (V4 b) n) (V6 d z)" "\<not> Contains_addr (PrefixFrom (V6 c z) n) (V4 a)"
  by (simp_all add: Contains_addr_def PrefixFrom_def prefix_interval)

lemma not_outside: "\<not> outside rs n \<longleftrightarrow> list_ex (\<lambda>(lo, hi). lo \<le> n \<and> n \<le> hi) rs"
  by (induction rs) (auto simp: outside_def)

lemma permitted4: "addrPermitted (Some (V4 a)) \<longleftrightarrow> public_addr (V4 a)"
proof -
  let ?L = "IsLoopback (V4 a) \<or> IsMulticast (V4 a) \<or> IsLinkLocalUnicast (V4 a) \<or> IsPrivate (V4 a) \<or> IsLinkLocalMulticast (V4 a) \<or>
      list_ex (\<lambda>p. Contains_addr p (V4 a)) blockedPrefixes \<or> a = 0 \<or> a = 0xFFFFFFFF"
  have top: "uint a < 4294967296" using uint_lt2p [of a] by simp
  have "?L \<Longrightarrow> \<not> outside ranges4 (uint a)"
    unfolding not_outside
    by (simp add: blockedPrefixes_def Contains_interval drop_bit_interval ranges4_def word_uint_eq_iff [of a 0] word_uint_eq_iff [of a 4294967295], (elim disjE conjE; simp; presburger))
  moreover have "\<not> outside ranges4 (uint a) \<Longrightarrow> ?L"
    unfolding not_outside using top
    by (simp add: blockedPrefixes_def Contains_interval drop_bit_interval ranges4_def word_uint_eq_iff [of a 0] word_uint_eq_iff [of a 4294967295], (elim disjE conjE; simp; presburger))
  moreover have "addrPermitted (Some (V4 a)) \<longleftrightarrow> \<not> ?L"
    by (auto simp: addrPermitted_def Let_def IsGlobalUnicast_def simp del: address_predicates)
  ultimately show ?thesis by auto
qed

lemma scoped_multicast:
  "IsLinkLocalMulticast (V6 a z) \<Longrightarrow> IsMulticast (V6 a z)" "IsInterfaceLocalMulticast (V6 a z) \<Longrightarrow> IsMulticast (V6 a z)"
  using multicast_scope [of a] by simp_all

lemma permitted6: "addrPermitted (Some (V6 a z)) \<longleftrightarrow> public_addr (V6 a [])" if "\<not> Is4In6 (V6 a z)"
proof -
  let ?L = "IsLoopback (V6 a []) \<or> IsMulticast (V6 a []) \<or> IsLinkLocalUnicast (V6 a []) \<or> IsPrivate (V6 a []) \<or>
      list_ex (\<lambda>p. Contains_addr p (V6 a [])) blockedPrefixes \<or> a = 0"
  have top: "uint a < 2 ^ 128" using uint_lt2p [of a] by simp
  have "?L \<Longrightarrow> \<not> outside ranges6 (uint a)"
    unfolding not_outside
    by (simp add: blockedPrefixes_def Contains_interval drop_bit_interval ranges6_def word_uint_eq_iff [of a 0]
        word_uint_eq_iff [of a 1], (elim disjE conjE; simp; presburger))
  moreover have "\<not> outside ranges6 (uint a) \<Longrightarrow> ?L"
    unfolding not_outside using top
    by (simp add: blockedPrefixes_def Contains_interval drop_bit_interval ranges6_def word_uint_eq_iff [of a 0]
        word_uint_eq_iff [of a 1], (elim disjE conjE; simp; presburger))
  moreover have "addrPermitted (Some (V6 a z)) \<longleftrightarrow> \<not> ?L"
    using that scoped_multicast [of a "[]"]
    by (auto simp: addrPermitted_def Let_def IsGlobalUnicast_def simp del: address_predicates)
  ultimately show ?thesis by auto
qed

lemma permitted_range: "addrPermitted a \<longleftrightarrow> (\<exists>addr. a = Some addr \<and> public_addr (Unmap addr))"
proof (cases a)
  case (Some addr)
  have "addrPermitted (Some addr) = public_addr (Unmap addr)" if "Unmap addr = V4 w" for w
  proof -
    have "addrPermitted (Some addr) = addrPermitted (Some (V4 w))" by (simp add: addrPermitted_def that)
    then show ?thesis by (simp only: permitted4 that)
  qed
  moreover have "addrPermitted (Some addr) = public_addr (Unmap addr)" if "Unmap addr = V6 w z" for w z
  proof -
    from that have "addr = V6 w z" and no: "\<not> Is4In6 (V6 w z)" by (cases addr; simp split: if_splits)+
    then show ?thesis using permitted6 [OF no] by (simp add: that)
  qed
  ultimately show ?thesis by (cases "Unmap addr") (simp_all add: Some)
qed (simp add: addrPermitted_def)

text \<open>
  C20. An address is permitted exactly when it lies outside the forbidden ranges: loopback, private,
  link-local, carrier-grade NAT, multicast, reserved and the ranges that lead back to those, for
  IPv4, for IPv6, and for IPv4 written as IPv6, with or without a zone.
\<close>
theorem permitted_is_public:
  shows "addrPermitted a \<longleftrightarrow> (\<exists>addr. a = Some addr \<and> public_addr (Unmap addr))"
  by (rule permitted_range)

lemma ValidateSourceURL_target:
  assumes "ValidateSourceURL parse lookup raw = Inr clean"
  shows "\<exists>u. parse (TrimSpace raw) = Some u \<and> clean = u_String u \<and> u_Scheme u \<in> {''http'', ''https''} \<and>
    (case ParseAddr (url_Hostname (u_Host u)) of
       Some a \<Rightarrow> public_addr (Unmap a)
     | None \<Rightarrow> is_alpha (hd (last_label (TrimSuffix (url_Hostname (u_Host u)) ''.''))) \<and>
         (\<exists>as. lookup (url_Hostname (u_Host u)) = Some as \<and> as \<noteq> [] \<and>
            list_all (\<lambda>a. \<exists>addr. a = Some addr \<and> public_addr (Unmap addr)) as))"
proof -
  obtain u where u: "parse (TrimSpace raw) = Some u" "clean = u_String u" "u_Scheme u = ''http'' \<or> u_Scheme u = ''https''"
      "checkSourceHost lookup (url_Hostname (u_Host u)) = None"
    using assms by (auto simp: ValidateSourceURL_def Let_def split: if_splits option.splits)
  from u(4) show ?thesis
    using u(1-3) by (intro exI [of _ u])
      (auto simp: checkSourceHost_def permitted_range isDNSName_def Let_def list_ex_iff list_all_iff split: if_splits option.splits)
qed

text \<open>
  C21. A download URL is accepted only for a public target: the scheme is http or https, and the host is
  either a literal public address or a host name that resolves, all of its addresses being public. A host that is no
  address but whose last label does not start with a letter, as in the legacy spellings of
  addresses as numbers, is refused without asking the resolver.
\<close>
theorem source_url_public:
  assumes "ValidateSourceURL parse lookup raw = Inr clean"
  shows "\<exists>u. parse (TrimSpace raw) = Some u \<and> clean = u_String u \<and> u_Scheme u \<in> {''http'', ''https''} \<and>
    (case ParseAddr (url_Hostname (u_Host u)) of
       Some a \<Rightarrow> public_addr (Unmap a)
     | None \<Rightarrow> is_alpha (hd (last_label (TrimSuffix (url_Hostname (u_Host u)) ''.''))) \<and>
         (\<exists>as. lookup (url_Hostname (u_Host u)) = Some as \<and> as \<noteq> [] \<and>
            list_all (\<lambda>a. \<exists>addr. a = Some addr \<and> public_addr (Unmap addr)) as))"
  by (rule ValidateSourceURL_target [OF assms])

definition demo_url :: "string \<Rightarrow> URL option" where
  "demo_url raw = Some \<lparr>u_Scheme = ''https'', u_Host = ''media.example.org:8443'', u_String = raw\<rparr>"

definition demo_lookup :: "string \<Rightarrow> Addr option list option" where
  "demo_lookup host = Some [Some (V4 0x5DB8D70E)]"

lemma source_url_public_witness:
  "\<exists>u. demo_url (TrimSpace ''https://media.example.org:8443/v'') = Some u \<and> u_Scheme u \<in> {''http'', ''https''}"
proof -
  have "ValidateSourceURL demo_url demo_lookup ''https://media.example.org:8443/v'' = Inr ''https://media.example.org:8443/v''"
    by code_simp
  from source_url_public [OF this] show ?thesis by blast
qed

end
