(* ===== verification/Exec.thy ===== *)
theory Exec
  imports JobTypes GoPath
begin

text \<open>
  What the runners share, \<open>internal/runner/exec.go\<close>: the ring of stderr lines, the line scanner, the
  outcome of a process, file names made from client text, and moving a result into place. What the
  operating system answers is an argument. Byte counts too large for unary numbers are integers.
\<close>

subsection \<open>Valid UTF-8\<close>

text \<open>The length of the rune a byte string starts with, \<open>None\<close> when it starts with no valid encoding.\<close>

definition cont :: "nat \<Rightarrow> nat \<Rightarrow> char \<Rightarrow> bool" where
  "cont lo hi c \<longleftrightarrow> lo \<le> byte c \<and> byte c \<le> hi"

definition second_byte :: "nat \<Rightarrow> char \<Rightarrow> bool" where
  "second_byte b = (if b = 0xE0 then cont 0xA0 0xBF else if b = 0xED then cont 0x80 0x9F
     else if b = 0xF0 then cont 0x90 0xBF else if b = 0xF4 then cont 0x80 0x8F else cont 0x80 0xBF)"

definition rune_len :: "string \<Rightarrow> nat option" where
  "rune_len s = (case s of
      [] \<Rightarrow> None
    | c # t \<Rightarrow>
        let b = byte c; tails = (\<lambda>n. length t \<ge> n \<and> list_all (cont 0x80 0xBF) (take (n - 1) (drop 1 t))) in
        if b < 0x80 then Some 1
        else if t = [] \<or> \<not> second_byte b (hd t) then None
        else if 0xC2 \<le> b \<and> b \<le> 0xDF then Some 2
        else if 0xE0 \<le> b \<and> b \<le> 0xEF then (if tails 2 then Some 3 else None)
        else if 0xF0 \<le> b \<and> b \<le> 0xF4 then (if tails 3 then Some 4 else None)
        else None)"

text \<open>\<open>strings.ToValidUTF8\<close> with an empty replacement; \<open>n\<close> bytes of a rune are still to be copied.\<close>

fun valid_utf8 :: "nat \<Rightarrow> string \<Rightarrow> string" where
  "valid_utf8 n [] = []"
| "valid_utf8 (Suc n) (c # s) = c # valid_utf8 n s"
| "valid_utf8 0 (c # s) = (case rune_len (c # s) of None \<Rightarrow> valid_utf8 0 s | Some n \<Rightarrow> c # valid_utf8 (n - 1) s)"

definition ToValidUTF8 :: "string \<Rightarrow> string" where
  "ToValidUTF8 s = valid_utf8 0 s"

subsection \<open>The ring of stderr lines\<close>

definition maxStderrLines :: nat where "maxStderrLines = 40"
definition maxStderrLineBytes :: nat where "maxStderrLineBytes = 512"
definition maxStderrBytes :: int where "maxStderrBytes = 4096"
definition maxSlugLen :: nat where "maxSlugLen = 80"
definition tagLen :: nat where "tagLen = 2"
definition maxNameAttempts :: nat where "maxNameAttempts = 16"
definition maxLineBytes :: int where "maxLineBytes = 1048576"

record ring =
  rg_buf :: "string list"
  rg_next :: nat
  rg_full :: bool
  rg_limit :: nat

definition newRing :: "int \<Rightarrow> ring" where
  "newRing n = (let n = (if n < 1 then 1 else nat n) in
     \<lparr>rg_buf = replicate n [], rg_next = 0, rg_full = False, rg_limit = n\<rparr>)"

definition clip_line :: "string \<Rightarrow> string" where
  "clip_line line =
     (if length line > maxStderrLineBytes then ToValidUTF8 (take maxStderrLineBytes line) @ ''...'' else line)"

definition ring_add :: "string \<Rightarrow> ring \<Rightarrow> ring" where
  "ring_add line r =
     (let line = TrimRight line ('' '' @ [CHR 0x09]) in
      if line = '''' then r
      else let line = clip_line line; next = (rg_next r + 1) mod rg_limit r in
        r\<lparr>rg_buf := (rg_buf r)[rg_next r := line], rg_next := next, rg_full := (rg_full r \<or> next = 0)\<rparr>)"

definition ring_lines :: "ring \<Rightarrow> string list" where
  "ring_lines r = (if rg_full r then drop (rg_next r) (rg_buf r) else []) @ take (rg_next r) (rg_buf r)"

definition tail_text :: "string \<Rightarrow> string" where
  "tail_text s =
     (if int (length s) > maxStderrBytes
      then ''...'' @ ToValidUTF8 (drop (nat (int (length s) - maxStderrBytes)) s) else s)"

definition ring_String :: "ring \<Rightarrow> string" where
  "ring_String r = tail_text (Join (ring_lines r) ''; '')"

subsection \<open>Lines\<close>

definition is_eol :: "char \<Rightarrow> bool" where
  "is_eol c \<longleftrightarrow> c = CHR 0x0A \<or> c = CHR 0x0D"

text \<open>The split function: how far to advance, and the token if there is one.\<close>

definition splitLinesCR :: "string \<Rightarrow> bool \<Rightarrow> nat \<times> string option" where
  "splitLinesCR data atEOF =
     (let start = length (takeWhile is_eol data);
          body = drop start data;
          line = takeWhile (\<lambda>c. \<not> is_eol c) body
      in if length line < length body then (start + length line + 1, Some line)
         else if atEOF then (if start < length data then (length data, Some body) else (length data, None))
         else if start > 0 then (start, None)
         else (0, None))"

text \<open>\<open>bufio.Scanner\<close>: split the buffer until no token comes back; what is left waits for the next read.\<close>

lemma splitLinesCR_advance: "splitLinesCR s e = (n, Some t) \<Longrightarrow> 0 < n \<and> s \<noteq> []"
  by (auto simp: splitLinesCR_def Let_def split: if_splits)

function drain :: "bool \<Rightarrow> string \<Rightarrow> string list \<times> string" where
  "drain atEOF buf =
     (case splitLinesCR buf atEOF of
        (n, None) \<Rightarrow> ([], drop n buf)
      | (n, Some t) \<Rightarrow> (case drain atEOF (drop n buf) of (ts, rest) \<Rightarrow> (t # ts, rest)))"
  by pat_completeness auto
termination
  by (relation "measure (\<lambda>(_, buf). length buf)") (auto dest: splitLinesCR_advance [OF sym])

declare drain.simps [simp del]

text \<open>The scanner over the reads a pipe delivers; a line that fills the whole buffer ends it.\<close>

fun scanLines :: "string \<Rightarrow> string list \<Rightarrow> string list" where
  "scanLines buf [] = fst (drain True buf)"
| "scanLines buf (chunk # chunks) =
     (case drain False (buf @ chunk) of (ts, rest) \<Rightarrow>
        ts @ (if int (length rest) \<ge> maxLineBytes then [] else scanLines rest chunks))"

record capWriter =
  cw_buf :: string
  cw_max :: int

definition cap_Write :: "string \<Rightarrow> capWriter \<Rightarrow> capWriter" where
  "cap_Write p w =
     (let room = cw_max w - int (length (cw_buf w)) in
      if room > 0 then w\<lparr>cw_buf := cw_buf w @ take (nat (min room (int (length p)))) p\<rparr> else w)"


subsection \<open>Running a process\<close>

text \<open>
  What happens around one process: which setup steps fail, what arrives on its pipes, how it
  ends (\<open>None\<close> for success, an exit code otherwise, \<open>-1\<close> when there is none), and the error of the
  context if it was canceled.
\<close>

record proc =
  pr_stdout_err :: "string option"
  pr_stderr_err :: "string option"
  pr_start_err :: "string option"
  pr_stdout :: "string list"
  pr_stderr :: "string list"
  pr_exit :: "int option"
  pr_ctx_err :: "string option"

datatype run_error =
  SetupError string
| CanceledError string
| ExitError string int string

datatype stdout_mode = Discard | ToWriter | ToLines

definition runProc :: "string \<Rightarrow> stdout_mode \<Rightarrow> proc \<Rightarrow> string list \<times> string list \<times> run_error option" where
  "runProc bin mode p =
     (let name = Base bin in
      case (if mode = ToLines then pr_stdout_err p else None) of
        Some e \<Rightarrow> ([], [], Some (SetupError (name @ '': stdout pipe: '' @ e)))
      | None \<Rightarrow>
      (case pr_stderr_err p of
        Some e \<Rightarrow> ([], [], Some (SetupError (name @ '': stderr pipe: '' @ e)))
      | None \<Rightarrow>
      (case pr_start_err p of
        Some e \<Rightarrow> ([], [], Some (SetupError (name @ '': start: '' @ e)))
      | None \<Rightarrow>
          let out = (if mode = ToLines then scanLines [] (pr_stdout p) else []);
              err = scanLines [] (pr_stderr p);
              rg = fold ring_add err (newRing (int maxStderrLines))
          in (out, err,
              case pr_exit p of
                None \<Rightarrow> None
              | Some code \<Rightarrow> (case pr_ctx_err p of
                    Some e \<Rightarrow> Some (CanceledError (name @ '': canceled: '' @ e))
                  | None \<Rightarrow> Some (ExitError bin code (ring_String rg)))))))"

fun error_text :: "run_error \<Rightarrow> string" where
  "error_text (SetupError s) = s"
| "error_text (CanceledError s) = s"
| "error_text (ExitError bin code stderr) =
     Base bin @ '' failed'' @ (if code \<ge> 0 then '' (exit '' @ Itoa code @ '')'' else '''') @
     (if stderr \<noteq> '''' then '': '' @ stderr else '''')"

subsection \<open>Names\<close>

definition keep_char :: "char \<Rightarrow> bool" where
  "keep_char c \<longleftrightarrow> is_alnum c \<or> c = CHR ''.'' \<or> c = CHR ''_''"

fun slug_bytes :: "bool \<Rightarrow> string \<Rightarrow> string" where
  "slug_bytes dash [] = []"
| "slug_bytes dash (c # s) =
     (if keep_char c then c # slug_bytes False s
      else if dash then slug_bytes True s else CHR ''-'' # slug_bytes True s)"

lemma ReplaceAll_dots_le: "length (ReplaceAll s ''..'' ''.'') \<le> length s"
proof (induction s rule: length_induct)
  case (1 s)
  show ?case
  proof (cases s)
    case (Cons c t)
    then show ?thesis
      using 1 [rule_format, of "drop 2 s"] 1 [rule_format, of t] by (auto simp: ReplaceAll_code HasPrefix_iff)
  qed (simp add: ReplaceAll_code)
qed

lemma ReplaceAll_dots_less: "Contains s ''..'' \<Longrightarrow> length (ReplaceAll s ''..'' ''.'') < length s"
proof (induction s)
  case (Cons c t)
  show ?case
  proof (cases "HasPrefix (c # t) ''..''")
    case True
    then obtain u where u: "c # t = ''..'' @ u" by (auto simp: HasPrefix_iff)
    then show ?thesis using True ReplaceAll_dots_le [of u] by (auto simp: ReplaceAll_code)
  qed (use Cons in \<open>auto simp: ReplaceAll_code\<close>)
qed simp

function collapse_dots :: "string \<Rightarrow> string" where
  "collapse_dots s = (if Contains s ''..'' then collapse_dots (ReplaceAll s ''..'' ''.'') else s)"
  by pat_completeness auto
termination
  by (relation "measure length") (simp_all add: ReplaceAll_dots_less)

declare collapse_dots.simps [simp del]

definition sanitizeName :: "string \<Rightarrow> string" where
  "sanitizeName s =
     (let out = slug_bytes False s;
          out = (if length out > maxSlugLen then take maxSlugLen out else out);
          out = Trim out (''-. '' @ [CHR 0x09]);
          out = collapse_dots out
      in if out = '''' then ''file'' else out)"

definition shortID :: "string \<Rightarrow> string" where
  "shortID i = (if length i > tagLen then take tagLen i else i)"

definition firstNonEmpty :: "string list \<Rightarrow> string" where
  "firstNonEmpty vals = (case filter (\<lambda>s. s \<noteq> '''') (map TrimSpace vals) of [] \<Rightarrow> '''' | s # _ \<Rightarrow> s)"

definition baseWithoutExt :: "string \<Rightarrow> string" where
  "baseWithoutExt p = (let b = Base p in TrimSuffix b (Ext b))"

definition output_name :: "string \<Rightarrow> string \<Rightarrow> string \<Rightarrow> string" where
  "output_name slug tag ext =
     slug @ (if tag \<noteq> '''' \<and> tag \<noteq> ''file'' then ''-'' @ tag else '''') @ (if ext \<noteq> '''' then ''.'' @ ext else '''')"

text \<open>
  The loop of \<open>uniqueOutputPath\<close>: \<open>used\<close> says which paths exist, \<open>rnd k\<close> is the tag drawn after
  attempt \<open>k\<close>, empty when the random source fails; \<open>n\<close> attempts are left before giving up.
\<close>

fun unique_loop :: "(string \<Rightarrow> bool) \<Rightarrow> (nat \<Rightarrow> string) \<Rightarrow> string \<Rightarrow> string \<Rightarrow> string \<Rightarrow> string \<Rightarrow> nat \<Rightarrow> nat \<Rightarrow> string" where
  "unique_loop used rnd dir slug ext tag k 0 = Join_path [dir, output_name slug tag ext]"
| "unique_loop used rnd dir slug ext tag k (Suc n) =
     (let path = Join_path [dir, output_name slug tag ext] in
      if tag = '''' \<or> tag = ''file'' then path
      else if \<not> used path then path
      else unique_loop used rnd dir slug ext (rnd k) (Suc k) n)"

definition uniqueOutputPath :: "(string \<Rightarrow> bool) \<Rightarrow> (nat \<Rightarrow> string) \<Rightarrow> string \<Rightarrow> string \<Rightarrow> string \<Rightarrow> string \<Rightarrow> string" where
  "uniqueOutputPath used rnd dir base ext jobID =
     (let slug = sanitizeName base;
          ext = sanitizeName (TrimPrefix ext ''.'');
          ext = (if ext = ''file'' then '''' else ext)
      in unique_loop used rnd dir slug ext (sanitizeName (shortID jobID)) 0 maxNameAttempts)"

definition randomTag :: "8 word list option \<Rightarrow> string" where
  "randomTag b = (case b of None \<Rightarrow> '''' | Some bs \<Rightarrow> take tagLen (hex_encode bs))"

subsection \<open>Moving a file\<close>

text \<open>Files are a map from paths to contents. \<open>mv_copied\<close> is the number of bytes after which a copy fails.\<close>

datatype rename_result = Renamed | CrossDevice | RenameFailed

record move_env =
  mv_mkdir_ok :: bool
  mv_rename :: rename_result
  mv_open_ok :: bool
  mv_create_ok :: bool
  mv_copied :: "nat option"
  mv_sync_ok :: bool
  mv_close_ok :: bool
  mv_unlink_ok :: "string \<Rightarrow> bool"

type_synonym files = "string \<Rightarrow> string option"

definition unlink :: "move_env \<Rightarrow> string \<Rightarrow> files \<Rightarrow> files" where
  "unlink env p fs = (if mv_unlink_ok env p then fs(p := None) else fs)"

definition copyRemove :: "move_env \<Rightarrow> string \<Rightarrow> string \<Rightarrow> files \<Rightarrow> bool \<times> files" where
  "copyRemove env src dst fs =
     (case (if mv_open_ok env then fs src else None) of
        None \<Rightarrow> (False, fs)
      | Some content \<Rightarrow>
          if \<not> mv_create_ok env then (False, fs)
          else let fs = fs(dst \<mapsto> '''') in
          case mv_copied env of
            Some n \<Rightarrow> (False, unlink env dst (fs(dst \<mapsto> take n content)))
          | None \<Rightarrow>
              let fs = fs(dst \<mapsto> content) in
              if \<not> mv_sync_ok env then (False, unlink env dst fs)
              else if \<not> mv_close_ok env then (False, unlink env dst fs)
              else (True, unlink env src fs))"

definition moveFile :: "move_env \<Rightarrow> string \<Rightarrow> string \<Rightarrow> files \<Rightarrow> bool \<times> files" where
  "moveFile env src dst fs =
     (if \<not> mv_mkdir_ok env then (False, fs)
      else case mv_rename env of
        Renamed \<Rightarrow> (case fs src of None \<Rightarrow> (False, fs) | Some content \<Rightarrow> (True, (fs(src := None))(dst \<mapsto> content)))
      | RenameFailed \<Rightarrow> (False, fs)
      | CrossDevice \<Rightarrow> copyRemove env src dst fs)"

subsection \<open>Progress\<close>

definition clampPercent :: "float64 \<Rightarrow> float64" where
  "clampPercent p = (if p < 0 then 0 else if p > 100 then 100 else p)"

definition emitStage :: "string \<Rightarrow> Progress" where
  "emitStage stage = \<lparr>Percent = - 1, p_Stage = stage, Speed = '''', ETA = ''''\<rparr>"

definition emitPercent :: "string \<Rightarrow> float64 \<Rightarrow> Progress" where
  "emitPercent stage pct = \<lparr>Percent = clampPercent pct, p_Stage = stage, Speed = '''', ETA = ''''\<rparr>"

end
