(* ===== verification/ExecSpec.thy ===== *)
theory ExecSpec
  imports Exec
begin

text \<open>
  What the shared parts of the runners guarantee: safe names, output paths inside their directory, lines that do
  not depend on how a pipe is read, a ring that is the tail of its input, and moves that are all or nothing.
\<close>

subsection \<open>Safe names\<close>

text \<open>No two dashes in a row.\<close>

definition dash_ok :: "char \<Rightarrow> char \<Rightarrow> bool" where
  "dash_ok a b \<longleftrightarrow> \<not> (a = CHR ''-'' \<and> b = CHR ''-'')"

definition slug_char :: "char \<Rightarrow> bool" where
  "slug_char c \<longleftrightarrow> keep_char c \<or> c = CHR ''-''"

lemma keep_not_dash: "keep_char c \<Longrightarrow> c \<noteq> CHR ''-''"
  by (auto simp: keep_char_def byte_class_defs)

lemma slug_chars: "list_all slug_char (slug_bytes d s)"
  by (induction d s rule: slug_bytes.induct) (auto simp: slug_char_def)

lemma slug_dashes:
  "successively dash_ok (slug_bytes d s) \<and> (d \<longrightarrow> slug_bytes d s = [] \<or> hd (slug_bytes d s) \<noteq> CHR ''-'')"
proof (induction d s rule: slug_bytes.induct)
  case (2 d c s)
  then show ?case using keep_not_dash [of c]
    by (auto simp: successively_Cons dash_ok_def)
qed simp

lemma slug_id:
  "list_all slug_char s \<Longrightarrow> successively dash_ok s \<Longrightarrow> (d \<longrightarrow> s = [] \<or> hd s \<noteq> CHR ''-'') \<Longrightarrow> slug_bytes d s = s"
proof (induction s arbitrary: d)
  case (Cons c s)
  have "s = [] \<or> c \<noteq> CHR ''-'' \<or> hd s \<noteq> CHR ''-''"
    using Cons.prems(2) by (auto simp: successively_Cons dash_ok_def)
  then show ?case
    using Cons.prems Cons.IH [of False] Cons.IH [of True] keep_not_dash [of c]
    by (auto simp: slug_char_def successively_Cons)
qed simp

lemma ReplaceAll_dots_shape:
  "(s \<noteq> [] \<longrightarrow> ReplaceAll s ''..'' ''.'' \<noteq> [] \<and> hd (ReplaceAll s ''..'' ''.'') = hd s \<and>
      last (ReplaceAll s ''..'' ''.'') = last s) \<and>
   set (ReplaceAll s ''..'' ''.'') \<subseteq> set s \<and>
   (successively dash_ok s \<longrightarrow> successively dash_ok (ReplaceAll s ''..'' ''.''))"
proof (induction s rule: length_induct)
  case (1 s)
  show ?case
  proof (cases s)
    case (Cons c t)
    show ?thesis
    proof (cases "HasPrefix s ''..''")
      case True
      then obtain u where u: "s = ''..'' @ u" by (auto simp: HasPrefix_iff)
      then have "ReplaceAll s ''..'' ''.'' = CHR ''.'' # ReplaceAll u ''..'' ''.''"
        by (simp add: ReplaceAll_code HasPrefix_def)
      then show ?thesis using 1 [rule_format, of u] u
        by (cases "u = []") (auto simp: successively_Cons dash_ok_def ReplaceAll_code)
    next
      case False
      then have "ReplaceAll s ''..'' ''.'' = c # ReplaceAll t ''..'' ''.''"
        unfolding Cons by (simp add: ReplaceAll_code)
      then show ?thesis using 1 [rule_format, of t] Cons
        by (cases "t = []") (auto simp: successively_Cons ReplaceAll_code)
    qed
  qed (simp add: ReplaceAll_code)
qed

lemma collapse_dots_shape:
  "(s \<noteq> [] \<longrightarrow> collapse_dots s \<noteq> [] \<and> hd (collapse_dots s) = hd s \<and> last (collapse_dots s) = last s) \<and>
   set (collapse_dots s) \<subseteq> set s \<and> length (collapse_dots s) \<le> length s \<and>
   (successively dash_ok s \<longrightarrow> successively dash_ok (collapse_dots s)) \<and> \<not> Contains (collapse_dots s) ''..''"
proof (induction s rule: collapse_dots.induct)
  case (1 s)
  show ?case
  proof (cases "Contains s ''..''")
    case True
    define r where "r = ReplaceAll s ''..'' ''.''"
    have eq: "collapse_dots s = collapse_dots r" using True by (simp add: collapse_dots.simps [of s] r_def)
    show ?thesis
      unfolding eq using 1 [OF True, folded r_def] ReplaceAll_dots_shape [of s, folded r_def] ReplaceAll_dots_le [of s, folded r_def]
      by (cases "s = []") auto
  next
    case False
    then have "collapse_dots s = s" by (simp add: collapse_dots.simps)
    with False show ?thesis by simp
  qed
qed

lemma Trim_shape:
  assumes "Trim s cs \<noteq> []"
  shows "hd (Trim s cs) \<notin> set cs" and "last (Trim s cs) \<notin> set cs"
proof -
  let ?in = "\<lambda>c. c \<in> set cs"
  define u where "u = dropWhile ?in s"
  have t: "Trim s cs = rev (dropWhile ?in (rev u))" by (simp add: Trim_def u_def)
  then have ne: "dropWhile ?in (rev u) \<noteq> []" using assms by simp
  show "last (Trim s cs) \<notin> set cs" using hd_dropWhile [OF ne] t by (simp add: last_rev)
  have u: "u \<noteq> []" using ne by auto
  have "rev u = takeWhile ?in (rev u) @ dropWhile ?in (rev u)" by simp
  then have "u = rev (dropWhile ?in (rev u)) @ rev (takeWhile ?in (rev u))" by (metis rev_append rev_rev_ident)
  then have "u = Trim s cs @ rev (takeWhile ?in (rev u))" by (simp only: t)
  with assms have "hd (Trim s cs) = hd u" by (metis hd_append2)
  with u show "hd (Trim s cs) \<notin> set cs" using hd_dropWhile [of ?in s] by (simp add: u_def)
qed

lemma Trim_sublist: "\<exists>a b. s = a @ Trim s cs @ b"
proof -
  let ?in = "\<lambda>c. c \<in> set cs"
  define u where "u = dropWhile ?in s"
  have "rev u = takeWhile ?in (rev u) @ dropWhile ?in (rev u)" by simp
  then have "u = rev (dropWhile ?in (rev u)) @ rev (takeWhile ?in (rev u))" by (metis rev_append rev_rev_ident)
  moreover have "s = takeWhile ?in s @ u" by (simp add: u_def)
  ultimately have "s = takeWhile ?in s @ Trim s cs @ rev (takeWhile ?in (rev u))"
    by (simp add: Trim_def flip: u_def)
  then show ?thesis by blast
qed

lemma Trim_id: "s = [] \<or> hd s \<notin> set cs \<and> last s \<notin> set cs \<Longrightarrow> Trim s cs = s"
  using dropWhile_eq_self_iff [of "\<lambda>c. c \<in> set cs" s] dropWhile_eq_self_iff [of "\<lambda>c. c \<in> set cs" "rev s"]
  by (auto simp: Trim_def hd_rev)

definition slug_ok :: "string \<Rightarrow> bool" where
  "slug_ok s \<longleftrightarrow> s \<noteq> '''' \<and> length s \<le> 80 \<and> list_all (\<lambda>c. is_alnum c \<or> c \<in> set ''._-'') s \<and>
     hd s \<notin> {CHR ''-'', CHR ''.''} \<and> last s \<notin> {CHR ''-'', CHR ''.''} \<and> \<not> Contains s ''..'' \<and> \<not> Contains s ''--''"

lemma successively_Contains: "successively dash_ok s \<longleftrightarrow> \<not> Contains s ''--''"
proof (induction s)
  case (Cons c s)
  then show ?case
    by (cases s) (auto simp: successively_Cons dash_ok_def HasPrefix_def)
qed simp

lemma slug_char_iff: "slug_char c \<longleftrightarrow> is_alnum c \<or> c \<in> set ''._-''"
  by (auto simp: slug_char_def keep_char_def)

lemma sanitizeName_ok: "slug_ok (sanitizeName s)"
proof -
  let ?cut = "''-. '' @ [CHR 0x09]"
  define a where "a = (let out = slug_bytes False s in if length out > maxSlugLen then take maxSlugLen out else out)"
  define b where "b = Trim a ?cut"
  define c where "c = collapse_dots b"
  have n: "sanitizeName s = (if c = '''' then ''file'' else c)"
    by (simp add: sanitizeName_def Let_def a_def b_def c_def)
  obtain rest where a: "slug_bytes False s = a @ rest"
    by (metis a_def append_take_drop_id append_Nil2)
  then have a1: "list_all slug_char a" "successively dash_ok a"
    using slug_chars [of False s] slug_dashes [of False s] by (auto simp: successively_append_iff)
  have a2: "length a \<le> 80" by (simp add: a_def Let_def maxSlugLen_def)
  obtain x y where ab: "a = x @ b @ y" using Trim_sublist [of a ?cut] b_def by blast
  with a1 a2 have b1: "list_all slug_char b" "successively dash_ok b" "length b \<le> 80"
    by (auto simp: successively_append_iff)
  show ?thesis
  proof (cases "c = ''''")
    case True
    then show ?thesis unfolding n by (simp, code_simp)
  next
    case False
    then have bne: "b \<noteq> []" using collapse_dots_shape [of b] by (auto simp: c_def collapse_dots.simps)
    have "list_all slug_char c" using collapse_dots_shape [of b] b1(1) by (auto simp: c_def list_all_iff)
    moreover have "hd c \<notin> set ?cut" "last c \<notin> set ?cut"
      using collapse_dots_shape [of b] bne Trim_shape [of a ?cut] by (simp_all add: c_def b_def)
    ultimately show ?thesis
      unfolding n using False collapse_dots_shape [of b] b1
      by (auto simp: slug_ok_def c_def slug_char_iff list_all_iff successively_Contains)
  qed
qed

lemma sanitizeName_id: "slug_ok s \<Longrightarrow> sanitizeName s = s"
proof -
  assume s: "slug_ok s"
  then have "slug_bytes False s = s"
    by (intro slug_id) (auto simp: slug_ok_def list_all_iff slug_char_iff successively_Contains)
  moreover have "Trim s (''-. '' @ [CHR 0x09]) = s"
  proof (rule Trim_id)
    have "is_alnum (hd s) \<or> hd s \<in> set ''._-''" "is_alnum (last s) \<or> last s \<in> set ''._-''"
      using s by (auto simp: slug_ok_def list_all_iff)
    then show "s = [] \<or> hd s \<notin> set (''-. '' @ [CHR 0x09]) \<and> last s \<notin> set (''-. '' @ [CHR 0x09])"
      using s by (auto simp: slug_ok_def byte_class_defs)
  qed
  moreover have "collapse_dots s = s" using s by (simp add: slug_ok_def collapse_dots.simps)
  ultimately show ?thesis using s by (simp add: sanitizeName_def Let_def slug_ok_def maxSlugLen_def)
qed


text \<open>
  Whatever text a client supplies, the name made from it is harmless: one to eighty bytes, all of them
  letters, digits, dots, underscores or dashes, no dash or dot at either end, so it cannot be read as
  an option, hide the file or name a directory, and no run of dots or dashes. A name so made is left as it is.
\<close>
theorem sanitize_safe:
  shows "slug_ok (sanitizeName s) \<and> sanitizeName (sanitizeName s) = sanitizeName s"
  using sanitizeName_ok sanitizeName_id by simp

subsection \<open>Output paths\<close>

lemma slug_ok_proper: "slug_ok s \<Longrightarrow> proper_name s"
  by (auto simp: slug_ok_def proper_name_def list_all_iff byte_class_defs)

lemma sanitizeName_proper: "proper_name (sanitizeName s)"
  by (rule slug_ok_proper [OF sanitizeName_ok])

text \<open>A name that starts with a harmless slug and contains no slash is a proper file name.\<close>

lemma output_name_proper:
  assumes "slug_ok slug" and "CHR ''/'' \<notin> set tag" and "CHR ''/'' \<notin> set ext"
  shows "proper_name (output_name slug tag ext)"
proof -
  from assms(1) obtain c s where "slug = c # s" "c \<noteq> CHR ''.''" by (cases slug) (auto simp: slug_ok_def)
  with assms show ?thesis using slug_ok_proper [OF assms(1)] by (auto simp: proper_name_def output_name_def)
qed

lemma hex_no_slash: "CHR ''/'' \<notin> set (hex_encode bs)"
proof -
  have "CHR ''/'' \<noteq> hex_digit d" if "d < 16" for d
  proof -
    from that have "d \<in> set [0..<16]" by simp
    then show ?thesis by (auto simp: hex_digit_def upt_rec)
  qed
  moreover have "unat (b :: 8 word) div 16 < 16" for b using unsigned_less [of b, where 'a = nat] by (simp add: less_mult_imp_div_less)
  ultimately show ?thesis by (induction bs) simp_all
qed

lemma unique_loop_shape:
  assumes "slug_ok slug" and "CHR ''/'' \<notin> set ext" and "\<And>k. CHR ''/'' \<notin> set (rnd k)" and "CHR ''/'' \<notin> set tag"
  shows "\<exists>name. proper_name name \<and> unique_loop used rnd dir slug ext tag k n = Join_path [dir, name]"
  using assms(4)
proof (induction n arbitrary: k tag)
  case 0
  then show ?case using output_name_proper [OF assms(1) _ assms(2)] by auto
next
  case (Suc n)
  then show ?case using output_name_proper [OF assms(1) Suc.prems assms(2)] Suc.IH [of "rnd k" "Suc k"] assms(3)
    by (auto simp: Let_def)
qed

text \<open>The result is taken only when no more tag can be drawn.\<close>

lemma unique_loop_fresh:
  assumes "\<And>k. rnd k \<noteq> '''' \<and> rnd k \<noteq> ''file''" and "tag \<noteq> '''' \<and> tag \<noteq> ''file''"
    and "used (unique_loop used rnd dir slug ext tag k n)"
  shows "list_all used (map (\<lambda>t. Join_path [dir, output_name slug t ext]) (tag # map rnd [k..<k + n]))"
  using assms(2,3)
proof (induction n arbitrary: k tag)
  case (Suc n)
  have "used (Join_path [dir, output_name slug tag ext])" using Suc.prems by (auto simp: Let_def split: if_splits)
  moreover have "used (unique_loop used rnd dir slug ext (rnd k) (Suc k) n)"
    using Suc.prems by (auto simp: Let_def split: if_splits)
  note Suc.IH [OF assms(1) this]
  moreover have "[k..<k + Suc n] = k # [Suc k..<Suc k + n]" by (simp add: upt_conv_Cons)
  ultimately show ?case by (simp only: list.map list.pred_inject)
qed simp

text \<open>
  C22. A result is written into the download directory itself, under a proper file name, whatever the titles and
  extensions are; and it lands on a path that is in use only when the path of the job's own tag and those of
  sixteen more tags were all in use.
\<close>
theorem output_path_safe:
  assumes "rooted_dir dir" and "\<And>k. \<exists>b c. draw k = Some [b, c]"
    and "sanitizeName (shortID jobID) \<noteq> ''file''"
    and "path = uniqueOutputPath used (\<lambda>k. randomTag (draw k)) dir base ext jobID"
  shows "(\<exists>name. proper_name name \<and> path = dir @ ''/'' @ name) \<and>
    (used path \<longrightarrow> (\<exists>slug e. list_all used (map (\<lambda>t. Join_path [dir, output_name slug t e])
       (sanitizeName (shortID jobID) # map (\<lambda>k. randomTag (draw k)) [0..<16]))))"
proof -
  define e where "e = (let x = sanitizeName (TrimPrefix ext ''.'') in if x = ''file'' then '''' else x)"
  have path: "path = unique_loop used (\<lambda>k. randomTag (draw k)) dir (sanitizeName base) e (sanitizeName (shortID jobID)) 0 16"
    unfolding assms(4) uniqueOutputPath_def e_def Let_def maxNameAttempts_def by simp
  have rnd: "randomTag (draw k) \<noteq> '''' \<and> randomTag (draw k) \<noteq> ''file'' \<and> CHR ''/'' \<notin> set (randomTag (draw k))" for k
  proof -
    obtain b c where "draw k = Some [b, c]" using assms(2) by blast
    then have "length (randomTag (draw k)) = 2" "set (randomTag (draw k)) \<subseteq> set (hex_encode [b, c])"
      by (simp_all add: randomTag_def tagLen_def)
    then show ?thesis using hex_no_slash [of "[b, c]"] by fastforce
  qed
  have "CHR ''/'' \<notin> set e" "CHR ''/'' \<notin> set (sanitizeName (shortID jobID))"
    using sanitizeName_proper by (auto simp: e_def Let_def proper_name_def)
  then obtain name where "proper_name name" "path = Join_path [dir, name]"
    unfolding path using unique_loop_shape [OF sanitizeName_ok, of e "\<lambda>k. randomTag (draw k)"] rnd by blast
  moreover have "sanitizeName (shortID jobID) \<noteq> '''' \<and> sanitizeName (shortID jobID) \<noteq> ''file''"
    using sanitizeName_proper assms(3) by (simp add: proper_name_def)
  then have "used path \<Longrightarrow> list_all used (map (\<lambda>t. Join_path [dir, output_name (sanitizeName base) t e])
       (sanitizeName (shortID jobID) # map (\<lambda>k. randomTag (draw k)) [0..<0 + 16]))"
    unfolding path using rnd by (intro unique_loop_fresh) simp_all
  ultimately show ?thesis using Join_path_rooted [OF assms(1), of name] unfolding add_0 by blast
qed

lemma output_path_safe_witness:
  "\<exists>name. proper_name name \<and> uniqueOutputPath (\<lambda>p. p = ''/d/My-clip-ab.mp4'') (\<lambda>k. randomTag (Some [0xC0, 0xDE]))
     ''/d'' ''My clip'' ''.mp4'' ''ab12'' = ''/d'' @ ''/'' @ name"
proof -
  have "rooted_dir ''/d''" unfolding rooted_dir_def by (rule exI [of _ "[''d'']"]) (simp add: proper_name_def)
  moreover have "sanitizeName (shortID ''ab12'') \<noteq> ''file''" by code_simp
  ultimately show ?thesis
    using output_path_safe [of "''/d''" "\<lambda>k. Some [0xC0, 0xDE]" "''ab12''"] by fastforce
qed

subsection \<open>Lines\<close>

text \<open>The lines of a byte string: the non-empty pieces between line ends of either kind.\<close>

definition lines_of :: "string \<Rightarrow> string list" where
  "lines_of s = filter (\<lambda>l. l \<noteq> '''') (Split (map (\<lambda>c. if is_eol c then CHR 0x0A else c) s) CHR 0x0A)"

lemma is_eol_LF [simp]: "is_eol CHR 0x0A"
  by (simp add: is_eol_def)

lemma lines_of_eol: "is_eol c \<Longrightarrow> lines_of (c # s) = lines_of s"
  by (simp add: lines_of_def)

lemma lines_of_eols: "list_all is_eol e \<Longrightarrow> lines_of (e @ s) = lines_of s"
  by (induction e) (simp_all add: lines_of_eol)

lemma map_no_eol: "list_all (\<lambda>c. \<not> is_eol c) w \<Longrightarrow> map (\<lambda>c. if is_eol c then CHR 0x0A else c) w = w \<and> CHR 0x0A \<notin> set w"
  by (induction w) auto

lemma lines_of_word:
  assumes "list_all (\<lambda>c. \<not> is_eol c) w" and "w \<noteq> []"
  shows "lines_of w = [w]" and "is_eol c \<Longrightarrow> lines_of (w @ c # s) = w # lines_of s"
proof -
  note w = map_no_eol [OF assms(1)]
  show "lines_of w = [w]" using w Split_id [of "CHR 0x0A" w] assms(2) by (simp add: lines_of_def)
  show "lines_of (w @ c # s) = w # lines_of s" if "is_eol c"
    using w Split_append [of "CHR 0x0A" w] assms(2) that by (simp add: lines_of_def)
qed

lemma lines_of_Nil [simp]: "lines_of [] = []"
  by (simp add: lines_of_def)

lemma splitLinesCR_parts:
  obtains e body line where "buf = e @ body" "list_all is_eol e" "body = [] \<or> \<not> is_eol (hd body)"
    "line = takeWhile (\<lambda>c. \<not> is_eol c) body"
    "splitLinesCR buf atEOF =
      (if length line < length body then (length e + length line + 1, Some line)
         else if atEOF then (if length e < length buf then (length buf, Some body) else (length buf, None))
         else if length e > 0 then (length e, None) else (0, None))"
proof -
  let ?e = "takeWhile is_eol buf" and ?b = "dropWhile is_eol buf"
  have "drop (length ?e) buf = ?b" by (metis append_eq_conv_conj takeWhile_dropWhile_id)
  note drop = this
  show ?thesis
  proof (rule that [of ?e ?b])
    show "?b = [] \<or> \<not> is_eol (hd ?b)" using hd_dropWhile [of is_eol buf] by blast
    show "list_all is_eol ?e" by (auto simp: list_all_iff dest: set_takeWhileD)
  qed (simp_all only: splitLinesCR_def Let_def drop takeWhile_dropWhile_id)
qed

lemma line_split:
  assumes "body = [] \<or> \<not> is_eol (hd body)"
  shows "body = takeWhile (\<lambda>c. \<not> is_eol c) body @ dropWhile (\<lambda>c. \<not> is_eol c) body"
    and "list_all (\<lambda>c. \<not> is_eol c) (takeWhile (\<lambda>c. \<not> is_eol c) body)"
    and "length (takeWhile (\<lambda>c. \<not> is_eol c) body) < length body \<Longrightarrow>
      takeWhile (\<lambda>c. \<not> is_eol c) body \<noteq> [] \<and> (\<exists>c r. body = takeWhile (\<lambda>c. \<not> is_eol c) body @ c # r \<and> is_eol c)"
    and "\<not> length (takeWhile (\<lambda>c. \<not> is_eol c) body) < length body \<Longrightarrow> list_all (\<lambda>c. \<not> is_eol c) body"
proof -
  let ?w = "takeWhile (\<lambda>c. \<not> is_eol c) body" and ?r = "dropWhile (\<lambda>c. \<not> is_eol c) body"
  show s: "body = ?w @ ?r" by simp
  show all: "list_all (\<lambda>c. \<not> is_eol c) ?w" by (auto simp: list_all_iff dest: set_takeWhileD)
  show "list_all (\<lambda>c. \<not> is_eol c) body" if "\<not> length ?w < length body"
  proof -
    have "?r = []" using that s by (metis append_Nil2 length_append length_greater_0_conv less_add_same_cancel1)
    then have "body = ?w" using s by (metis append_Nil2)
    then show ?thesis using all by metis
  qed
  assume "length ?w < length body"
  then have r: "?r \<noteq> []" using s by (metis append_Nil2 less_irrefl)
  then have "is_eol (hd ?r)" using hd_dropWhile [OF r] by simp
  moreover have "body \<noteq> []" using r by auto
  then have "?w \<noteq> []" using assms by (cases body) auto
  ultimately show "?w \<noteq> [] \<and> (\<exists>c r. body = ?w @ c # r \<and> is_eol c)" using s r by (metis list.collapse)
qed

text \<open>One pass over the buffer: the tokens, then a rest without a line end.\<close>

lemma drain_False:
  "drain False buf = (ts, rest) \<Longrightarrow> lines_of (buf @ fut) = ts @ lines_of (rest @ fut) \<and> list_all (\<lambda>c. \<not> is_eol c) rest"
proof (induction False buf arbitrary: ts rest rule: drain.induct)
  case (1 buf)
  obtain e body line where p: "buf = e @ body" "list_all is_eol e" "body = [] \<or> \<not> is_eol (hd body)"
      "line = takeWhile (\<lambda>c. \<not> is_eol c) body"
    and s: "splitLinesCR buf False = (if length line < length body then (length e + length line + 1, Some line)
         else if False then (if length e < length buf then (length buf, Some body) else (length buf, None))
         else if length e > 0 then (length e, None) else (0, None))"
    by (rule splitLinesCR_parts)
  show ?case
  proof (cases "length line < length body")
    case True
    then obtain c r where b: "body = line @ c # r" "is_eol c" "line \<noteq> []" "list_all (\<lambda>c. \<not> is_eol c) line"
      using line_split [OF p(3)] p(4) by metis
    from s True have sp: "splitLinesCR buf False = (length e + length line + 1, Some line)" by simp
    have d: "drop (length e + length line + 1) buf = r" by (simp add: p(1) b(1))
    obtain ts' where ts: "ts = line # ts'" "drain False r = (ts', rest)"
      using 1(2) drain.simps [of False buf] unfolding sp by (auto simp only: prod.case option.case d split: prod.splits)
    have "lines_of (buf @ fut) = line # lines_of (r @ fut)"
      using lines_of_word(2) [OF b(4,3,2)] by (simp add: p(1,2) b(1) lines_of_eols)
    then show ?thesis using 1(1) [OF sp [symmetric] refl, unfolded d, of ts' rest] ts by simp
  next
    case False
    then have body: "list_all (\<lambda>c. \<not> is_eol c) body" using line_split(4) [OF p(3)] p(4) by simp
    have sp: "splitLinesCR buf False = (length e, None)" using s False by auto
    then have "drain False buf = ([], body)" using drain.simps [of False buf] by (simp add: p(1))
    then have "ts = []" "rest = body" using 1(2) by simp_all
    then show ?thesis using body by (simp add: p(1,2) lines_of_eols)
  qed
qed

lemma drain_True: "fst (drain True buf) = lines_of buf"
proof (induction True buf rule: drain.induct)
  case (1 buf)
  obtain e body line where p: "buf = e @ body" "list_all is_eol e" "body = [] \<or> \<not> is_eol (hd body)"
      "line = takeWhile (\<lambda>c. \<not> is_eol c) body"
    and s: "splitLinesCR buf True = (if length line < length body then (length e + length line + 1, Some line)
         else if True then (if length e < length buf then (length buf, Some body) else (length buf, None))
         else if length e > 0 then (length e, None) else (0, None))"
    by (rule splitLinesCR_parts)
  show ?case
  proof (cases "length line < length body")
    case True
    then obtain c r where b: "body = line @ c # r" "is_eol c" "line \<noteq> []" "list_all (\<lambda>c. \<not> is_eol c) line"
      using line_split [OF p(3)] p(4) by metis
    from s True have sp: "splitLinesCR buf True = (length e + length line + 1, Some line)" by simp
    have d: "drop (length e + length line + 1) buf = r" by (simp add: p(1) b(1))
    have "lines_of buf = line # lines_of r"
      using lines_of_word(2) [OF b(4,3,2)] by (simp add: p(1,2) b(1) lines_of_eols)
    moreover have "fst (drain True buf) = line # fst (drain True r)"
      using drain.simps [of True buf] unfolding sp by (simp add: d [simplified] case_prod_beta)
    ultimately show ?thesis using 1 [OF sp [symmetric] refl] unfolding d by simp
  next
    case False
    then have body: "list_all (\<lambda>c. \<not> is_eol c) body" using line_split(4) [OF p(3)] p(4) by simp
    show ?thesis
    proof (cases "body = []")
      case True
      then have sp: "splitLinesCR buf True = (length buf, None)" using s p(1,4) by simp
      then show ?thesis using True p(1,2) lines_of_eols [of e "[]"] by (subst drain.simps) (simp add: sp)
    next
      case ne: False
      then have sp: "splitLinesCR buf True = (length buf, Some body)" using s False p(1) by simp
      have "drain True [] = ([], [])" by (subst drain.simps) (simp add: splitLinesCR_def)
      then have "fst (drain True buf) = [body]" using drain.simps [of True buf] by (simp add: sp)
      then show ?thesis using lines_of_word(1) [OF body ne] p(1,2) lines_of_eols [of e body] by simp
    qed
  qed
qed

text \<open>What waits in the buffer is the beginning of the next line.\<close>

lemma rest_begins_line:
  assumes "list_all (\<lambda>c. \<not> is_eol c) rest" and "rest \<noteq> []"
  shows "\<exists>t. rest @ t \<in> set (lines_of (rest @ fut))"
proof -
  let ?t = "takeWhile (\<lambda>c. \<not> is_eol c) fut" and ?r = "dropWhile (\<lambda>c. \<not> is_eol c) fut"
  have w: "list_all (\<lambda>c. \<not> is_eol c) (rest @ ?t)" using assms(1) by (auto simp: list_all_iff dest: set_takeWhileD)
  have "rest @ ?t \<in> set (lines_of ((rest @ ?t) @ ?r))"
  proof (cases ?r)
    case Nil
    show ?thesis using lines_of_word(1) [OF w] assms(2) unfolding Nil by simp
  next
    case (Cons c r)
    have "is_eol c" using hd_dropWhile [of "\<lambda>c. \<not> is_eol c" fut] Cons by simp
    then show ?thesis using lines_of_word(2) [OF w, of c r] assms(2) unfolding Cons by simp
  qed
  then show ?thesis by auto
qed

lemma scanLines_lines:
  "list_all (\<lambda>l. int (length l) < maxLineBytes) (lines_of (buf @ concat chunks)) \<Longrightarrow>
     scanLines buf chunks = lines_of (buf @ concat chunks)"
proof (induction chunks arbitrary: buf)
  case (Cons c cs)
  obtain ts rest where d: "drain False (buf @ c) = (ts, rest)" by fastforce
  note eq = drain_False [OF d, of "concat cs"]
  have "int (length rest) < maxLineBytes"
  proof (cases "rest = []")
    case False
    then obtain t where "rest @ t \<in> set (lines_of (rest @ concat cs))" using rest_begins_line eq by blast
    then have "rest @ t \<in> set (lines_of (buf @ concat (c # cs)))" using eq by simp
    with Cons.prems have "int (length (rest @ t)) < maxLineBytes" unfolding list_all_iff by blast
    then show ?thesis by simp
  qed (simp add: maxLineBytes_def)
  moreover have "scanLines rest cs = lines_of (rest @ concat cs)"
    using Cons.prems eq by (intro Cons.IH) simp
  ultimately show ?case using eq by (simp add: d)
qed (simp add: drain_True)

text \<open>
  C23. The lines a runner sees do not depend on how the pipe delivers the output: whatever the reads are, they are the
  non-empty pieces of the whole output between carriage returns and newlines, in order, as long as no
  line fills the buffer.
\<close>
theorem scan_chunk_independent:
  assumes "list_all (\<lambda>l. int (length l) < maxLineBytes) (lines_of (concat chunks))"
  shows "scanLines [] chunks = lines_of (concat chunks)"
  using scanLines_lines [of "[]" chunks] assms by simp

lemma scan_chunk_independent_witness:
  "scanLines [] [''a'' @ [CHR 0x0D], [CHR 0x0A] @ ''bc'', ''d'' @ [CHR 0x0A, CHR 0x0A], ''e''] = [''a'', ''bcd'', ''e'']"
proof -
  let ?cs = "[''a'' @ [CHR 0x0D], [CHR 0x0A] @ ''bc'', ''d'' @ [CHR 0x0A, CHR 0x0A], ''e'']"
  have "lines_of (concat ?cs) = [''a'', ''bcd'', ''e'']" by code_simp
  then show ?thesis using scan_chunk_independent [of ?cs] by (simp add: maxLineBytes_def)
qed

subsection \<open>The ring\<close>

text \<open>The last \<open>n\<close> elements of a list, and what \<open>ring.add\<close> keeps of a line.\<close>

definition last_n :: "nat \<Rightarrow> 'a list \<Rightarrow> 'a list" where
  "last_n n xs = drop (length xs - n) xs"

definition kept_lines :: "string list \<Rightarrow> string list" where
  "kept_lines ls = map clip_line (filter (\<lambda>l. l \<noteq> '''') (map (\<lambda>l. TrimRight l ('' '' @ [CHR 0x09])) ls))"

definition ring_ok :: "ring \<Rightarrow> bool" where
  "ring_ok r \<longleftrightarrow> length (rg_buf r) = rg_limit r \<and> rg_next r < rg_limit r"

lemma last_n_snoc: "0 < n \<Longrightarrow> last_n n (xs @ [x]) = (if length xs < n then last_n n xs @ [x] else tl (last_n n xs) @ [x])"
  by (auto simp: last_n_def drop_Suc tl_drop Suc_diff_le)

lemma ring_lines_write:
  assumes "ring_ok r" and "next = (rg_next r + 1) mod rg_limit r"
  shows "ring_lines (r\<lparr>rg_buf := (rg_buf r)[rg_next r := l], rg_next := next, rg_full := (rg_full r \<or> next = 0)\<rparr>) =
    (if rg_full r then tl (ring_lines r) else ring_lines r) @ [l]"
proof -
  have b: "length (rg_buf r) = rg_limit r" "rg_next r < length (rg_buf r)" using assms(1) by (simp_all add: ring_ok_def)
  show ?thesis
  proof (cases "Suc (rg_next r) = rg_limit r")
    case True
    then have "rg_buf r = take (rg_next r) (rg_buf r) @ [rg_buf r ! rg_next r]"
      using b by (metis take_Suc_conv_app_nth take_all order_refl)
    then obtain xs x where xs: "rg_buf r = xs @ [x]" "length xs = rg_next r"
      using b by (metis length_take min.absorb4)
    then show ?thesis using True assms(2) by (auto simp: ring_lines_def list_update_append)
  next
    case False
    then have "next = Suc (rg_next r)" using assms(2) b by simp
    moreover have "rg_buf r = take (rg_next r) (rg_buf r) @ rg_buf r ! rg_next r # drop (Suc (rg_next r)) (rg_buf r)"
      using b(2) by (rule id_take_nth_drop)
    then obtain xs x ys where xs: "rg_buf r = xs @ x # ys" "length xs = rg_next r"
      using b by (metis length_take min.absorb4)
    ultimately show ?thesis by (auto simp: ring_lines_def list_update_append)
  qed
qed

lemma ring_add_ok: "ring_ok r \<Longrightarrow> ring_ok (ring_add l r) \<and> rg_limit (ring_add l r) = rg_limit r"
  by (auto simp: ring_add_def ring_ok_def Let_def)

text \<open>The ring holds the last lines of what went in: a simulation step.\<close>

definition holds :: "ring \<Rightarrow> string list \<Rightarrow> bool" where
  "holds r xs \<longleftrightarrow> ring_ok r \<and> ring_lines r = last_n (rg_limit r) xs \<and>
     (rg_full r \<longleftrightarrow> rg_limit r \<le> length xs) \<and> (\<not> rg_full r \<longrightarrow> rg_next r = length xs)"

lemma holds_add: "holds r (kept_lines xs) \<Longrightarrow> holds (ring_add l r) (kept_lines (xs @ [l]))"
proof -
  assume h: "holds r (kept_lines xs)"
  let ?t = "TrimRight l ('' '' @ [CHR 0x09])"
  show ?thesis
  proof (cases "?t = ''''")
    case True
    with h show ?thesis by (simp add: ring_add_def kept_lines_def)
  next
    case False

    have ok: "ring_ok r" and lim: "0 < rg_limit r" "rg_next r < rg_limit r" using h by (auto simp: holds_def ring_ok_def)
    have kept: "kept_lines (xs @ [l]) = kept_lines xs @ [clip_line ?t]" using False by (simp add: kept_lines_def)
    have add: "ring_add l r = r\<lparr>rg_buf := (rg_buf r)[rg_next r := clip_line ?t], rg_next := (rg_next r + 1) mod rg_limit r,
        rg_full := (rg_full r \<or> (rg_next r + 1) mod rg_limit r = 0)\<rparr>"
      using False by (simp add: ring_add_def Let_def)
    have lines: "ring_lines (ring_add l r) = last_n (rg_limit r) (kept_lines xs @ [clip_line ?t])"
      unfolding add ring_lines_write [OF ok refl] using h lim by (simp add: holds_def last_n_snoc not_less)
    have nxt: "Suc (rg_next r) mod rg_limit r = (if Suc (rg_next r) = rg_limit r then 0 else Suc (rg_next r))"
      using lim by auto
    show ?thesis
      unfolding holds_def kept using ring_add_ok [OF ok, of l] lines h lim
      by (auto simp: holds_def add nxt split: if_splits)
  qed
qed

lemma holds_new: "holds (newRing n) (kept_lines [])"
  by (simp add: holds_def newRing_def ring_ok_def ring_lines_def last_n_def kept_lines_def Let_def)

lemma holds_fold: "holds r (kept_lines xs) \<Longrightarrow> holds (fold ring_add ls r) (kept_lines (xs @ ls))"
proof (induction ls arbitrary: r xs)
  case (Cons l ls)
  then show ?case using Cons.IH [OF holds_add [OF Cons.prems, of l]] by simp
qed simp

text \<open>
  The error text of a failed tool is the tail of its stderr: after any lines, the ring holds exactly the last forty
  that are not blank, clipped, oldest first, and the text made of them is their join, cut to its last bytes when
  too long.
\<close>
theorem ring_is_tail:
  shows "ring_lines (fold ring_add ls (newRing n)) = last_n (if n < 1 then 1 else nat n) (kept_lines ls) \<and>
    ring_String (fold ring_add ls (newRing n)) = tail_text (Join (last_n (if n < 1 then 1 else nat n) (kept_lines ls)) ''; '')"
proof -
  have "rg_limit (fold ring_add ls r) = rg_limit r" if "ring_ok r" for r
    using that by (induction ls arbitrary: r) (simp_all add: ring_add_ok)
  moreover have "ring_ok (newRing n)" "rg_limit (newRing n) = (if n < 1 then 1 else nat n)"
    by (simp_all add: newRing_def ring_ok_def Let_def)
  ultimately show ?thesis
    using holds_fold [OF holds_new, of ls n] by (simp add: holds_def ring_String_def kept_lines_def)
qed

lemma capWriter_prefix:
  "cw_max w = int m \<Longrightarrow> length (cw_buf w) \<le> m \<Longrightarrow> cw_buf (fold cap_Write ps w) = take m (cw_buf w @ concat ps)"
proof (induction ps arbitrary: w)
  case (Cons p ps)
  have w: "cw_buf (cap_Write p w) = take m (cw_buf w @ p)" "cw_max (cap_Write p w) = int m"
    using Cons.prems by (auto simp: cap_Write_def Let_def min_def nat_diff_distrib')
  have "length (cw_buf (cap_Write p w)) \<le> m" by (simp add: w(1))
  with Cons.IH [OF w(2)] have "cw_buf (fold cap_Write ps (cap_Write p w)) = take m (take m (cw_buf w @ p) @ concat ps)"
    by (simp only: w(1))
  also have "\<dots> = take m ((cw_buf w @ p) @ concat ps)" using Cons.prems(2) by (cases "length (cw_buf w @ p) \<le> m") (auto simp: min_def)
  finally show ?case by simp
qed simp

subsection \<open>Moves\<close>

text \<open>
  C25. Moving a result into place is all or nothing. On success the destination holds the whole content of the
  source, whether it was renamed or copied across file systems. On failure the source is untouched, and nothing
  partial is left under the destination's name as long as it can be removed. No other file changes.
\<close>
theorem move_all_or_nothing:
  assumes "src \<noteq> dst" and "moveFile env src dst fs = (ok, fs')"
  shows "(if ok then fs src \<noteq> None \<and> fs' dst = fs src \<and> (mv_unlink_ok env src \<longrightarrow> fs' src = None)
      else fs' src = fs src \<and> (fs' = fs \<or> (mv_unlink_ok env dst \<longrightarrow> fs' dst = None))) \<and>
    (p \<noteq> src \<and> p \<noteq> dst \<longrightarrow> fs' p = fs p)"
  using assms
  by (auto simp: moveFile_def copyRemove_def unlink_def Let_def split: if_splits option.splits rename_result.splits)

definition demo_move :: move_env where
  "demo_move = \<lparr>mv_mkdir_ok = True, mv_rename = CrossDevice, mv_open_ok = True, mv_create_ok = True, mv_copied = Some 2,
     mv_sync_ok = True, mv_close_ok = True, mv_unlink_ok = (\<lambda>_. True)\<rparr>"

lemma move_all_or_nothing_witness:
  "snd (moveFile demo_move ''/t/a'' ''/d/b'' [''/t/a'' \<mapsto> ''data'']) ''/t/a'' = Some ''data'' \<and>
   \<not> fst (moveFile demo_move ''/t/a'' ''/d/b'' [''/t/a'' \<mapsto> ''data''])"
proof -
  let ?r = "moveFile demo_move ''/t/a'' ''/d/b'' [''/t/a'' \<mapsto> ''data'']"
  have "fst ?r = False" by (simp add: moveFile_def demo_move_def copyRemove_def Let_def)
  then have "?r = (False, snd ?r)" by (metis prod.collapse)
  from move_all_or_nothing [OF _ this] \<open>fst ?r = False\<close> show ?thesis by simp
qed

end
