(* ===== verification/Encoders.thy ===== *)
theory Encoders
  imports Params Exec
begin

text \<open>
  The command lines of ffmpeg and ImageMagick, \<open>internal/runner/ffmpeg.go\<close> and
  \<open>internal/runner/image.go\<close>: the encoder tables, the resolved specification of an encode, the
  bitrate budget of a size target, and the argument vectors. A \<open>string list\<close> is an argv without the program.
\<close>

subsection \<open>Encoder tables\<close>

definition videoEncoders :: "(string \<times> string) list" where
  "videoEncoders = [(''h264'', ''libx264''), (''h265'', ''libx265''), (''vp9'', ''libvpx-vp9''), (''av1'', ''libsvtav1''),
     (''copy'', ''copy'')]"

definition vp9CPUUsed :: "(string \<times> int) list" where
  "vp9CPUUsed = [(''veryslow'', 0), (''slow'', 1), (''medium'', 2), (''fast'', 3), (''faster'', 4), (''veryfast'', 5)]"

definition svtAV1Preset :: "(string \<times> int) list" where
  "svtAV1Preset = [(''veryslow'', 2), (''slow'', 4), (''medium'', 6), (''fast'', 8), (''faster'', 9), (''veryfast'', 10)]"

text \<open>A missing key of a Go map is the zero value.\<close>

definition lookup_str :: "(string \<times> string) list \<Rightarrow> string \<Rightarrow> string" where
  "lookup_str m k = (case map_of m k of None \<Rightarrow> '''' | Some v \<Rightarrow> v)"

definition lookup_int :: "(string \<times> int) list \<Rightarrow> string \<Rightarrow> int" where
  "lookup_int m k = (case map_of m k of None \<Rightarrow> 0 | Some v \<Rightarrow> v)"

record encodeSpec =
  es_Container :: string
  es_VideoCodec :: string
  es_Speed :: string
  es_CRF :: int
  es_Resolution :: string
  es_FrameRate :: string
  es_AudioCodec :: string
  es_AudioBitrate :: string
  es_StripMetadata :: bool
  es_Stage :: string
  es_TargetMB :: int
  es_VideoKbps :: int
  es_Pass :: int
  es_PassLog :: string

definition defaultRetentionDays :: int where "defaultRetentionDays = 7"

datatype spec_error = BadParams ValidationError | UnsupportedType Type

text \<open>\<open>specFor\<close>: the stored parameters are parsed again and resolved.\<close>

fun specFor :: "Type \<Rightarrow> json option \<Rightarrow> spec_error + encodeSpec" where
  "specFor TypeConvert raw =
     (case ParseConvert raw defaultRetentionDays of
        Inl e \<Rightarrow> Inl (BadParams e)
      | Inr p \<Rightarrow> Inr \<lparr>es_Container = cv_Container p, es_VideoCodec = cv_VideoCodec p, es_Speed = fst (Resolved p),
          es_CRF = snd (Resolved p), es_Resolution = cv_Resolution p, es_FrameRate = cv_FrameRate p,
          es_AudioCodec = cv_AudioCodec p, es_AudioBitrate = cv_AudioBitrate p, es_StripMetadata = cv_StripMetadata p,
          es_Stage = ''converting'', es_TargetMB = 0, es_VideoKbps = 0, es_Pass = 0, es_PassLog = ''''\<rparr>)"
| "specFor TypeCompress raw =
     (case ParseCompress raw defaultRetentionDays of
        Inl e \<Rightarrow> Inl (BadParams e)
      | Inr p \<Rightarrow> Inr \<lparr>es_Container = cm_Container p, es_VideoCodec = cm_VideoCodec p, es_Speed = cm_Speed p,
          es_CRF = CompressCRFFor p, es_Resolution = cm_Resolution p, es_FrameRate = ''source'',
          es_AudioCodec = DefaultAudioCodec (cm_Container p), es_AudioBitrate = cm_AudioBitrate p,
          es_StripMetadata = cm_StripMetadata p, es_Stage = ''encoding'', es_TargetMB = cm_TargetSizeMB p,
          es_VideoKbps = 0, es_Pass = 0, es_PassLog = ''''\<rparr>)"
| "specFor t raw = Inl (UnsupportedType t)"

subsection \<open>The bitrate budget\<close>

definition sizeTargetOverhead :: rat where "sizeTargetOverhead = fl_fin (98 / 100)"
definition minVideoKbps :: int where "minVideoKbps = 100"
definition maxVideoKbps :: int where "maxVideoKbps = 500000"

definition audioKbps :: "encodeSpec \<Rightarrow> int" where
  "audioKbps s = (if es_AudioCodec s = ''none'' then 0
     else case Atoi (es_AudioBitrate s) of None \<Rightarrow> 0 | Some n \<Rightarrow> n)"

text \<open>
  \<open>int(f)\<close> truncates; a value that does not fit, infinity included (\<open>None\<close>), becomes the least
  integer, as on amd64.
\<close>

definition float_to_int :: "rat option \<Rightarrow> int" where
  "float_to_int f = (case f of
      None \<Rightarrow> int64_min
    | Some x \<Rightarrow> (let n = (if x < 0 then \<lceil>x\<rceil> else \<lfloor>x\<rfloor>) in if is_int64 n then n else int64_min))"

definition fl_bind :: "rat option \<Rightarrow> (rat \<Rightarrow> rat) \<Rightarrow> rat option" where
  "fl_bind x f = (case x of None \<Rightarrow> None | Some v \<Rightarrow> fl (f v))"

definition humanDuration :: "rat \<Rightarrow> string" where
  "humanDuration sec =
     (let ns = float_to_int (fl (sec * 1000000000));
          s = (if ns < 0 then - (- ns div 1000000000) else min 9223372036 ((ns + 500000000) div 1000000000)) in
      if s \<ge> 3600 then Itoa (s div 3600) @ '' hours '' @ Itoa (s mod 3600 div 60) @ '' minutes''
      else if s \<ge> 60 then Itoa (s div 60) @ '' minutes '' @ Itoa (s mod 60) @ '' seconds''
      else Itoa s @ '' seconds'')"

definition totalKbps :: "int \<Rightarrow> rat \<Rightarrow> rat option" where
  "totalKbps targetMB durationSec =
     (let x = fl (of_int targetMB);
          x = fl_bind x (\<lambda>v. v * 1000000);
          x = fl_bind x (\<lambda>v. v * 8);
          x = fl_bind x (\<lambda>v. v / 1000);
          x = fl_bind x (\<lambda>v. v / durationSec)
      in fl_bind x (\<lambda>v. v * sizeTargetOverhead))"

definition targetVideoKbps :: "int \<Rightarrow> rat \<Rightarrow> int \<Rightarrow> (string, int) result" where
  "targetVideoKbps targetMB durationSec audio =
     (if durationSec \<le> 0 then Inl ''cannot aim at a file size: the length of this file is unknown''
      else
        let video = wrap64 (float_to_int (totalKbps targetMB durationSec) - audio) in
        if video < minVideoKbps then
          Inl (''a '' @ Itoa targetMB @ '' MB target cannot hold '' @ humanDuration durationSec @ '' of video at '' @ Itoa audio @
            '' kbps audio - raise the target size, lower the audio bitrate, or trim the file'')
        else Inr (min video maxVideoKbps))"

subsection \<open>ffmpeg\<close>

definition rateControl :: "string \<Rightarrow> encodeSpec \<Rightarrow> string list" where
  "rateControl enc s =
     (if es_Pass s > 0 then
        [''-b:v'', Itoa (es_VideoKbps s) @ ''k'', ''-pass'', Itoa (es_Pass s), ''-passlogfile'', es_PassLog s]
      else if enc = ''libvpx-vp9'' then [''-crf'', Itoa (es_CRF s), ''-b:v'', ''0'']
      else [''-crf'', Itoa (es_CRF s)])"

definition speed_args :: "string \<Rightarrow> encodeSpec \<Rightarrow> string list" where
  "speed_args enc s =
     (if enc = ''libvpx-vp9'' then [''-cpu-used'', Itoa (lookup_int vp9CPUUsed (es_Speed s)), ''-row-mt'', ''1'']
      else if enc = ''libsvtav1'' then [''-preset'', Itoa (lookup_int svtAV1Preset (es_Speed s))]
      else [''-preset'', es_Speed s])"

text \<open>A number that is neither empty nor \<open>source\<close> becomes an option.\<close>

definition number_args :: "string \<Rightarrow> string \<Rightarrow> string \<Rightarrow> string list" where
  "number_args v opt pre =
     (if v \<noteq> '''' \<and> v \<noteq> ''source'' then
        (case Atoi v of Some n \<Rightarrow> if n > 0 then [opt, pre @ Itoa n] else [] | None \<Rightarrow> []) else [])"

definition audio_args :: "encodeSpec \<Rightarrow> string list" where
  "audio_args s =
     (if es_AudioCodec s = ''none'' then [''-an'']
      else if es_AudioCodec s = ''copy'' then [''-c:a'', ''copy'']
      else if es_AudioCodec s = ''flac'' then [''-c:a'', ''flac'']
      else if es_AudioCodec s = ''aac'' then [''-c:a'', ''aac'', ''-b:a'', es_AudioBitrate s @ ''k'']
      else if es_AudioCodec s = ''opus'' then [''-c:a'', ''libopus'', ''-b:a'', es_AudioBitrate s @ ''k'']
      else if es_AudioCodec s = ''mp3'' then [''-c:a'', ''libmp3lame'', ''-b:a'', es_AudioBitrate s @ ''k'']
      else [])"

definition ffmpegArgs :: "string \<Rightarrow> string \<Rightarrow> encodeSpec \<Rightarrow> string list" where
  "ffmpegArgs input output s =
     (let enc = lookup_str videoEncoders (es_VideoCodec s);
          enc = (if enc = '''' then ''libx264'' else enc);
          args = [''-hide_banner'', ''-nostdin'', ''-y'', ''-i'', input, ''-progress'', ''pipe:1'', ''-nostats'', ''-c:v'', enc];
          args = (if enc \<noteq> ''copy'' then
              args @ speed_args enc s @ rateControl enc s @ number_args (es_Resolution s) ''-vf'' ''scale=-2:'' @
              number_args (es_FrameRate s) ''-r'' ''''
            else args)
      in if es_Pass s = 1 then args @ [''-an'', ''-f'', ''null'', output]
         else args @ audio_args s @ (if es_StripMetadata s then [''-map_metadata'', ''-1''] else []) @
           (if es_Container s = ''mp4'' \<or> es_Container s = ''mov'' then [''-movflags'', ''+faststart''] else []) @ [output])"

definition audioOnlyExt :: "string list" where
  "audioOnlyExt = [''mp3'', ''m4a'', ''aac'', ''flac'', ''wav'', ''ogg'', ''oga'', ''opus'', ''wma'']"

definition editPlan :: "string \<Rightarrow> string \<times> bool" where
  "editPlan input =
     (let ext = ToLower (TrimPrefix (Ext input) ''.'') in
      if ext = '''' \<or> length ext > 5 then (''mp4'', False)
      else let ext = sanitizeName ext in
        if ext \<in> set audioOnlyExt then (ext, True)
        else if ext = ''mp4'' \<or> ext = ''mov'' \<or> ext = ''m4v'' then (''mp4'', False)
        else (''mkv'', False))"

text \<open>\<open>strconv.FormatFloat(v, 'f', 3, 64)\<close>: the nearest multiple of a thousandth, ties to even.\<close>

definition seconds :: "rat \<Rightarrow> string" where
  "seconds v =
     (let n = nat (round_even (\<bar>v\<bar> * 1000)) in
      (if v < 0 then ''-'' else '''') @ itoa_nat (n div 1000) @ ''.'' @ pad_zeros 3 (itoa_nat (n mod 1000)))"

definition editArgs :: "string \<Rightarrow> string \<Rightarrow> EditParams \<Rightarrow> bool \<Rightarrow> string list" where
  "editArgs input output p copyOnly =
     [''-hide_banner'', ''-nostdin'', ''-y''] @
     (if ed_Start p > 0 then [''-ss'', seconds (ed_Start p)] else []) @
     [''-i'', input, ''-progress'', ''pipe:1'', ''-nostats''] @
     (if Span p > 0 then [''-t'', seconds (Span p)] else []) @
     (if copyOnly then [''-c'', ''copy'', ''-avoid_negative_ts'', ''make_zero'']
      else (if HasCrop p then [''-vf'', ''crop='' @ Itoa (ed_CropW p) @ '':'' @ Itoa (ed_CropH p) @ '':'' @ Itoa (ed_CropX p) @
              '':'' @ Itoa (ed_CropY p)] else []) @
        [''-c:v'', ''libx264'', ''-preset'', ''veryfast'', ''-crf'', ''18'', ''-pix_fmt'', ''yuv420p'', ''-c:a'', ''copy'']) @
     (if HasSuffix output ''.mp4'' \<or> HasSuffix output ''.mov'' then [''-movflags'', ''+faststart''] else []) @ [output]"

subsection \<open>ImageMagick\<close>

definition resizeGeometry :: "int \<Rightarrow> int \<Rightarrow> string" where
  "resizeGeometry w h =
     (if w > 0 \<and> h > 0 then Itoa w @ ''x'' @ Itoa h @ ''>''
      else if w > 0 then Itoa w @ ''x>''
      else if h > 0 then ''x'' @ Itoa h @ ''>''
      else '''')"

definition magick_limits :: "string list" where
  "magick_limits =
     [''-limit'', ''memory'', ''512MiB'', ''-limit'', ''map'', ''1GiB'', ''-limit'', ''disk'', ''1GiB'', ''-limit'', ''area'', ''128MP'',
      ''-limit'', ''width'', ''32KP'', ''-limit'', ''height'', ''32KP'', ''-limit'', ''list-length'', ''512'',
      ''-limit'', ''thread'', ''2'', ''-limit'', ''time'', ''60'']"

definition format_args :: "string \<Rightarrow> ImageParams \<Rightarrow> string list" where
  "format_args format p =
     (if format = ''jpg'' \<or> format = ''webp'' \<or> format = ''avif'' then
        (if im_Quality p > 0 then [''-quality'', Itoa (im_Quality p)] else [])
      else if format = ''png'' then [''-define'', ''png:compression-level=9'']
      else if format = ''gif'' then [''-layers'', ''optimize'']
      else if format = ''pbm'' then
        [''-colorspace'', ''gray'', ''-normalize'', ''-auto-threshold'', ''OTSU''] @ (if im_Trace p = ''light'' then [''-negate''] else [])
      else [])"

definition magickArgs :: "string \<Rightarrow> string \<Rightarrow> string \<Rightarrow> ImageParams \<Rightarrow> bool \<Rightarrow> string list" where
  "magickArgs input output format p exactSize =
     magick_limits @ [input, ''-auto-orient''] @
     (let geom = resizeGeometry (im_Width p) (im_Height p) in
      if geom \<noteq> '''' then [''-resize'', if exactSize then TrimSuffix geom ''>'' else geom] else []) @
     (if im_StripMetadata p then [''-strip''] else []) @ format_args format p @ [output]"

definition outputExt :: "string \<Rightarrow> string" where
  "outputExt format = (if format = ''svg_trace'' then ''svg'' else format)"

definition isSVGPath :: "string \<Rightarrow> bool" where
  "isSVGPath p = EqualFold (Ext p) ''.svg''"

definition rsvgArgs :: "string \<Rightarrow> string \<Rightarrow> ImageParams \<Rightarrow> string list" where
  "rsvgArgs input output p =
     [''--format=png'', ''--background-color=none'', ''--keep-aspect-ratio''] @
     (if im_Width p > 0 then [''--width'', Itoa (im_Width p)] else []) @
     (if im_Height p > 0 then [''--height'', Itoa (im_Height p)] else []) @
     [''--output'', output, ''--'', input]"

definition potraceArgs :: "string \<Rightarrow> string \<Rightarrow> string list" where
  "potraceArgs output input = [''--svg'', ''--output'', output, ''--'', input]"

end
