(* ===== verification/YtDlp.thy ===== *)
theory YtDlp
  imports Params Exec
begin

text \<open>
  The download runner's own logic, \<open>internal/runner/ytdlp.go\<close>: the argument vector, the banner lines,
  the choice of the produced file, and what a probe tells the client about a URL.
\<close>

subsection \<open>Media information\<close>

record rawFormat =
  rf_FormatID :: string
  rf_Ext :: string
  rf_Resolution :: string
  rf_Width :: int
  rf_Height :: int
  rf_FPS :: float64
  rf_VCodec :: string
  rf_ACodec :: string
  rf_Filesize :: int
  rf_FilesizeApprox :: int
  rf_TBR :: float64
  rf_FormatNote :: string

record Format =
  fm_ID :: string
  fm_Ext :: string
  fm_Resolution :: string
  fm_FPS :: float64
  fm_VCodec :: string
  fm_ACodec :: string
  fm_Filesize :: int
  fm_Bitrate :: float64
  fm_Note :: string
  fm_HasVideo :: bool
  fm_HasAudio :: bool

text \<open>What both a source and a playlist entry carry; only a source has entries of its own that are read.\<close>

record rawEntry =
  ri_Title :: string
  ri_Uploader :: string
  ri_Channel :: string
  ri_UploaderID :: string
  ri_Duration :: float64
  ri_Thumbnail :: string
  ri_Formats :: "rawFormat list"

record rawInfo = rawEntry +
  ri_Type :: string
  ri_WebpageURL :: string
  ri_Extractor :: string
  ri_ExtractorLC :: string
  ri_Entries :: "rawEntry list"

record MediaInfo =
  mi_Title :: string
  mi_Uploader :: string
  mi_Duration :: float64
  mi_Thumbnail :: string
  mi_WebpageURL :: string
  mi_Extractor :: string
  mi_IsPlaylist :: bool
  mi_Formats :: "Format list"

definition has_codec :: "string \<Rightarrow> bool" where
  "has_codec c \<longleftrightarrow> c \<noteq> '''' \<and> c \<noteq> ''none''"

definition convertFormat :: "rawFormat \<Rightarrow> Format" where
  "convertFormat f =
     (let hasVideo = has_codec (rf_VCodec f); hasAudio = has_codec (rf_ACodec f);
          res = (if rf_Resolution f \<noteq> '''' then rf_Resolution f
                 else if rf_Width f > 0 \<and> rf_Height f > 0 then Itoa (rf_Width f) @ ''x'' @ Itoa (rf_Height f)
                 else if rf_Height f > 0 then Itoa (rf_Height f) @ ''p''
                 else if \<not> hasVideo \<and> hasAudio then ''audio only'' else '''');
          sz = (if rf_Filesize f = 0 then rf_FilesizeApprox f else rf_Filesize f);
          sz = (if sz < 0 then 0 else sz)
      in \<lparr>fm_ID = rf_FormatID f, fm_Ext = rf_Ext f, fm_Resolution = res, fm_FPS = rf_FPS f, fm_VCodec = rf_VCodec f,
          fm_ACodec = rf_ACodec f, fm_Filesize = sz, fm_Bitrate = rf_TBR f, fm_Note = rf_FormatNote f,
          fm_HasVideo = hasVideo, fm_HasAudio = hasAudio\<rparr>)"

definition raw_height :: "rawFormat \<Rightarrow> int" where
  "raw_height f =
     (if rf_Height f > 0 then rf_Height f
      else case IndexByte (rf_Resolution f) CHR ''x'' of
        None \<Rightarrow> 0
      | Some i \<Rightarrow> if i > 0 then (case Atoi (drop (Suc i) (rf_Resolution f)) of Some h \<Rightarrow> h | None \<Rightarrow> 0) else 0)"

text \<open>The \<open>less\<close> of the sort: video first, taller first, then the higher bitrate.\<close>

definition format_less :: "rawFormat \<Rightarrow> rawFormat \<Rightarrow> bool" where
  "format_less a b =
     (let va = has_codec (rf_VCodec a); vb = has_codec (rf_VCodec b) in
      if va \<noteq> vb then va
      else if va \<and> raw_height a \<noteq> raw_height b then raw_height a > raw_height b
      else rf_TBR a > rf_TBR b)"

text \<open>\<open>sort.SliceStable\<close>, as the insertion sort that defines its result.\<close>

fun insert_stable :: "('a \<Rightarrow> 'a \<Rightarrow> bool) \<Rightarrow> 'a \<Rightarrow> 'a list \<Rightarrow> 'a list" where
  "insert_stable lt x [] = [x]"
| "insert_stable lt x (y # ys) = (if lt y x then y # insert_stable lt x ys else x # y # ys)"

definition SliceStable :: "('a \<Rightarrow> 'a \<Rightarrow> bool) \<Rightarrow> 'a list \<Rightarrow> 'a list" where
  "SliceStable lt xs = foldr (insert_stable lt) xs []"

definition sortRawFormats :: "rawFormat list \<Rightarrow> rawFormat list" where
  "sortRawFormats fs = SliceStable format_less fs"

definition buildMediaInfo :: "rawInfo \<Rightarrow> MediaInfo" where
  "buildMediaInfo info =
     (let mi = \<lparr>mi_Title = ri_Title info, mi_Uploader = firstNonEmpty [ri_Uploader info, ri_Channel info, ri_UploaderID info],
                mi_Duration = ri_Duration info, mi_Thumbnail = ri_Thumbnail info, mi_WebpageURL = ri_WebpageURL info,
                mi_Extractor = firstNonEmpty [ri_Extractor info, ri_ExtractorLC info], mi_IsPlaylist = False, mi_Formats = []\<rparr>;
          playlist = (ri_Type info = ''playlist'' \<or> ri_Type info = ''multi_video'');
          mi = mi\<lparr>mi_IsPlaylist := playlist\<rparr>;
          (mi, formats) =
            (case (playlist, ri_Entries info) of
               (True, e # _) \<Rightarrow>
                 (mi\<lparr>mi_Title := (if mi_Title mi = '''' then ri_Title e else mi_Title mi),
                     mi_Duration := (if mi_Duration mi = 0 then ri_Duration e else mi_Duration mi),
                     mi_Thumbnail := (if mi_Thumbnail mi = '''' then ri_Thumbnail e else mi_Thumbnail mi),
                     mi_Uploader := (if mi_Uploader mi = '''' then firstNonEmpty [ri_Uploader e, ri_Channel e, ri_UploaderID e]
                       else mi_Uploader mi)\<rparr>, ri_Formats e)
             | _ \<Rightarrow> (mi, ri_Formats info))
      in mi\<lparr>mi_Formats := map convertFormat (sortRawFormats formats)\<rparr>)"

definition redactURL :: "string \<Rightarrow> string" where
  "redactURL u = (case IndexByte u CHR ''?'' of Some i \<Rightarrow> if i > 0 then take i u else u | None \<Rightarrow> u)"

subsection \<open>Downloads\<close>

definition videoFormatSelector :: "string \<Rightarrow> string" where
  "videoFormatSelector i =
     (if i = '''' then ''bv*+ba/b'' else if Contains i ''+'' then i else i @ ''+ba/'' @ i)"

definition ytDlpArgs :: "DownloadParams \<Rightarrow> string \<Rightarrow> string \<Rightarrow> string list" where
  "ytDlpArgs p tmpl url =
     [''--no-playlist'', ''--no-warnings'', ''--newline'', ''--progress'', ''--no-part'', ''--restrict-filenames'',
      ''--write-info-json'', ''-o'', tmpl] @
     (if dl_Mode p = ''audio'' then
        [''-x'', ''--audio-format'', dl_AudioFormat p] @
        (if dl_AudioBitrate p \<noteq> '''' then [''--audio-quality'', dl_AudioBitrate p @ ''K''] else [])
      else
        [''-f'', videoFormatSelector (dl_FormatID p)] @
        (if dl_Container p \<noteq> '''' then [''--merge-output-format'', dl_Container p] else [])) @
     (if dl_EmbedSubs p then [''--embed-subs''] else []) @
     (if dl_EmbedThumb p then [''--embed-thumbnail''] else []) @
     (if dl_EmbedMetadata p then [''--embed-metadata''] else []) @
     [''--'', url]"

definition ytDlpStage :: "string \<Rightarrow> string option" where
  "ytDlpStage line =
     (if HasPrefix line ''[Merger]'' then Some ''merging''
      else if list_ex (HasPrefix line) [''[ExtractAudio]'', ''[EmbedThumbnail]'', ''[Metadata]'', ''[EmbedSubtitle]'',
          ''[VideoConvertor]'', ''[VideoRemuxer]''] then Some ''converting''
      else if HasPrefix line ''[download] Destination:'' then Some ''downloading''
      else None)"

text \<open>One entry of the work directory: its size, \<open>None\<close> when it cannot be read.\<close>

record work_entry =
  we_name :: string
  we_dir :: bool
  we_size :: "int option"

text \<open>The loop of \<open>collectDownload\<close>: title, best file and its size so far. \<open>titles\<close> is what \<open>readInfoJSONTitle\<close> finds.\<close>

definition collect_entry :: "(string \<Rightarrow> string) \<Rightarrow> string \<Rightarrow> work_entry \<Rightarrow> string \<times> string \<times> int \<Rightarrow> string \<times> string \<times> int" where
  "collect_entry titles dir e acc =
     (case acc of (title, best, bestSize) \<Rightarrow>
        let lower = ToLower (we_name e); full = Join_path [dir, we_name e] in
        if we_dir e then acc
        else if HasSuffix lower ''.part'' \<or> HasSuffix lower ''.ytdl'' \<or> HasSuffix lower ''.temp'' then acc
        else if HasSuffix lower ''.info.json'' then
          (let t = titles full in if t \<noteq> '''' then (t, best, bestSize) else acc)
        else if HasSuffix lower ''.json'' then acc
        else (case we_size e of
            None \<Rightarrow> acc
          | Some sz \<Rightarrow> if sz > bestSize then (title, full, sz) else acc))"

definition collectDownload :: "(string \<Rightarrow> string) \<Rightarrow> string \<Rightarrow> work_entry list option \<Rightarrow> (string, string \<times> string) result" where
  "collectDownload titles dir entries =
     (case entries of
        None \<Rightarrow> Inl ''read work dir''
      | Some es \<Rightarrow>
          (case fold (collect_entry titles dir) es ('''', '''', - 1) of
             (title, best, _) \<Rightarrow> if best = '''' then Inl ''yt-dlp produced no output file'' else Inr (title, best)))"

end
