(* ===== verification/Progress.thy ===== *)
theory Progress
  imports Encoders YtDlp
begin

text \<open>
  The progress a running tool reports: \<open>ffProgress\<close> and the passes of \<open>runTwoPass\<close> in
  \<open>internal/runner/ffmpeg.go\<close>, and the line handler of \<open>internal/runner/ytdlp.go\<close> with its three
  regular expressions. A line is what \<open>scanLines\<close> delivers, so it holds no line break.
  \<open>parse\<close> is \<open>strconv.ParseFloat\<close> on the text ffmpeg printed: \<open>Some (Some n)\<close> a finite number,
  \<open>Some None\<close> infinity, \<open>None\<close> an error or NaN, which the code ignores alike.
\<close>

subsection \<open>ffmpeg\<close>

record ffProgress =
  fp_duration :: rat
  fp_stage :: string
  fp_base :: rat
  fp_span :: rat
  fp_outUS :: "rat option"
  fp_speed :: string
  fp_haveTime :: bool

definition fp_scale :: "ffProgress \<Rightarrow> rat option \<Rightarrow> rat" where
  "fp_scale f part =
     (let span = (if fp_span f \<le> 0 then 100 else fp_span f) in
      case fl_bind (fl_bind part (\<lambda>q. q * span)) (\<lambda>v. fp_base f + v) of
        None \<Rightarrow> 100
      | Some v \<Rightarrow> clampPercent v)"

text \<open>
  The share of the running time that is done. A length of more than \<open>10 ^ 302\<close> seconds would be infinite in
  microseconds; any finite position is zero parts of it.
\<close>

definition fp_fraction :: "ffProgress \<Rightarrow> rat option" where
  "fp_fraction f = (case fl (fp_duration f * 1000000) of None \<Rightarrow> Some 0 | Some d \<Rightarrow> fl_bind (fp_outUS f) (\<lambda>v. v / d))"

text \<open>The key and the value of a line.\<close>

definition key_value :: "string \<Rightarrow> (string \<times> string) option" where
  "key_value s = (case Cut (TrimSpace s) CHR ''='' of (k, v, ok) \<Rightarrow> if ok then Some (TrimSpace k, TrimSpace v) else None)"

definition is_time :: "string \<Rightarrow> bool" where
  "is_time k \<longleftrightarrow> k = ''out_time_us'' \<or> k = ''out_time_ms''"

definition accepted :: "(string \<Rightarrow> rat option option) \<Rightarrow> string \<Rightarrow> rat option option" where
  "accepted parse v =
     (if v = ''N/A'' then None
      else case parse v of None \<Rightarrow> None | Some None \<Rightarrow> Some None | Some (Some n) \<Rightarrow> if 0 \<le> n then Some (Some n) else None)"

definition fp_line :: "(string \<Rightarrow> rat option option) \<Rightarrow> string \<Rightarrow> ffProgress \<Rightarrow> ffProgress \<times> Progress option" where
  "fp_line parse s f =
     (case key_value s of
        None \<Rightarrow> (f, None)
      | Some (k, v) \<Rightarrow>
          if is_time k then
            (case accepted parse v of None \<Rightarrow> (f, None) | Some n \<Rightarrow> (f\<lparr>fp_outUS := n, fp_haveTime := True\<rparr>, None))
          else if k = ''speed'' then
            (if v \<noteq> ''N/A'' \<and> v \<noteq> ''0x'' then (f\<lparr>fp_speed := v\<rparr>, None) else (f, None))
          else if k = ''progress'' then
            (f, Some \<lparr>Percent = (if v = ''end'' then fp_scale f (Some 1)
                 else if fp_duration f > 0 \<and> fp_haveTime f then fp_scale f (fp_fraction f) else - 1),
               p_Stage = fp_stage f, Speed = fp_speed f, ETA = ''''\<rparr>)
          else (f, None))"

text \<open>\<open>encode\<close>: every line of ffmpeg's output, the reports in order.\<close>

fun encode_lines :: "(string \<Rightarrow> rat option option) \<Rightarrow> string list \<Rightarrow> ffProgress \<Rightarrow> Progress list" where
  "encode_lines parse [] f = []"
| "encode_lines parse (l # ls) f =
     (case fp_line parse l f of
        (f', None) \<Rightarrow> encode_lines parse ls f'
      | (f', Some p) \<Rightarrow> p # encode_lines parse ls f')"

definition pass_progress :: "rat \<Rightarrow> string \<Rightarrow> rat \<Rightarrow> ffProgress" where
  "pass_progress duration stage base =
     \<lparr>fp_duration = duration, fp_stage = stage, fp_base = base, fp_span = 50, fp_outUS = Some 0, fp_speed = '''',
      fp_haveTime = False\<rparr>"

text \<open>What \<open>runTwoPass\<close> reports when the passes print the lines \<open>ls1\<close> and \<open>ls2\<close> and succeed.\<close>

definition two_pass_reports :: "(string \<Rightarrow> rat option option) \<Rightarrow> rat \<Rightarrow> string list \<Rightarrow> string list \<Rightarrow> Progress list" where
  "two_pass_reports parse duration ls1 ls2 =
     concat (map (\<lambda>(stage, base, ls). emitPercent stage base # encode_lines parse ls (pass_progress duration stage base))
       [(''analyzing'', 0, ls1), (''encoding'', 50, ls2)])"

text \<open>The log files of a two-pass encode that are removed, by the prefix of their names.\<close>

definition removePassLogs :: "string \<Rightarrow> string \<Rightarrow> string list option \<Rightarrow> string list" where
  "removePassLogs dir pre entries =
     (case entries of None \<Rightarrow> [] | Some names \<Rightarrow> map (\<lambda>n. Join_path [dir, n]) (filter (\<lambda>n. HasPrefix n pre) names))"

subsection \<open>yt-dlp\<close>

text \<open>The white space of a regular expression; a search tries every position from the left.\<close>

definition re_space :: "char \<Rightarrow> bool" where
  "re_space c \<longleftrightarrow> c \<in> set [CHR 0x09, CHR 0x0A, CHR 0x0C, CHR 0x0D, CHR '' '']"

fun search :: "(string \<Rightarrow> 'a option) \<Rightarrow> string \<Rightarrow> 'a option" where
  "search f [] = f []"
| "search f (c # s) = (case f (c # s) of Some x \<Rightarrow> Some x | None \<Rightarrow> search f s)"

text \<open>At least one white space is skipped.\<close>

definition skip_space :: "string \<Rightarrow> string option" where
  "skip_space s = (if s \<noteq> [] \<and> re_space (hd s) then Some (dropWhile re_space s) else None)"

text \<open>\<open>ytPercentRe\<close>: the digits before the point and after it.\<close>

definition percent_here :: "string \<Rightarrow> (string \<times> string) option" where
  "percent_here s =
     (if \<not> HasPrefix s ''[download]'' then None
      else case skip_space (drop 10 s) of
        None \<Rightarrow> None
      | Some u \<Rightarrow>
          let d = takeWhile is_digit u; r = dropWhile is_digit u in
          if d = [] then None
          else if HasPrefix r ''%'' then Some (d, [])
          else if HasPrefix r ''.'' then
            (let f = takeWhile is_digit (tl r) in
             if f \<noteq> [] \<and> HasPrefix (dropWhile is_digit (tl r)) ''%'' then Some (d, f) else None)
          else None)"

text \<open>The number these digits denote.\<close>

definition decimal :: "string \<times> string \<Rightarrow> rat" where
  "decimal df = (case df of (d, f) \<Rightarrow>
     (case digits_val 0 (d @ f) of None \<Rightarrow> 0 | Some n \<Rightarrow> of_nat n / 10 ^ length f))"

text \<open>\<open>ytSpeedRe\<close>: the shortest text up to one of the three ends.\<close>

definition word_here :: "string \<Rightarrow> string \<Rightarrow> bool" where
  "word_here w s \<longleftrightarrow> HasPrefix s w \<and> drop (length w) s \<noteq> [] \<and> re_space (hd (drop (length w) s))"

definition speed_end :: "string \<Rightarrow> bool" where
  "speed_end r =
     (let u = dropWhile re_space r in u = [] \<or> r \<noteq> u \<and> (word_here ''ETA'' u \<or> word_here ''in'' u))"

fun speed_text :: "string \<Rightarrow> string" where
  "speed_text [] = []"
| "speed_text (c # r) = (if speed_end r then [c] else c # speed_text r)"

definition speed_here :: "string \<Rightarrow> string option" where
  "speed_here s =
     (if s \<noteq> [] \<and> re_space (hd s) \<and> HasPrefix (tl s) ''at'' then
        (case skip_space (drop 3 s) of None \<Rightarrow> None | Some v \<Rightarrow> if v = [] then None else Some (speed_text v))
      else None)"

text \<open>\<open>ytETARe\<close>\<close>

definition eta_here :: "string \<Rightarrow> string option" where
  "eta_here s =
     (if s \<noteq> [] \<and> re_space (hd s) \<and> HasPrefix (tl s) ''ETA'' then
        (case skip_space (drop 4 s) of None \<Rightarrow> None | Some v \<Rightarrow> if v = [] then None else Some (takeWhile (\<lambda>c. \<not> re_space c) v))
      else None)"

definition parseYtDlpProgress :: "string \<Rightarrow> Progress option" where
  "parseYtDlpProgress line =
     (case search percent_here line of
        None \<Rightarrow> None
      | Some m \<Rightarrow> (case fl (decimal m) of
          None \<Rightarrow> None
        | Some pct \<Rightarrow> Some \<lparr>Percent = clampPercent pct, p_Stage = '''',
            Speed = (case search speed_here line of
                None \<Rightarrow> ''''
              | Some s \<Rightarrow> (let v = TrimSpace s in if v \<noteq> '''' \<and> \<not> HasPrefix v ''Unknown'' then v else '''')),
            ETA = (case search eta_here line of
                None \<Rightarrow> ''''
              | Some v \<Rightarrow> if v \<noteq> ''Unknown'' \<and> v \<noteq> ''NA'' then v else '''')\<rparr>))"

text \<open>One call of the handler, with the stage it carries from line to line.\<close>

definition ytDlpLine :: "string \<Rightarrow> string \<Rightarrow> string \<times> Progress option" where
  "ytDlpLine stage line =
     (case ytDlpStage line of
        Some s \<Rightarrow> (s, Some (emitStage s))
      | None \<Rightarrow> (stage, map_option (\<lambda>pr. pr\<lparr>p_Stage := stage\<rparr>) (parseYtDlpProgress line)))"

fun yt_reports :: "string \<Rightarrow> string list \<Rightarrow> Progress list" where
  "yt_reports stage [] = []"
| "yt_reports stage (l # ls) =
     (case ytDlpLine stage l of
        (s, None) \<Rightarrow> yt_reports s ls
      | (s, Some p) \<Rightarrow> p # yt_reports s ls)"

definition ytDlpLineHandler :: "string list \<Rightarrow> Progress list" where
  "ytDlpLineHandler ls = yt_reports ''downloading'' ls"

end
