(* ===== verification/SvgWrap.thy ===== *)
theory SvgWrap
  imports GoScan Exec
begin

text \<open>
  \<open>wrapPNGInSVG\<close> of \<open>internal/runner/image.go\<close>: an SVG document around a bitmap. \<open>dims\<close> is \<open>png.DecodeConfig\<close>, the width
  and height of a PNG.
\<close>

text \<open>\<open>base64.StdEncoding\<close>: the encoding with its padding.\<close>

definition b64_std :: "string \<Rightarrow> string" where
  "b64_std s = (let e = b64_encode s in e @ replicate ((4 - length e mod 4) mod 4) CHR ''='')"

definition svg_head :: "int \<Rightarrow> int \<Rightarrow> string" where
  "svg_head w h =
     ''<svg xmlns=\"http://www.w3.org/2000/svg\" xmlns:xlink=\"http://www.w3.org/1999/xlink\" viewBox=\"0 0 '' @ Itoa w @ '' '' @ Itoa h @
     ''\"><image width=\"'' @ Itoa w @ ''\" height=\"'' @ Itoa h @ ''\" href=\"data:image/png;base64,''"

definition svg_text :: "int \<Rightarrow> int \<Rightarrow> string \<Rightarrow> string" where
  "svg_text w h png = svg_head w h @ b64_std png @ ''\"/></svg>'' @ [CHR 0x0A]"

text \<open>
  What the file system answers: opening, rewinding, creating; the bytes written before a write or the close fails.
\<close>

record svg_env =
  sv_open_ok :: bool
  sv_seek_ok :: bool
  sv_create_ok :: bool
  sv_written :: "nat option"

definition wrapPNGInSVG :: "(string \<Rightarrow> (int \<times> int) option) \<Rightarrow> svg_env \<Rightarrow> string \<Rightarrow> string \<Rightarrow> files \<Rightarrow> bool \<times> files" where
  "wrapPNGInSVG dims env src dst fs =
     (case (if sv_open_ok env then fs src else None) of
        None \<Rightarrow> (False, fs)
      | Some png \<Rightarrow> (case dims png of
          None \<Rightarrow> (False, fs)
        | Some (w, h) \<Rightarrow>
            if \<not> sv_seek_ok env \<or> \<not> sv_create_ok env then (False, fs)
            else case sv_written env of
              Some n \<Rightarrow> (False, fs(dst \<mapsto> take n (svg_text w h png)))
            | None \<Rightarrow> (True, fs(dst \<mapsto> svg_text w h png))))"

subsection \<open>The bitmap is inside\<close>

lemma b64_std_chars: "list_all (\<lambda>c. b64_val c \<noteq> None \<or> c = CHR ''='') (b64_std s)"
  using b64_groups_encode [of s] by (auto simp: b64_std_def Let_def list_all_iff)

text \<open>A reader of the document: what stands between the last comma and the next quote, padding removed.\<close>

definition embedded :: "string \<Rightarrow> string option" where
  "embedded doc = (case LastIndexByte doc CHR '','' of
      None \<Rightarrow> None
    | Some i \<Rightarrow> b64_decode (TrimRight (takeWhile (\<lambda>c. c \<noteq> CHR 0x22) (drop (Suc i) doc)) ''=''))"

lemma TrimRight_padding: "CHR ''='' \<notin> set s \<Longrightarrow> TrimRight (s @ replicate n CHR ''='') ''='' = s"
proof -
  assume s: "CHR ''='' \<notin> set s"
  have "dropWhile (\<lambda>c. c \<in> set ''='') (replicate n CHR ''='' @ rev s) = dropWhile (\<lambda>c. c \<in> set ''='') (rev s)"
    by (induction n) simp_all
  also have "\<dots> = rev s"
    using s unfolding dropWhile_eq_self_iff by (metis empty_iff empty_set hd_in_set set_ConsD set_rev)
  finally show ?thesis by (simp add: TrimRight_def)
qed

text \<open>A success leaves a document from which the bitmap is read back byte for byte.\<close>

lemma svg_embeds:
  assumes "wrapPNGInSVG dims env src dst fs = (True, fs')"
  shows "\<exists>png doc. fs src = Some png \<and> fs' = fs(dst \<mapsto> doc) \<and> embedded doc = Some png"
proof -
  obtain png w h where p: "fs src = Some png" "fs' = fs(dst \<mapsto> svg_text w h png)"
    using assms by (auto simp: wrapPNGInSVG_def split: option.splits if_splits)
  have "b64_val CHR '','' = None" "b64_val CHR 0x22 = None" "b64_val CHR ''='' = None" by code_simp+
  then have e: "CHR '','' \<notin> set (b64_std png)" "CHR 0x22 \<notin> set (b64_std png)" "CHR ''='' \<notin> set (b64_encode png)"
    using b64_std_chars [of png] b64_groups_encode [of png] by (auto simp: list_all_iff)
  define h1 where "h1 = ''<svg xmlns=\"http://www.w3.org/2000/svg\" xmlns:xlink=\"http://www.w3.org/1999/xlink\" viewBox=\"0 0 '' @
    Itoa w @ '' '' @ Itoa h @ ''\"><image width=\"'' @ Itoa w @ ''\" height=\"'' @ Itoa h @ ''\" href=\"data:image/png;base64''"
  have doc: "svg_text w h png = h1 @ CHR '','' # (b64_std png @ CHR 0x22 # ''/></svg>'' @ [CHR 0x0A])"
    by (simp add: svg_text_def svg_head_def h1_def)
  have "LastIndexByte (svg_text w h png) CHR '','' = Some (length h1)"
    unfolding doc using e(1) by (intro LastIndexByte_append_notin) simp
  moreover have "drop (Suc (length h1)) (svg_text w h png) = b64_std png @ CHR 0x22 # ''/></svg>'' @ [CHR 0x0A]"
    unfolding doc by simp
  moreover have "takeWhile (\<lambda>c. c \<noteq> CHR 0x22) (b64_std png @ CHR 0x22 # ''/></svg>'' @ [CHR 0x0A]) = b64_std png"
    using e(2) by (subst takeWhile_append2) auto
  moreover have "TrimRight (b64_std png) ''='' = b64_encode png" using TrimRight_padding [OF e(3)] by (simp add: b64_std_def Let_def)
  ultimately have "embedded (svg_text w h png) = Some png" by (simp add: embedded_def b64_decode_encode)
  with p show ?thesis by blast
qed

end
