(* ===== verification/Runners.thy ===== *)
theory Runners
  imports Progress SvgWrap SourceURL
begin

text \<open>
  The three runners' \<open>Run\<close>, composed of the pieces of \<open>Encoders\<close>, \<open>YtDlp\<close>, \<open>Progress\<close>, \<open>SvgWrap\<close> and \<open>Exec\<close>. A run acts on
  a world, the files and the trace of the commands started and the reports emitted, and returns its result or an error;
  what the code defers runs on every return. How a child process changes the files, what it prints and how it ends, and
  the other answers of the operating system, are the record \<open>run_env\<close>. \<open>raw\<close> is the job's stored parameters.
\<close>

datatype bin = FFmpegBin | FFprobeBin | MagickBin | RsvgBin | PotraceBin | YtDlpBin

datatype event = Ran bin "string list" | Emitted Progress

record world =
  w_files :: files
  w_trace :: "event list"

text \<open>
  \<open>re_weave\<close> is the order in which the lines of the two pipes reach yt-dlp's handler, \<open>re_number\<close> is
  \<open>strconv.ParseFloat\<close> as in \<open>Progress\<close>, \<open>re_dims\<close> is \<open>png.DecodeConfig\<close>, and \<open>re_unmarshal\<close> is \<open>json.Unmarshal\<close> into a
  \<open>rawInfo\<close>.
\<close>

record run_env =
  re_tmp :: string
  re_download :: string
  re_bin :: "bin \<Rightarrow> string"
  re_abs :: "string \<Rightarrow> string option"
  re_is_dir :: "string \<Rightarrow> bool"
  re_mkdir_ok :: bool
  re_tool :: "bin \<Rightarrow> string list \<Rightarrow> files \<Rightarrow> proc \<times> files"
  re_weave :: "string list \<Rightarrow> string list \<Rightarrow> string list"
  re_number :: "string \<Rightarrow> rat option option"
  re_draw :: "nat \<Rightarrow> 8 word list option"
  re_move :: move_env
  re_svg :: svg_env
  re_dims :: "string \<Rightarrow> (int \<times> int) option"
  re_ReadDir :: "files \<Rightarrow> string \<Rightarrow> work_entry list option"
  re_unmarshal :: "string \<Rightarrow> rawInfo option"
  re_parse :: "string \<Rightarrow> URL option"
  re_lookup :: "string \<Rightarrow> Addr option list option"
  re_h_first :: bool

datatype runner_error =
  NoInput | InputMissing | InputIsDir | SpecError spec_error | ParamError ValidationError | NoDuration | Budget string
| NoTmpDir | ToolError run_error | NoOutput | NoMove | NoWrap | CollectError string

type_synonym 'a run = "world \<Rightarrow> (runner_error, 'a) result \<times> world"

subsection \<open>Sequencing\<close>

definition return_run :: "'a \<Rightarrow> 'a run" where
  "return_run a w = (Inr a, w)"

definition fail_run :: "runner_error \<Rightarrow> 'a run" where
  "fail_run e w = (Inl e, w)"

definition bind_run :: "'a run \<Rightarrow> ('a \<Rightarrow> 'b run) \<Rightarrow> 'b run" where
  "bind_run m f w = (case m w of (Inl e, w') \<Rightarrow> (Inl e, w') | (Inr a, w') \<Rightarrow> f a w')"

definition then_run :: "unit run \<Rightarrow> 'a run \<Rightarrow> 'a run" where
  "then_run m k = bind_run m (\<lambda>_. k)"

text \<open>The early return on an error, and a \<open>defer\<close>: what \<open>f\<close> does to the files happens on every return of \<open>m\<close>.\<close>

definition lift_run :: "('e \<Rightarrow> runner_error) \<Rightarrow> ('e, 'a) result \<Rightarrow> ('a \<Rightarrow> 'b run) \<Rightarrow> 'b run" where
  "lift_run err r k = (case r of Inl e \<Rightarrow> fail_run (err e) | Inr a \<Rightarrow> k a)"

definition require :: "bool \<Rightarrow> runner_error \<Rightarrow> 'a run \<Rightarrow> 'a run" where
  "require ok e k = (if ok then k else fail_run e)"

definition deferred :: "(files \<Rightarrow> files) \<Rightarrow> 'a run \<Rightarrow> 'a run" where
  "deferred f m w = (case m w of (r, w') \<Rightarrow> (r, w'\<lparr>w_files := f (w_files w')\<rparr>))"

definition emit :: "Progress \<Rightarrow> unit run" where
  "emit p w = (Inr (), w\<lparr>w_trace := w_trace w @ [Emitted p]\<rparr>)"

subsection \<open>Processes and files\<close>

text \<open>A process runs only when its pipes are set up and it starts.\<close>

definition started :: "stdout_mode \<Rightarrow> proc \<Rightarrow> bool" where
  "started mode p \<longleftrightarrow> (mode = ToLines \<longrightarrow> pr_stdout_err p = None) \<and> pr_stderr_err p = None \<and> pr_start_err p = None"

text \<open>One child process: its effect on the files, the reports made of its lines, and its error.\<close>

definition exec_run ::
  "run_env \<Rightarrow> bin \<Rightarrow> string list \<Rightarrow> stdout_mode \<Rightarrow> (string list \<Rightarrow> string list \<Rightarrow> Progress list) \<Rightarrow> proc run" where
  "exec_run env b args mode report w =
     (case re_tool env b args (w_files w) of (p, fs) \<Rightarrow>
        case runProc (re_bin env b) mode p of (out, err, e) \<Rightarrow>
          (case e of Some e \<Rightarrow> Inl (ToolError e) | None \<Rightarrow> Inr p,
           w\<lparr>w_files := (if started mode p then fs else w_files w),
             w_trace := w_trace w @ Ran b args # map Emitted (report out err)\<rparr>))"

definition silent :: "string list \<Rightarrow> string list \<Rightarrow> Progress list" where
  "silent out err = []"

definition run_silently :: "run_env \<Rightarrow> bin \<Rightarrow> string list \<Rightarrow> unit run" where
  "run_silently env b args = bind_run (exec_run env b args Discard silent) (\<lambda>_. return_run ())"

text \<open>What arrives in a \<open>capWriter\<close> when the process succeeds.\<close>

definition captured :: "int \<Rightarrow> proc \<Rightarrow> string" where
  "captured m p = cw_buf (fold cap_Write (pr_stdout p) \<lparr>cw_buf = '''', cw_max = m\<rparr>)"

text \<open>\<open>os.Remove\<close>, whose error is ignored; \<open>os.RemoveAll\<close> of a directory; \<open>removePassLogs\<close>.\<close>

definition remove_file :: "run_env \<Rightarrow> string \<Rightarrow> files \<Rightarrow> files" where
  "remove_file env p fs = unlink (re_move env) p fs"

definition below :: "string \<Rightarrow> string \<Rightarrow> bool" where
  "below dir p \<longleftrightarrow> HasPrefix p (dir @ ''/'')"

definition remove_all :: "run_env \<Rightarrow> string \<Rightarrow> files \<Rightarrow> files" where
  "remove_all env dir fs = (\<lambda>p. if (p = dir \<or> below dir p) \<and> mv_unlink_ok (re_move env) p then None else fs p)"

definition remove_logs :: "run_env \<Rightarrow> string \<Rightarrow> files \<Rightarrow> files" where
  "remove_logs env name fs =
     fold (remove_file env) (removePassLogs (re_tmp env) name (map_option (map we_name) (re_ReadDir env fs (re_tmp env)))) fs"

text \<open>\<open>absPath\<close>; the file a tool left behind, and one that is not empty; whether a path is taken.\<close>

definition absPath :: "run_env \<Rightarrow> string \<Rightarrow> string" where
  "absPath env p = (case re_abs env p of Some a \<Rightarrow> a | None \<Rightarrow> p)"

definition produced :: "run_env \<Rightarrow> string \<Rightarrow> files \<Rightarrow> bool" where
  "produced env path fs \<longleftrightarrow> (case fs path of None \<Rightarrow> re_is_dir env path | Some c \<Rightarrow> c \<noteq> '''')"

definition require_output :: "run_env \<Rightarrow> string \<Rightarrow> unit run" where
  "require_output env path w = require (produced env path (w_files w)) NoOutput (return_run ()) w"

definition taken :: "run_env \<Rightarrow> files \<Rightarrow> string \<Rightarrow> bool" where
  "taken env fs p \<longleftrightarrow> re_is_dir env p \<or> fs p \<noteq> None"

definition move_result :: "run_env \<Rightarrow> string \<Rightarrow> string \<Rightarrow> unit run" where
  "move_result env src dst w =
     (case moveFile (re_move env) src dst (w_files w) of (ok, fs) \<Rightarrow>
        (if ok then Inr () else Inl NoMove, w\<lparr>w_files := fs\<rparr>))"

text \<open>The end of every run: the output's name, the move, the last progress report.\<close>

definition deliver :: "run_env \<Rightarrow> Job \<Rightarrow> string list \<Rightarrow> string \<Rightarrow> string \<Rightarrow> string \<Rightarrow> Result run" where
  "deliver env j names ext title src w =
     (let dst = uniqueOutputPath (taken env (w_files w)) (\<lambda>k. randomTag (re_draw env k)) (re_download env) (firstNonEmpty names) ext (j_ID j) in
      then_run (move_result env src dst)
        (then_run (emit (emitPercent ''done'' 100)) (return_run \<lparr>OutputPath = dst, r_Title = title\<rparr>)) w)"

definition names_of :: "Job \<Rightarrow> string \<Rightarrow> string \<Rightarrow> string list" where
  "names_of j input fallback = [baseWithoutExt (j_Title j), baseWithoutExt (j_Source j), baseWithoutExt input, fallback]"

text \<open>The checks both file runners start with.\<close>

definition with_input :: "run_env \<Rightarrow> Job \<Rightarrow> (string \<Rightarrow> Result run) \<Rightarrow> Result run" where
  "with_input env j k w =
     (if TrimSpace (j_InputPath j) = '''' then fail_run NoInput w
      else let input = absPath env (j_InputPath j) in
        if \<not> taken env (w_files w) input then fail_run InputMissing w
        else if re_is_dir env input then fail_run InputIsDir w
        else k input w)"

definition tmp_name :: "run_env \<Rightarrow> string \<Rightarrow> Job \<Rightarrow> string \<Rightarrow> string" where
  "tmp_name env kind j suffix = Join_path [re_tmp env, kind @ sanitizeName (shortID (j_ID j)) @ suffix]"

subsection \<open>ffmpeg\<close>

definition probeArgs :: "string \<Rightarrow> string list" where
  "probeArgs input =
     [''-v'', ''error'', ''-show_entries'', ''format=duration'', ''-of'', ''default=nw=1:nk=1'', ''--'', input]"

text \<open>The number ffprobe printed, and its value; it prints a decimal number or \<open>N/A\<close>, so the value is neither infinite nor NaN.\<close>

definition duration_text :: "string \<Rightarrow> string option" where
  "duration_text out =
     (let txt = TrimSpace out in
      if txt = '''' \<or> txt = ''N/A'' then None else Some (TrimSpace (takeWhile (\<lambda>c. \<not> is_eol c) txt)))"

definition parse_duration :: "run_env \<Rightarrow> string \<Rightarrow> rat option" where
  "parse_duration env out =
     (case duration_text out of
        None \<Rightarrow> None
      | Some t \<Rightarrow> (case re_number env t of Some (Some d) \<Rightarrow> if d \<le> 0 then None else Some d | _ \<Rightarrow> None))"

text \<open>\<open>probeDuration\<close>: no length when the probe fails; the caller decides what that means.\<close>

definition probeDuration :: "run_env \<Rightarrow> string \<Rightarrow> (rat option \<Rightarrow> 'a run) \<Rightarrow> 'a run" where
  "probeDuration env input k w =
     (case exec_run env FFprobeBin (probeArgs input) ToWriter silent w of
        (Inl _, w') \<Rightarrow> k None w'
      | (Inr p, w') \<Rightarrow> k (parse_duration env (captured 4096 p)) w')"

definition encode :: "run_env \<Rightarrow> string list \<Rightarrow> ffProgress \<Rightarrow> unit run" where
  "encode env args prog =
     bind_run (exec_run env FFmpegBin args ToLines (\<lambda>out err. encode_lines (re_number env) out prog)) (\<lambda>_. return_run ())"

text \<open>The progress of a run that owns the whole bar; an unknown length is zero.\<close>

definition whole_progress :: "rat \<Rightarrow> string \<Rightarrow> ffProgress" where
  "whole_progress duration stage =
     \<lparr>fp_duration = duration, fp_stage = stage, fp_base = 0, fp_span = 0, fp_outUS = Some 0, fp_speed = '''', fp_haveTime = False\<rparr>"

definition known_length :: "rat option \<Rightarrow> rat" where
  "known_length d = (case d of None \<Rightarrow> 0 | Some d \<Rightarrow> d)"

definition runOnePass :: "run_env \<Rightarrow> string \<Rightarrow> string \<Rightarrow> encodeSpec \<Rightarrow> rat \<Rightarrow> unit run" where
  "runOnePass env input output s duration =
     then_run (emit (emitStage (es_Stage s)))
       (encode env (ffmpegArgs input output s) (whole_progress duration (es_Stage s)))"

definition run_pass :: "run_env \<Rightarrow> string \<Rightarrow> encodeSpec \<Rightarrow> rat \<Rightarrow> int \<Rightarrow> string \<Rightarrow> rat \<Rightarrow> string \<Rightarrow> unit run" where
  "run_pass env input s duration n stage base output =
     then_run (emit (emitPercent stage base))
       (encode env (ffmpegArgs input output (s\<lparr>es_Pass := n\<rparr>)) (pass_progress duration stage base))"

definition pass_log :: "Job \<Rightarrow> string" where
  "pass_log j = ''pass-'' @ sanitizeName (shortID (j_ID j))"

definition runTwoPass :: "run_env \<Rightarrow> Job \<Rightarrow> string \<Rightarrow> string \<Rightarrow> encodeSpec \<Rightarrow> rat \<Rightarrow> unit run" where
  "runTwoPass env j input output s duration =
     (let s = s\<lparr>es_PassLog := Join_path [re_tmp env, pass_log j]\<rparr> in
      deferred (remove_logs env (pass_log j))
        (then_run (run_pass env input s duration 1 ''analyzing'' 0 ''/dev/null'')
          (run_pass env input s duration 2 ''encoding'' 50 output)))"

definition runEdit :: "run_env \<Rightarrow> Job \<Rightarrow> json option \<Rightarrow> string \<Rightarrow> Result run" where
  "runEdit env j raw input =
     lift_run ParamError (ParseEdit (re_h_first env) raw defaultRetentionDays) (\<lambda>p.
       then_run (emit (emitStage ''probing''))
         (let rest = (\<lambda>span. require (re_mkdir_ok env) NoTmpDir
               (let (container, copyOnly) = editPlan input;
                    tmpOut = tmp_name env ''edit-'' j (''.'' @ container);
                    stage = (if HasCrop p then ''cropping'' else ''trimming'')
                in deferred (remove_file env tmpOut)
                     (then_run (emit (emitStage stage))
                       (then_run (encode env (editArgs input tmpOut p copyOnly) (whole_progress span stage))
                         (then_run (require_output env tmpOut)
                           (deliver env j (names_of j input ''media'') container '''' tmpOut))))))
          in if Span p \<le> 0
             then probeDuration env input (\<lambda>d. rest (case d of None \<Rightarrow> Span p | Some len \<Rightarrow> fl_fin (len - ed_Start p)))
             else rest (Span p)))"

text \<open>The bitrate a size target leaves for the video, zero without a target; it needs the length of the input.\<close>

definition video_budget :: "encodeSpec \<Rightarrow> rat option \<Rightarrow> (runner_error, int) result" where
  "video_budget spec duration =
     (if es_TargetMB spec > 0 then
        (case duration of
           None \<Rightarrow> Inl NoDuration
         | Some d \<Rightarrow> (case targetVideoKbps (es_TargetMB spec) d (audioKbps spec) of Inl e \<Rightarrow> Inl (Budget e) | Inr kbps \<Rightarrow> Inr kbps))
      else Inr 0)"

definition encode_job :: "run_env \<Rightarrow> Job \<Rightarrow> string \<Rightarrow> encodeSpec \<Rightarrow> rat \<Rightarrow> Result run" where
  "encode_job env j input spec duration =
     require (re_mkdir_ok env) NoTmpDir
       (let tmpOut = tmp_name env ''enc-'' j (''.'' @ sanitizeName (es_Container spec)) in
        deferred (remove_file env tmpOut)
          (then_run
            (if es_VideoKbps spec > 0 then runTwoPass env j input tmpOut spec duration
             else runOnePass env input tmpOut spec duration)
            (then_run (require_output env tmpOut)
              (deliver env j (names_of j input ''media'') (es_Container spec) '''' tmpOut))))"

definition ffmpeg_Run :: "run_env \<Rightarrow> Job \<Rightarrow> json option \<Rightarrow> Result run" where
  "ffmpeg_Run env j raw =
     with_input env j (\<lambda>input.
       if j_Type j = TypeEdit then runEdit env j raw input
       else lift_run SpecError (specFor (j_Type j) raw) (\<lambda>spec.
         then_run (emit (emitStage ''probing''))
           (probeDuration env input (\<lambda>d.
             lift_run id (video_budget spec d) (\<lambda>kbps. encode_job env j input (spec\<lparr>es_VideoKbps := kbps\<rparr>) (known_length d))))))"

subsection \<open>ImageMagick\<close>

text \<open>What is rendered before an SVG is wrapped or traced: the format and the path.\<close>

definition render_plan :: "string \<Rightarrow> string \<Rightarrow> string \<Rightarrow> string \<times> string" where
  "render_plan format base tmpOut =
     (if format = ''svg'' then (''png'', base @ ''.png'')
      else if format = ''svg_trace'' then (''pbm'', base @ ''.pbm'') else (format, tmpOut))"

definition wrap_result :: "run_env \<Rightarrow> string \<Rightarrow> string \<Rightarrow> unit run" where
  "wrap_result env src dst w =
     (case wrapPNGInSVG (re_dims env) (re_svg env) src dst (w_files w) of (ok, fs) \<Rightarrow>
        (if ok then Inr () else Inl NoWrap, w\<lparr>w_files := fs\<rparr>))"

definition finish_svg :: "run_env \<Rightarrow> string \<Rightarrow> string \<Rightarrow> string \<Rightarrow> unit run" where
  "finish_svg env format renderPath tmpOut =
     (if format = ''svg'' then wrap_result env renderPath tmpOut
      else if format = ''svg_trace'' then
        then_run (emit (emitStage ''tracing'')) (run_silently env PotraceBin (potraceArgs tmpOut renderPath))
      else return_run ())"

definition image_convert :: "run_env \<Rightarrow> Job \<Rightarrow> ImageParams \<Rightarrow> string \<Rightarrow> string \<Rightarrow> string \<Rightarrow> string \<Rightarrow> Result run" where
  "image_convert env j p format base tmpOut input =
     (let (renderFormat, renderPath) = render_plan format base tmpOut in
      deferred (if renderPath \<noteq> tmpOut then remove_file env renderPath else id)
        (then_run (emit (emitStage ''converting''))
          (then_run (run_silently env MagickBin (magickArgs input renderPath renderFormat p (renderPath \<noteq> tmpOut)))
            (then_run (require_output env renderPath)
              (then_run (finish_svg env format renderPath tmpOut)
                (deliver env j (names_of j input ''image'') (outputExt format) '''' tmpOut))))))"

definition image_Run :: "run_env \<Rightarrow> Job \<Rightarrow> json option \<Rightarrow> Result run" where
  "image_Run env j raw =
     with_input env j (\<lambda>input.
       lift_run ParamError (ParseImage raw defaultRetentionDays) (\<lambda>p.
         lift_run ParamError (ResolveFormat p input) (\<lambda>format.
           require (re_mkdir_ok env) NoTmpDir
             (let base = tmp_name env ''img-'' j '''';
                  tmpOut = base @ ''.'' @ sanitizeName (outputExt format);
                  rasterized = base @ ''-src.png''
              in deferred (remove_file env tmpOut)
                (if isSVGPath input then
                   deferred (remove_file env rasterized)
                     (then_run (emit (emitStage ''rendering''))
                       (then_run (run_silently env RsvgBin (rsvgArgs input rasterized p))
                         (then_run (require_output env rasterized)
                           (image_convert env j p format base tmpOut rasterized))))
                 else image_convert env j p format base tmpOut input)))))"

subsection \<open>yt-dlp\<close>

definition readInfoJSONTitle :: "run_env \<Rightarrow> files \<Rightarrow> string \<Rightarrow> string" where
  "readInfoJSONTitle env fs path =
     (case fs path of
        None \<Rightarrow> ''''
      | Some b \<Rightarrow> (case re_unmarshal env b of None \<Rightarrow> '''' | Some info \<Rightarrow> ri_Title info))"

definition collect_run :: "run_env \<Rightarrow> string \<Rightarrow> (string \<times> string) run" where
  "collect_run env dir w =
     lift_run CollectError (collectDownload (readInfoJSONTitle env (w_files w)) dir (re_ReadDir env (w_files w) dir)) return_run w"

definition ytdlp_Run :: "run_env \<Rightarrow> Job \<Rightarrow> json option \<Rightarrow> Result run" where
  "ytdlp_Run env j raw =
     lift_run ParamError (ParseDownload raw defaultRetentionDays) (\<lambda>p.
       lift_run ParamError (ValidateSourceURL (re_parse env) (re_lookup env) (j_Source j)) (\<lambda>url.
         let jobDir = tmp_name env ''dl-'' j '''';
             args = ytDlpArgs p (Join_path [jobDir, ''%(title).80B-%(id)s.%(ext)s'']) url in
         require (re_mkdir_ok env) NoTmpDir
           (deferred (remove_all env jobDir)
             (then_run (emit (emitStage ''downloading''))
               (bind_run (exec_run env YtDlpBin args ToLines (\<lambda>out err. ytDlpLineHandler (re_weave env out err))) (\<lambda>_.
                 bind_run (collect_run env jobDir) (\<lambda>(title, file).
                   deliver env j [title, baseWithoutExt file, j_Title j, ''download''] (Ext file) title file)))))))"

definition maxProbeBytes :: int where "maxProbeBytes = 33554432"

definition Probe :: "run_env \<Rightarrow> string \<Rightarrow> MediaInfo run" where
  "Probe env rawURL =
     lift_run ParamError (ValidateSourceURL (re_parse env) (re_lookup env) rawURL) (\<lambda>u.
       bind_run (exec_run env YtDlpBin [''-J'', ''--no-warnings'', ''--no-playlist'', ''--no-download'', ''--'', u] ToWriter silent)
         (\<lambda>p. case re_unmarshal env (captured maxProbeBytes p) of
            None \<Rightarrow> fail_run NoOutput
          | Some info \<Rightarrow> return_run (buildMediaInfo info)))"

end
