(* ===== verification/RunnerSpec.thy ===== *)
theory RunnerSpec
  imports Runners ParamsSpec ExecSpec
begin

text \<open>
  What the runners' command lines are made of: options the program names itself, and arguments that cannot be
  taken for options, whatever the client sent.
\<close>

subsection \<open>Safe argument vectors\<close>

text \<open>The options the program itself passes to each tool.\<close>

fun options :: "bin \<Rightarrow> string list" where
  "options FFmpegBin =
     [''-hide_banner'', ''-nostdin'', ''-y'', ''-i'', ''-progress'', ''-nostats'', ''-c:v'', ''-cpu-used'', ''-row-mt'', ''-preset'',
      ''-crf'', ''-b:v'', ''-pass'', ''-passlogfile'', ''-vf'', ''-r'', ''-an'', ''-f'', ''-c:a'', ''-b:a'', ''-map_metadata'', ''-1'',
      ''-movflags'', ''-ss'', ''-t'', ''-c'', ''-avoid_negative_ts'', ''-pix_fmt'']"
| "options FFprobeBin = [''-v'', ''-show_entries'', ''-of'']"
| "options MagickBin =
     [''-limit'', ''-auto-orient'', ''-resize'', ''-strip'', ''-quality'', ''-define'', ''-layers'', ''-colorspace'', ''-normalize'',
      ''-auto-threshold'', ''-negate'']"
| "options RsvgBin = [''--format=png'', ''--background-color=none'', ''--keep-aspect-ratio'', ''--width'', ''--height'', ''--output'']"
| "options PotraceBin = [''--svg'', ''--output'']"
| "options YtDlpBin =
     [''--no-playlist'', ''--no-warnings'', ''--newline'', ''--progress'', ''--no-part'', ''--restrict-filenames'', ''--write-info-json'',
      ''-o'', ''-J'', ''--no-download'', ''-x'', ''--audio-format'', ''--audio-quality'', ''-f'', ''--merge-output-format'', ''--embed-subs'', ''--embed-thumbnail'',
      ''--embed-metadata'']"

text \<open>An argument before the end-of-options mark is one of those options, or does not look like an option.\<close>

definition safe_arg :: "bin \<Rightarrow> string \<Rightarrow> bool" where
  "safe_arg b a \<longleftrightarrow> a \<in> set (options b) \<or> \<not> HasPrefix a ''-''"

definition safe_argv :: "bin \<Rightarrow> string list \<Rightarrow> bool" where
  "safe_argv b args \<longleftrightarrow> list_all (safe_arg b) (takeWhile (\<lambda>a. a \<noteq> ''--'') args)"

fun safe_event :: "event \<Rightarrow> bool" where
  "safe_event (Ran b args) = safe_argv b args"
| "safe_event (Emitted p) = True"

lemma HasPrefix_dash: "HasPrefix s ''-'' \<longleftrightarrow> s \<noteq> [] \<and> hd s = CHR ''-''"
  by (cases s) (auto simp: HasPrefix_def)

lemma safe_plain: "s = [] \<or> hd s \<noteq> CHR ''-'' \<Longrightarrow> safe_arg b s"
  by (auto simp: safe_arg_def HasPrefix_dash)

lemma safe_option: "a \<in> set (options b) \<Longrightarrow> safe_arg b a"
  by (simp add: safe_arg_def)

lemma safe_argv_all: "list_all (safe_arg b) args \<Longrightarrow> safe_argv b args"
  by (auto simp: safe_argv_def list_all_iff dest: set_takeWhileD)

lemma safe_argv_marked: "list_all (safe_arg b) args \<Longrightarrow> safe_argv b (args @ ''--'' # rest)"
proof -
  assume a: "list_all (safe_arg b) args"
  have "set (takeWhile (\<lambda>a. a \<noteq> ''--'') (args @ ''--'' # rest)) \<subseteq> set args"
    by (induction args) auto
  with a show ?thesis by (auto simp: safe_argv_def list_all_iff)
qed

lemma hd_Itoa: "0 \<le> n \<Longrightarrow> hd (Itoa n @ s) \<noteq> CHR ''-''"
proof -
  assume "0 \<le> n"
  moreover have "itoa_nat (nat n) \<noteq> []" by (subst itoa_nat.simps) simp
  ultimately show ?thesis using hd_itoa_nat [of "nat n"] by (auto simp: Itoa_def byte_class_defs)
qed

lemma safe_Itoa: "0 \<le> n \<Longrightarrow> safe_arg b (Itoa n @ s)" "0 \<le> n \<Longrightarrow> safe_arg b (Itoa n)"
  using hd_Itoa [of n s] hd_Itoa [of n "[]"] by (auto intro: safe_plain)

text \<open>No value of an option table looks like an option.\<close>

lemma allowed_plain:
  "allowed opts v \<Longrightarrow> list_all (\<lambda>(v, _). v \<noteq> [] \<and> hd v \<noteq> CHR ''-'') opts \<Longrightarrow> safe_arg b (v @ s)"
  by (intro safe_plain) (auto simp: allowed_def list_all_iff split: prod.splits)

lemma table_plain:
  "allowed AudioBitrates v \<Longrightarrow> safe_arg b (v @ s)" "allowed EncodeSpeeds v \<Longrightarrow> safe_arg b v"
  "allowed AudioFormats v \<Longrightarrow> safe_arg b v" "allowed VideoContainers v \<Longrightarrow> safe_arg b v"
  using allowed_plain [of AudioBitrates v b s] allowed_plain [of EncodeSpeeds v b "[]"]
    allowed_plain [of AudioFormats v b "[]"] allowed_plain [of VideoContainers v b "[]"]
  by (simp_all add: AudioBitrates_def EncodeSpeeds_def AudioFormats_def VideoContainers_def)

text \<open>What \<open>ffmpegArgs\<close> needs to know of a specification.\<close>

definition spec_ok :: "encodeSpec \<Rightarrow> bool" where
  "spec_ok s \<longleftrightarrow> allowed EncodeSpeeds (es_Speed s) \<and> (es_VideoCodec s = ''copy'' \<or> 0 \<le> es_CRF s) \<and>
     (es_AudioCodec s \<in> {''none'', ''copy'', ''flac''} \<or> allowed AudioBitrates (es_AudioBitrate s)) \<and>
     0 \<le> es_VideoKbps s \<and> 0 \<le> es_Pass s \<and> (es_PassLog s = '''' \<or> hd (es_PassLog s) \<noteq> CHR ''-'')"

lemma safe_ffmpegArgs:
  assumes "spec_ok s" and "hd input = CHR ''/''" and "input \<noteq> []" and "hd output = CHR ''/''" and "output \<noteq> []"
  shows "safe_argv FFmpegBin (ffmpegArgs input output s)"
proof (rule safe_argv_all)
  have nums: "list_all (safe_arg FFmpegBin) (number_args v ''-vf'' ''scale=-2:'')"
      "list_all (safe_arg FFmpegBin) (number_args v ''-r'' '''')" for v
    by (auto simp: number_args_def safe_option intro: safe_plain safe_Itoa split: option.splits)
  have enc: "safe_arg FFmpegBin (lookup_str videoEncoders v)" for v
    by (rule safe_plain) (simp add: lookup_str_def videoEncoders_def)
  have tab: "0 \<le> lookup_int vp9CPUUsed v" "0 \<le> lookup_int svtAV1Preset v" for v
    by (simp_all add: lookup_int_def vp9CPUUsed_def svtAV1Preset_def)
  have digit: "safe_arg FFmpegBin ''0''" "safe_arg FFmpegBin ''1''" by (rule safe_plain; simp)+
  have s: "allowed EncodeSpeeds (es_Speed s)" "es_VideoCodec s = ''copy'' \<or> 0 \<le> es_CRF s"
      "es_AudioCodec s \<in> {''none'', ''copy'', ''flac''} \<or> allowed AudioBitrates (es_AudioBitrate s)"
      "0 \<le> es_VideoKbps s" "0 \<le> es_Pass s" "es_PassLog s = '''' \<or> hd (es_PassLog s) \<noteq> CHR ''-''"
    using assms(1) by (simp_all add: spec_ok_def)
  have num: "safe_arg FFmpegBin (Itoa (es_VideoKbps s) @ x)" "safe_arg FFmpegBin (Itoa (es_Pass s))" "safe_arg FFmpegBin (es_PassLog s)"
      "safe_arg FFmpegBin (es_Speed s)" for x
    using safe_Itoa(1) [OF s(4)] safe_Itoa(2) [OF s(5)] safe_plain [OF s(6)] table_plain(2) [OF s(1)] by blast+
  have crf: "safe_arg FFmpegBin (Itoa (es_CRF s))" if "es_VideoCodec s \<noteq> ''copy''"
    using s(2) that safe_Itoa(2) by blast
  have bitrate: "es_AudioCodec s \<in> {''none'', ''copy'', ''flac''} \<or> safe_arg FFmpegBin (es_AudioBitrate s @ x)" for x
    using s(3) table_plain(1) by blast
  have speed: "list_all (safe_arg FFmpegBin) (speed_args e s)" for e
    using tab num digit by (simp add: speed_args_def safe_option safe_Itoa)
  have rate: "list_all (safe_arg FFmpegBin) (rateControl e s)" if "es_VideoCodec s \<noteq> ''copy''" for e
    using num digit crf [OF that] by (simp add: rateControl_def safe_option)
  have audio: "list_all (safe_arg FFmpegBin) (audio_args s)"
  proof -
    have "safe_arg FFmpegBin ''copy''" "safe_arg FFmpegBin ''flac''" "safe_arg FFmpegBin ''aac''" "safe_arg FFmpegBin ''libopus''"
        "safe_arg FFmpegBin ''libmp3lame''" by (rule safe_plain; simp)+
    note codecs = this
    consider "es_AudioCodec s = ''none''" | "es_AudioCodec s = ''copy''" | "es_AudioCodec s = ''flac''"
      | "safe_arg FFmpegBin (es_AudioBitrate s @ ''k'')"
      using bitrate [of "''k''"] by auto
    then show ?thesis by cases (simp_all add: audio_args_def safe_option codecs)
  qed
  have copy: "lookup_str videoEncoders ''copy'' = ''copy''" by (simp add: lookup_str_def videoEncoders_def)
  have io: "safe_arg FFmpegBin input" "safe_arg FFmpegBin output" using assms by (auto intro: safe_plain)
  have lit: "safe_arg FFmpegBin a" if "a \<in> {''pipe:1'', ''null'', ''+faststart'', ''libx264'', ''copy''}" for a
    using that by (auto intro: safe_plain)
  show "list_all (safe_arg FFmpegBin) (ffmpegArgs input output s)"
    using nums speed rate audio io lit enc [of "es_VideoCodec s"] copy
    by (cases "es_VideoCodec s = ''copy''") (simp_all add: ffmpegArgs_def Let_def safe_option)
qed

definition abs_path :: "string \<Rightarrow> bool" where
  "abs_path p \<longleftrightarrow> p \<noteq> '''' \<and> hd p = CHR ''/''"

lemma safe_abs [intro]: "abs_path p \<Longrightarrow> safe_arg b p"
  by (rule safe_plain) (auto simp: abs_path_def)

lemma abs_append [intro]: "abs_path p \<Longrightarrow> abs_path (p @ s)"
  by (auto simp: abs_path_def)

lemma Clean_abs: "abs_path p \<Longrightarrow> abs_path (Clean p)"
  by (cases p) (auto simp: Clean_def IsAbs_def HasPrefix_def abs_path_def Let_def)

lemma Join_abs: "abs_path d \<Longrightarrow> abs_path (Join (d # es) sep)"
  by (cases es) auto

lemma Join_path_abs: "abs_path d \<Longrightarrow> abs_path (Join_path (d # es))"
proof -
  assume d: "abs_path d"
  then have "d \<noteq> ''''" by (auto simp: abs_path_def)
  then show ?thesis using Clean_abs [OF Join_abs [OF d]] by (simp add: Join_path_def Let_def)
qed

lemma tmp_name_abs: "abs_path (re_tmp env) \<Longrightarrow> abs_path (tmp_name env k j s)"
  unfolding tmp_name_def by (rule Join_path_abs)

lemma compress_crf_nonneg: "0 \<le> CompressCRFFor p"
proof (cases "lookup2 CompressCRF (cm_Target p) (cm_VideoCodec p)")
  case (Some n)
  with compress_crf [OF Some] show ?thesis
    by (auto simp: CompressCRFFor_def in_bounds_def CRFBounds_def split: if_splits)
qed (simp add: CompressCRFFor_def)

lemma specFor_ok:
  assumes "specFor t raw = Inr s" shows "spec_ok s"
proof -
  have crf: "0 \<le> n" if "in_bounds c n" for c n
    using that by (auto simp: in_bounds_def CRFBounds_def split: option.splits if_splits)
  show ?thesis
  proof (cases t)
    case TypeConvert
    with assms obtain p where p: "params_ok (PConvert p)" and s: "s = \<lparr>es_Container = cv_Container p, es_VideoCodec = cv_VideoCodec p,
        es_Speed = fst (Resolved p), es_CRF = snd (Resolved p), es_Resolution = cv_Resolution p, es_FrameRate = cv_FrameRate p,
        es_AudioCodec = cv_AudioCodec p, es_AudioBitrate = cv_AudioBitrate p, es_StripMetadata = cv_StripMetadata p,
        es_Stage = ''converting'', es_TargetMB = 0, es_VideoKbps = 0, es_Pass = 0, es_PassLog = ''''\<rparr>"
      by (auto simp: ParseConvert_Inr simp del: params_ok.simps folded_fields split: sum.splits dest: convert_params_ok)
    from p show ?thesis unfolding spec_ok_def s by (auto dest: crf)
  next
    case TypeCompress
    with assms obtain p where p: "params_ok (PCompress p)" and s: "es_Speed s = cm_Speed p" "es_CRF s = CompressCRFFor p"
        "es_AudioBitrate s = cm_AudioBitrate p" "es_VideoKbps s = 0" "es_Pass s = 0" "es_PassLog s = ''''"
      by (auto simp: ParseCompress_def params_ok_iff simp del: params_ok.simps split: sum.splits)
    from p show ?thesis unfolding spec_ok_def s by (auto simp: compress_crf_nonneg)
  qed (use assms in auto)
qed

lemma seconds_plain: "0 \<le> v \<Longrightarrow> safe_arg b (seconds v)"
proof (rule safe_plain)
  assume "0 \<le> v"
  moreover have "itoa_nat n \<noteq> []" "hd (itoa_nat n) \<noteq> CHR ''-''" for n
    using hd_itoa_nat [of n] by (auto simp: byte_class_defs)
  ultimately show "seconds v = [] \<or> hd (seconds v) \<noteq> CHR ''-''" by (simp add: seconds_def Let_def)
qed

lemma safe_editArgs:
  assumes "abs_path input" "abs_path output" and "0 \<le> ed_Start p"
  shows "safe_argv FFmpegBin (editArgs input output p copyOnly)"
proof (rule safe_argv_all)
  have "safe_arg FFmpegBin a" if "a \<in> {''pipe:1'', ''copy'', ''make_zero'', ''libx264'', ''veryfast'', ''18'', ''yuv420p'', ''+faststart''}" for a
    using that by (auto intro: safe_plain)
  moreover have "safe_arg FFmpegBin (CHR ''c'' # s)" for s by (rule safe_plain) simp
  ultimately show "list_all (safe_arg FFmpegBin) (editArgs input output p copyOnly)"
    using assms by (simp add: editArgs_def safe_option safe_abs seconds_plain)
qed

lemma safe_resize: "safe_arg b (resizeGeometry w h)" "safe_arg b (TrimSuffix (resizeGeometry w h) ''>'')"
proof -
  have g: "resizeGeometry w h = '''' \<or> (\<exists>g. resizeGeometry w h = g @ ''>'' \<and> g \<noteq> '''' \<and> hd g \<noteq> CHR ''-'')"
  proof (cases "w > 0")
    case True
    then have "Itoa w \<noteq> ''''" by (auto simp: Itoa_def)
    with True hd_Itoa [of w] show ?thesis by (auto simp: resizeGeometry_def)
  qed (auto simp: resizeGeometry_def)
  then show "safe_arg b (resizeGeometry w h)" by (auto intro!: safe_plain)
  from g show "safe_arg b (TrimSuffix (resizeGeometry w h) ''>'')"
    by (auto simp: TrimSuffix_def HasSuffix_def intro!: safe_plain)
qed

lemma safe_literal: "s \<noteq> [] \<Longrightarrow> hd s \<noteq> CHR ''-'' \<Longrightarrow> safe_arg b s"
  by (rule safe_plain) simp

lemma safe_limits: "list_all (safe_arg MagickBin) magick_limits"
  unfolding magick_limits_def list.pred_inject by (intro conjI TrueI; (rule safe_option safe_literal; simp; fail)?) simp_all

lemma safe_format_args: "list_all (safe_arg MagickBin) (format_args format p)"
proof -
  have "safe_arg MagickBin a" if "a \<in> {''png:compression-level=9'', ''optimize'', ''gray'', ''OTSU''}" for a
    using that by (auto intro: safe_plain)
  then show ?thesis by (simp add: format_args_def safe_option safe_Itoa)
qed

lemma safe_magickArgs:
  assumes "abs_path input" "abs_path output"
  shows "safe_argv MagickBin (magickArgs input output format p exact)"
proof (rule safe_argv_all)
  show "list_all (safe_arg MagickBin) (magickArgs input output format p exact)"
    using assms safe_resize safe_limits safe_format_args by (simp add: magickArgs_def Let_def safe_option safe_abs)
qed

lemma safe_rsvgArgs:
  assumes "abs_path output"
  shows "safe_argv RsvgBin (rsvgArgs input output p)"
proof -
  let ?pre = "[''--format=png'', ''--background-color=none'', ''--keep-aspect-ratio''] @
     (if im_Width p > 0 then [''--width'', Itoa (im_Width p)] else []) @
     (if im_Height p > 0 then [''--height'', Itoa (im_Height p)] else []) @ [''--output'', output]"
  have "list_all (safe_arg RsvgBin) ?pre" using assms by (simp add: safe_option safe_abs safe_Itoa)
  from safe_argv_marked [OF this, of "[input]"] show ?thesis by (simp add: rsvgArgs_def)
qed

lemma safe_potraceArgs: "abs_path output \<Longrightarrow> safe_argv PotraceBin (potraceArgs output input)"
  using safe_argv_marked [of PotraceBin "[''--svg'', ''--output'', output]" "[input]"]
  by (simp add: potraceArgs_def safe_option safe_abs)

lemma safe_probeArgs: "safe_argv FFprobeBin (probeArgs input)"
  using safe_argv_marked [of FFprobeBin "[''-v'', ''error'', ''-show_entries'', ''format=duration'', ''-of'', ''default=nw=1:nk=1'']" "[input]"]
  by (simp add: probeArgs_def safe_arg_def HasPrefix_dash)

lemma format_id_plain: "format_id a \<Longrightarrow> a \<noteq> [] \<and> hd a \<noteq> CHR ''-''"
  by (auto simp: format_id_def byte_class_defs)

lemma formatIDRe_plain: "formatIDRe s \<Longrightarrow> s \<noteq> [] \<and> hd s \<noteq> CHR ''-''"
proof -
  assume s: "formatIDRe s"
  then obtain a rest where a: "Split s CHR ''+'' = a # rest" "format_id a"
    by (auto simp: formatIDRe_def split: list.splits)
  then have "\<exists>r. s = a @ r" using Join_Split [of s "CHR ''+''"] by (cases rest) auto
  with format_id_plain [OF a(2)] show ?thesis by (auto simp: hd_append)
qed

lemma safe_selector: "i = '''' \<or> formatIDRe i \<Longrightarrow> safe_arg b (videoFormatSelector i)"
  using formatIDRe_plain [of i] by (intro safe_plain) (auto simp: videoFormatSelector_def hd_append)

lemma safe_ytDlpArgs:
  assumes "params_ok (PDownload p)" and "abs_path tmpl"
  shows "safe_argv YtDlpBin (ytDlpArgs p tmpl url)"
proof -
  have "list_all (safe_arg YtDlpBin) (butlast (butlast (ytDlpArgs p tmpl url)))"
    using assms safe_selector table_plain
    by (auto simp: ytDlpArgs_def butlast_append safe_option)
  from safe_argv_marked [OF this, of "[url]"] show ?thesis by (simp add: ytDlpArgs_def butlast_append)
qed

lemma ParseEdit_ok: "ParseEdit h raw d = Inr q \<Longrightarrow> params_ok (PEdit q)"
  unfolding ParseEdit_Inr params_ok_iff by (metis checkCrop_sound edit_checks_frame)

lemma ParseDownload_ok: "ParseDownload raw d = Inr p \<Longrightarrow> params_ok (PDownload p)"
  unfolding params_ok_iff by (auto simp: ParseDownload_def split: sum.splits)

subsection \<open>Safe runs\<close>

text \<open>A run is safe when every command it starts is.\<close>

definition safe_run :: "'a run \<Rightarrow> bool" where
  "safe_run m \<longleftrightarrow> (\<forall>w. \<exists>t. w_trace (snd (m w)) = w_trace w @ t \<and> list_all safe_event t)"

lemma safe_runI: "(\<And>w. \<exists>t. w_trace (snd (m w)) = w_trace w @ t \<and> list_all safe_event t) \<Longrightarrow> safe_run m"
  by (simp add: safe_run_def)

lemma safe_run_at: "(\<And>x. safe_run (g x)) \<Longrightarrow> safe_run (\<lambda>w. g w w)"
  by (simp add: safe_run_def)

lemma safe_return [simp]: "safe_run (return_run a)"
  by (simp add: safe_run_def return_run_def)

lemma safe_fail [simp]: "safe_run (fail_run e)"
  by (simp add: safe_run_def fail_run_def)

lemma safe_emit [simp]: "safe_run (emit p)"
  by (simp add: safe_run_def emit_def)

lemma safe_bind [intro]: "safe_run m \<Longrightarrow> (\<And>a. safe_run (f a)) \<Longrightarrow> safe_run (bind_run m f)"
proof (rule safe_runI)
  fix w
  assume m: "safe_run m" and f: "\<And>a. safe_run (f a)"
  obtain r w' where w': "m w = (r, w')" by fastforce
  with m obtain t where t: "w_trace w' = w_trace w @ t" "list_all safe_event t" by (metis safe_run_def snd_conv)
  show "\<exists>t. w_trace (snd (bind_run m f w)) = w_trace w @ t \<and> list_all safe_event t"
  proof (cases r)
    case (Inr a)
    obtain u where "w_trace (snd (f a w')) = w_trace w' @ u" "list_all safe_event u" using f [of a] by (auto simp: safe_run_def)
    with t show ?thesis by (intro exI [of _ "t @ u"]) (simp add: bind_run_def w' Inr)
  qed (use t in \<open>simp add: bind_run_def w'\<close>)
qed

lemma safe_then [intro]: "safe_run m \<Longrightarrow> safe_run k \<Longrightarrow> safe_run (then_run m k)"
  by (simp add: then_run_def safe_bind)

lemma safe_require [intro]: "safe_run k \<Longrightarrow> safe_run (require b e k)"
  by (simp add: require_def)

lemma safe_lift [intro]: "(\<And>a. r = Inr a \<Longrightarrow> safe_run (k a)) \<Longrightarrow> safe_run (lift_run err r k)"
  by (cases r) (simp_all add: lift_run_def)

lemma safe_deferred [intro]: "safe_run m \<Longrightarrow> safe_run (deferred f m)"
  by (simp add: safe_run_def deferred_def case_prod_unfold)

lemma safe_exec [intro]: "safe_argv b args \<Longrightarrow> safe_run (exec_run env b args mode report)"
  by (simp add: safe_run_def exec_run_def case_prod_unfold list_all_iff)

lemma safe_silent [intro]: "safe_argv b args \<Longrightarrow> safe_run (run_silently env b args)"
  unfolding run_silently_def by auto

lemma safe_encode [intro]: "safe_argv FFmpegBin args \<Longrightarrow> safe_run (encode env args prog)"
  unfolding encode_def by auto

lemma safe_move [simp]: "safe_run (move_result env src dst)"
  by (simp add: safe_run_def move_result_def case_prod_unfold)

lemma safe_wrap [simp]: "safe_run (wrap_result env src dst)"
  by (simp add: safe_run_def wrap_result_def case_prod_unfold)

lemma safe_require_output [simp]: "safe_run (require_output env path)"
  unfolding require_output_def [abs_def] by (rule safe_run_at) (simp add: safe_require)

lemma safe_deliver [simp]: "safe_run (deliver env j names ext title src)"
  unfolding deliver_def [abs_def] Let_def by (rule safe_run_at) (simp add: safe_then)

lemma safe_collect [simp]: "safe_run (collect_run env dir)"
  unfolding collect_run_def [abs_def] by (rule safe_run_at) (simp add: safe_lift)

lemma safe_with_input:
  assumes "abs_path (absPath env (j_InputPath j))" and "\<And>i. abs_path i \<Longrightarrow> safe_run (k i)"
  shows "safe_run (with_input env j k)"
proof (rule safe_runI)
  fix w
  have "\<exists>t. w_trace (snd (m w)) = w_trace w @ t \<and> list_all safe_event t" if "safe_run m" for m :: "Result run"
    using that by (simp add: safe_run_def)
  note run = this [OF assms(2) [OF assms(1)]] this [OF safe_fail]
  show "\<exists>t. w_trace (snd (with_input env j k w)) = w_trace w @ t \<and> list_all safe_event t"
    by (simp add: with_input_def Let_def run)
qed

lemma safe_probe:
  assumes "\<And>d. safe_run (k d)"
  shows "safe_run (probeDuration env input k)"
proof (rule safe_runI)
  fix w
  obtain r w' where e: "exec_run env FFprobeBin (probeArgs input) ToWriter silent w = (r, w')" by fastforce
  have "safe_run (exec_run env FFprobeBin (probeArgs input) ToWriter silent)" by (rule safe_exec [OF safe_probeArgs])
  with e obtain t where t: "w_trace w' = w_trace w @ t" "list_all safe_event t" by (metis safe_run_def snd_conv)
  have "\<exists>t. w_trace (snd (k d w')) = w_trace w @ t \<and> list_all safe_event t" for d
  proof -
    obtain u where "w_trace (snd (k d w')) = w_trace w' @ u" "list_all safe_event u" using assms [of d] by (auto simp: safe_run_def)
    with t show ?thesis by (intro exI [of _ "t @ u"]) simp
  qed
  then show "\<exists>t. w_trace (snd (probeDuration env input k w)) = w_trace w @ t \<and> list_all safe_event t"
    by (simp add: probeDuration_def e split: sum.splits)
qed

lemma targetVideoKbps_range: "targetVideoKbps m d a = Inr k \<Longrightarrow> 100 \<le> k \<and> k \<le> 500000"
  by (auto simp: targetVideoKbps_def minVideoKbps_def maxVideoKbps_def Let_def split: if_splits)

lemma safe_ffmpeg_argv:
  "spec_ok s \<Longrightarrow> abs_path input \<Longrightarrow> abs_path output \<Longrightarrow> safe_argv FFmpegBin (ffmpegArgs input output s)"
  by (rule safe_ffmpegArgs) (auto simp: abs_path_def)

lemma safe_passes:
  assumes "spec_ok s" "abs_path input" "abs_path output" and tmp: "abs_path (re_tmp env)"
  shows "safe_run (runOnePass env input output s d)"
    and "safe_run (runTwoPass env j input output s d)"
proof -
  show "safe_run (runOnePass env input output s d)"
    unfolding runOnePass_def using safe_ffmpeg_argv [OF assms(1-3)] by auto
  have "spec_ok (s\<lparr>es_PassLog := Join_path [re_tmp env, pass_log j], es_Pass := n\<rparr>)" if "0 \<le> n" for n
    using assms(1) that Join_path_abs [OF tmp] by (auto simp: spec_ok_def abs_path_def)
  note ok = safe_ffmpeg_argv [OF this assms(2)]
  have "abs_path ''/dev/null''" by (simp add: abs_path_def)
  then show "safe_run (runTwoPass env j input output s d)"
    unfolding runTwoPass_def run_pass_def Let_def using ok assms(3)
    by (intro safe_deferred safe_then safe_encode safe_emit) simp_all
qed

lemma safe_encode_job:
  assumes "spec_ok s" "abs_path input" "abs_path (re_tmp env)"
  shows "safe_run (encode_job env j input s d)"
  unfolding encode_job_def Let_def using safe_passes [OF assms(1,2) tmp_name_abs [OF assms(3)] assms(3)]
  by (intro safe_require safe_deferred safe_then) simp_all

lemma safe_edit:
  assumes "abs_path input" and tmp: "abs_path (re_tmp env)"
  shows "safe_run (runEdit env j raw input)"
proof (cases "ParseEdit (re_h_first env) raw defaultRetentionDays")
  case (Inr p)
  then have "0 \<le> ed_Start p" using ParseEdit_ok [OF Inr] by simp
  note args = safe_editArgs [OF assms(1) tmp_name_abs [OF tmp] this]
  show ?thesis
    using args by (auto simp: runEdit_def Let_def Inr lift_run_def intro!: safe_then safe_probe safe_require safe_deferred split: prod.splits)
qed (simp add: runEdit_def lift_run_def)

lemma video_budget_nonneg: "video_budget s d = Inr n \<Longrightarrow> 0 \<le> n"
  by (auto simp: video_budget_def split: if_splits option.splits sum.splits dest: targetVideoKbps_range)

lemma budgeted_ok: "specFor t raw = Inr s \<Longrightarrow> video_budget s d = Inr n \<Longrightarrow> spec_ok (s\<lparr>es_VideoKbps := n\<rparr>)"
  using specFor_ok [of t raw s] video_budget_nonneg [of s d n] by (simp add: spec_ok_def)

lemma safe_ffmpeg:
  assumes abs: "abs_path (absPath env (j_InputPath j))" and tmp: "abs_path (re_tmp env)"
  shows "safe_run (ffmpeg_Run env j raw)"
  unfolding ffmpeg_Run_def
  by (rule safe_with_input [OF abs])
    (auto simp: safe_edit tmp intro!: safe_lift safe_then safe_probe safe_encode_job budgeted_ok)

lemma render_plan_abs: "abs_path base \<Longrightarrow> abs_path (snd (render_plan format base (base @ s)))"
  by (auto simp: render_plan_def)

lemma safe_finish: "abs_path tmpOut \<Longrightarrow> safe_run (finish_svg env format renderPath tmpOut)"
  by (auto simp: finish_svg_def intro!: safe_then safe_potraceArgs)

lemma safe_image_convert:
  assumes "abs_path base" "abs_path input"
  shows "safe_run (image_convert env j p format base (base @ s) input)"
  using render_plan_abs [OF assms(1), of format s] safe_finish abs_append [OF assms(1)]
  unfolding image_convert_def Let_def case_prod_unfold
  by (intro safe_deferred safe_then safe_silent safe_magickArgs assms(2)) simp_all

lemma safe_image:
  assumes abs: "abs_path (absPath env (j_InputPath j))" and tmp: "abs_path (re_tmp env)"
  shows "safe_run (image_Run env j raw)"
proof -
  note base = tmp_name_abs [OF tmp, of "''img-''" j "''''"]
  show ?thesis
    unfolding image_Run_def Let_def
    by (rule safe_with_input [OF abs])
      (auto simp: base abs_append intro!: safe_lift safe_require safe_deferred safe_then safe_silent safe_rsvgArgs safe_image_convert)
qed

lemma safe_download: "abs_path (re_tmp env) \<Longrightarrow> safe_run (ytdlp_Run env j raw)"
proof -
  assume "abs_path (re_tmp env)"
  then have "abs_path (Join_path [tmp_name env ''dl-'' j '''', s])" for s by (intro Join_path_abs tmp_name_abs)
  then show ?thesis
    unfolding ytdlp_Run_def Let_def
    by (intro safe_lift safe_require safe_deferred safe_then safe_emit safe_bind safe_exec safe_ytDlpArgs ParseDownload_ok)
      (simp_all split: prod.splits)
qed

lemma safe_Probe: "safe_run (Probe env rawURL)"
proof -
  have "safe_argv YtDlpBin ([''-J'', ''--no-warnings'', ''--no-playlist'', ''--no-download''] @ ''--'' # [u])" for u
    by (rule safe_argv_marked) (simp add: safe_option)
  then show ?thesis unfolding Probe_def by (intro safe_lift safe_bind safe_exec) (simp_all split: option.splits)
qed

text \<open>What a run does, started on the files \<open>fs\<close>.\<close>

definition trace_of :: "'a run \<Rightarrow> files \<Rightarrow> event list" where
  "trace_of m fs = w_trace (snd (m \<lparr>w_files = fs, w_trace = []\<rparr>))"

lemma safe_trace: "safe_run m \<Longrightarrow> list_all safe_event (trace_of m fs)"
  unfolding safe_run_def trace_of_def by (drule spec [of _ "\<lparr>w_files = fs, w_trace = []\<rparr>"]) auto

text \<open>
  C26. No option injection. With an absolute directory for work files and the absolute path of the input, every
  command line the runners execute, for any stored parameters, any source URL and any names, carries before the
  end-of-options mark only options that are in the program's own tables and arguments that do not begin with a
  dash.
\<close>
theorem argv_safe:
  assumes "abs_path (re_tmp env)" and "abs_path (absPath env (j_InputPath j))"
  shows "list_all safe_event (trace_of (ffmpeg_Run env j raw) fs) \<and> list_all safe_event (trace_of (image_Run env j raw) fs) \<and>
    list_all safe_event (trace_of (ytdlp_Run env j raw) fs) \<and> list_all safe_event (trace_of (Probe env rawURL) fs)"
  using assms by (simp add: safe_trace safe_ffmpeg safe_image safe_download safe_Probe)

definition demo_proc :: proc where
  "demo_proc = \<lparr>pr_stdout_err = None, pr_stderr_err = None, pr_start_err = Some ''not found'', pr_stdout = [], pr_stderr = [], pr_exit = None,
     pr_ctx_err = None\<rparr>"

text \<open>A host whose tools do not start.\<close>

definition demo_env :: run_env where
  "demo_env =
     \<lparr>re_tmp = ''/data/tmp'', re_download = ''/data/downloads'', re_bin = (\<lambda>_. ''tool''), re_abs = (\<lambda>p. Some (''/data/uploads/'' @ p)),
      re_is_dir = (\<lambda>_. False), re_mkdir_ok = True, re_tool = (\<lambda>b args fs. (demo_proc, fs)),
      re_weave = (@), re_number = (\<lambda>_. None), re_draw = (\<lambda>_. None),
      re_move = \<lparr>mv_mkdir_ok = True, mv_rename = Renamed, mv_open_ok = True, mv_create_ok = True, mv_copied = None, mv_sync_ok = True,
        mv_close_ok = True, mv_unlink_ok = (\<lambda>_. True)\<rparr>,
      re_svg = \<lparr>sv_open_ok = True, sv_seek_ok = True, sv_create_ok = True, sv_written = None\<rparr>, re_dims = (\<lambda>_. Some (1, 1)),
      re_ReadDir = (\<lambda>_ _. None), re_unmarshal = (\<lambda>_. None), re_parse = (\<lambda>_. None), re_lookup = (\<lambda>_. None), re_h_first = True\<rparr>"

definition demo_image :: Job where
  "demo_image = (new_job TypeImage)\<lparr>j_ID := ''4f2a'', j_InputPath := ''-negate.png'', j_Title := ''--help''\<rparr>"

definition demo_files :: files where
  "demo_files = [''/data/uploads/-negate.png'' \<mapsto> ''png'']"

lemma argv_safe_witness:
  "list_all safe_event (trace_of (image_Run demo_env demo_image None) demo_files) \<and>
   list_ex (\<lambda>v. case v of Ran b args \<Rightarrow> b = MagickBin \<and> ''/data/uploads/-negate.png'' \<in> set args | Emitted _ \<Rightarrow> False)
     (trace_of (image_Run demo_env demo_image None) demo_files)"
proof (rule conjI)
  have "abs_path (re_tmp demo_env)" "abs_path (absPath demo_env (j_InputPath demo_image))"
    by (simp_all add: demo_env_def abs_path_def absPath_def)
  then show "list_all safe_event (trace_of (image_Run demo_env demo_image None) demo_files)"
    by (rule argv_safe [THEN conjunct2, THEN conjunct1])
  show "list_ex (\<lambda>v. case v of Ran b args \<Rightarrow> b = MagickBin \<and> ''/data/uploads/-negate.png'' \<in> set args | Emitted _ \<Rightarrow> False)
     (trace_of (image_Run demo_env demo_image None) demo_files)"
    by code_simp
qed

text \<open>
  Work files are told apart by two characters of the job id only: jobs whose ids begin alike share them.
\<close>

lemma work_path_shared:
  assumes "take tagLen (j_ID a) = take tagLen (j_ID b)" and "tagLen < length (j_ID a)" and "tagLen < length (j_ID b)"
  shows "tmp_name env kind a suffix = tmp_name env kind b suffix"
  using assms by (simp add: tmp_name_def shortID_def)

end
