(* ===== verification/RunFiles.thy ===== *)
theory RunFiles
  imports RunnerSpec "HOL-Library.List_Lexorder" "HOL-Library.Char_ord"
begin

text \<open>
  What a run does to the files. Tools write where their command line says; the runners remove what they made, whatever
  happens, and only the result is left.
\<close>

subsection \<open>Where tools write\<close>

text \<open>The argument after an option.\<close>

fun value_of :: "string \<Rightarrow> string list \<Rightarrow> string option" where
  "value_of opt (a # b # rest) = (if a = opt then Some b else value_of opt (b # rest))"
| "value_of opt args = None"

text \<open>
  The documented outputs: ffmpeg its last argument, and files whose names begin with the base of the pass log; ImageMagick
  its last argument; rsvg-convert and potrace the argument of \<open>--output\<close>; yt-dlp files below the directory of its template.
\<close>

fun writes :: "bin \<Rightarrow> string list \<Rightarrow> string \<Rightarrow> bool" where
  "writes FFmpegBin args p \<longleftrightarrow> p = last args \<and> p \<noteq> ''/dev/null'' \<or>
     (case value_of ''-passlogfile'' args of
        None \<Rightarrow> False | Some base \<Rightarrow> HasPrefix p base \<and> CHR ''/'' \<notin> set (drop (length base) p))"
| "writes FFprobeBin args p \<longleftrightarrow> False"
| "writes MagickBin args p \<longleftrightarrow> p = last args"
| "writes RsvgBin args p \<longleftrightarrow> value_of ''--output'' args = Some p"
| "writes PotraceBin args p \<longleftrightarrow> value_of ''--output'' args = Some p"
| "writes YtDlpBin args p \<longleftrightarrow>
     (case value_of ''-o'' args of
        None \<Rightarrow> False
      | Some tmpl \<Rightarrow> (case LastIndexByte tmpl CHR ''/'' of None \<Rightarrow> False | Some i \<Rightarrow> HasPrefix p (take (Suc i) tmpl)))"

definition tools_confined :: "run_env \<Rightarrow> bool" where
  "tools_confined env \<longleftrightarrow>
     (\<forall>b args fs. finite (dom fs) \<longrightarrow> finite (dom (snd (re_tool env b args fs)))) \<and>
     (\<forall>b args fs p. snd (re_tool env b args fs) p \<noteq> fs p \<longrightarrow> writes b args p)"

text \<open>\<open>ReadDir\<close> gives proper names, and for the directory of work files it lists what is in it.\<close>

definition tmp_listed :: "run_env \<Rightarrow> bool" where
  "tmp_listed env \<longleftrightarrow>
     (\<forall>fs d es. re_ReadDir env fs d = Some es \<longrightarrow> list_all (\<lambda>e. proper_name (we_name e)) es) \<and>
     (\<forall>fs n. finite (dom fs) \<longrightarrow> proper_name n \<longrightarrow> fs (re_tmp env @ ''/'' @ n) \<noteq> None \<longrightarrow>
        (\<exists>es. re_ReadDir env fs (re_tmp env) = Some es \<and> n \<in> we_name ` set es))"

definition tidy_host :: "run_env \<Rightarrow> bool" where
  "tidy_host env \<longleftrightarrow> tools_confined env \<and> tmp_listed env \<and> (\<forall>p. mv_unlink_ok (re_move env) p) \<and>
     rooted_dir (re_tmp env) \<and> rooted_dir (re_download env)"

lemma tidy_hostD:
  assumes "tidy_host env"
  shows "tools_confined env" "tmp_listed env" "mv_unlink_ok (re_move env) p" "rooted_dir (re_tmp env)" "rooted_dir (re_download env)"
  using assms by (simp_all add: tidy_host_def)

subsection \<open>Command lines and their outputs\<close>

lemma value_of_append: "opt \<notin> set as \<Longrightarrow> value_of opt (as @ opt # v # bs) = Some v"
proof (induction as)
  case (Cons a as)
  then show ?case by (cases as) auto
qed simp

lemma value_of_notin: "opt \<notin> set as \<Longrightarrow> value_of opt as = None"
  by (induction opt as rule: value_of.induct) auto

text \<open>A text that no tool takes for an option is not the option of the pass log.\<close>

lemma safe_not_log: "safe_arg PotraceBin a \<Longrightarrow> a \<noteq> ''-passlogfile'' \<and> ''-passlogfile'' \<noteq> a"
  by (auto simp: safe_arg_def HasPrefix_dash)

lemma Itoa_not_log: "0 \<le> n \<Longrightarrow> Itoa n \<noteq> ''-passlogfile''" "0 \<le> n \<Longrightarrow> ''-passlogfile'' \<noteq> Itoa n"
  using safe_Itoa(2) [THEN safe_not_log] by blast+

lemma number_args_log:
  "''-passlogfile'' \<notin> set (number_args v ''-vf'' ''scale=-2:'')" "''-passlogfile'' \<notin> set (number_args v ''-r'' '''')"
proof -
  have "number_args v opt pre = [] \<or> (\<exists>n > 0. number_args v opt pre = [opt, pre @ Itoa n])" for opt pre
    unfolding number_args_def by (cases "Atoi v") auto
  from this [of "''-vf''" "''scale=-2:''"] this [of "''-r''" "''''"]
  show "''-passlogfile'' \<notin> set (number_args v ''-vf'' ''scale=-2:'')" "''-passlogfile'' \<notin> set (number_args v ''-r'' '''')"
    by (auto simp: Itoa_not_log)
qed

lemma encoder_log: "lookup_str videoEncoders v \<noteq> ''-passlogfile''"
  by (simp add: lookup_str_def videoEncoders_def)

lemma speed_args_log: "spec_ok s \<Longrightarrow> ''-passlogfile'' \<notin> set (speed_args e s)"
proof -
  assume "spec_ok s"
  then have "''-passlogfile'' \<noteq> es_Speed s" using table_plain(2) [THEN safe_not_log] by (simp add: spec_ok_def)
  moreover have "0 \<le> lookup_int vp9CPUUsed v" "0 \<le> lookup_int svtAV1Preset v" for v
    by (simp_all add: lookup_int_def vp9CPUUsed_def svtAV1Preset_def)
  ultimately show ?thesis by (simp add: speed_args_def Itoa_not_log)
qed

lemma audio_args_log: "spec_ok s \<Longrightarrow> ''-passlogfile'' \<notin> set (audio_args s)"
proof -
  assume "spec_ok s"
  then consider "es_AudioCodec s = ''none''" | "es_AudioCodec s = ''copy''" | "es_AudioCodec s = ''flac''"
    | "''-passlogfile'' \<noteq> es_AudioBitrate s @ ''k''"
    using table_plain(1) [THEN safe_not_log] by (auto simp: spec_ok_def)
  then show ?thesis by cases (simp_all add: audio_args_def)
qed

lemma last_ffmpegArgs: "last (ffmpegArgs input output s) = output"
  by (simp add: ffmpegArgs_def Let_def)

lemma last_editArgs: "last (editArgs input output p c) = output"
  by (simp add: editArgs_def)

lemma last_magickArgs: "last (magickArgs input output format p e) = output"
  by (simp add: magickArgs_def)

text \<open>The pass log of a command line is the one of the specification, and a single pass has none.\<close>

lemma ffmpeg_log:
  assumes "spec_ok s" and "abs_path input" and "abs_path output"
  shows "value_of ''-passlogfile'' (ffmpegArgs input output s) \<in> (if es_Pass s > 0 then {None, Some (es_PassLog s)} else {None})"
proof -
  define enc where "enc = (if lookup_str videoEncoders (es_VideoCodec s) = '''' then ''libx264'' else lookup_str videoEncoders (es_VideoCodec s))"
  define pre where "pre = [''-hide_banner'', ''-nostdin'', ''-y'', ''-i'', input, ''-progress'', ''pipe:1'', ''-nostats'', ''-c:v'', enc]"
  define nums where "nums = number_args (es_Resolution s) ''-vf'' ''scale=-2:'' @ number_args (es_FrameRate s) ''-r'' ''''"
  define post where "post = (if es_Pass s = 1 then [''-an'', ''-f'', ''null'', output]
      else audio_args s @ (if es_StripMetadata s then [''-map_metadata'', ''-1''] else []) @
        (if es_Container s = ''mp4'' \<or> es_Container s = ''mov'' then [''-movflags'', ''+faststart''] else []) @ [output])"
  have args: "ffmpegArgs input output s = pre @ (if enc \<noteq> ''copy'' then speed_args enc s @ rateControl enc s @ nums else []) @ post"
    by (simp add: ffmpegArgs_def enc_def pre_def nums_def post_def Let_def)
  have io: "''-passlogfile'' \<noteq> input" "''-passlogfile'' \<noteq> output" using assms(2,3) by (auto simp: abs_path_def)
  have pre: "''-passlogfile'' \<notin> set pre" using io(1) encoder_log [symmetric] by (simp add: pre_def enc_def)
  have post: "''-passlogfile'' \<notin> set post" using io(2) audio_args_log [OF assms(1)] by (simp add: post_def)
  have nums: "''-passlogfile'' \<notin> set nums" using number_args_log by (simp add: nums_def)
  note speed = speed_args_log [OF assms(1), of enc]
  show ?thesis
  proof (cases "enc \<noteq> ''copy'' \<and> es_Pass s > 0")
    case True
    have "''-passlogfile'' \<noteq> Itoa (es_VideoKbps s) @ ''k''" "''-passlogfile'' \<noteq> Itoa (es_Pass s)"
      using assms(1) safe_Itoa(1) [THEN safe_not_log] Itoa_not_log by (simp_all add: spec_ok_def)
    then have "''-passlogfile'' \<notin> set (pre @ speed_args enc s @ [''-b:v'', Itoa (es_VideoKbps s) @ ''k'', ''-pass'', Itoa (es_Pass s)])"
      using pre speed by simp
    from value_of_append [OF this, of "es_PassLog s" "nums @ post"] True show ?thesis by (simp add: args rateControl_def)
  next
    case False
    have "''-passlogfile'' \<notin> set (rateControl enc s)" if "enc \<noteq> ''copy''" "\<not> es_Pass s > 0"
    proof -
      have "0 \<le> es_CRF s" using assms(1) that(1) by (auto simp: spec_ok_def enc_def lookup_str_def videoEncoders_def split: if_splits)
      then show ?thesis using that by (simp add: rateControl_def Itoa_not_log)
    qed
    with False have "value_of ''-passlogfile'' (ffmpegArgs input output s) = None"
      unfolding args using pre speed nums post by (intro value_of_notin) auto
    then show ?thesis by simp
  qed
qed

lemma edit_log:
  assumes "abs_path input" "abs_path output" "0 \<le> ed_Start p"
  shows "value_of ''-passlogfile'' (editArgs input output p c) = None"
proof (rule value_of_notin)
  have "''-passlogfile'' \<noteq> seconds v" if "0 \<le> v" for v using seconds_plain [OF that] safe_not_log by blast
  moreover have "''-passlogfile'' \<noteq> input" "''-passlogfile'' \<noteq> output" using assms by (auto simp: abs_path_def)
  ultimately show "''-passlogfile'' \<notin> set (editArgs input output p c)"
    using assms(3) by (simp add: editArgs_def)
qed

lemma rsvg_output: "value_of ''--output'' (rsvgArgs input output p) = Some output"
proof -
  have "''--output'' \<noteq> Itoa n" if "n > 0" for n
    using hd_Itoa [of n "[]"] that by (auto dest: arg_cong [where f = hd])
  then have "''--output'' \<notin> set ([''--format=png'', ''--background-color=none'', ''--keep-aspect-ratio''] @
     (if im_Width p > 0 then [''--width'', Itoa (im_Width p)] else []) @
     (if im_Height p > 0 then [''--height'', Itoa (im_Height p)] else []))"
    by simp
  from value_of_append [OF this, where v = "output" and bs = "[''--'', input]"] show ?thesis by (simp add: rsvgArgs_def)
qed

lemma potrace_output: "value_of ''--output'' (potraceArgs output input) = Some output"
  by (simp add: potraceArgs_def)

lemma ytdlp_template: "value_of ''-o'' (ytDlpArgs p tmpl url) = Some tmpl"
  by (simp add: ytDlpArgs_def)

subsection \<open>Settled files\<close>

text \<open>
  A file is restored when it is as before, or gone from one of the two directories the runners own. \<open>neat env S m\<close>: what
  \<open>m\<close> changes outside \<open>S\<close> is restored. \<open>clean env S m\<close>: the same of a whole run, its result aside.
\<close>

definition restored :: "run_env \<Rightarrow> files \<Rightarrow> files \<Rightarrow> string \<Rightarrow> bool" where
  "restored env fs fs' p \<longleftrightarrow> fs' p = fs p \<or> fs' p = None \<and> (below (re_tmp env) p \<or> below (re_download env) p)"

definition result_at :: "run_env \<Rightarrow> (runner_error, Result) result \<Rightarrow> string \<Rightarrow> bool" where
  "result_at env r p \<longleftrightarrow> (\<exists>res. r = Inr res \<and> p = OutputPath res \<and> below (re_download env) p)"

definition neat :: "run_env \<Rightarrow> string set \<Rightarrow> 'a run \<Rightarrow> bool" where
  "neat env S m \<longleftrightarrow> (\<forall>w. finite (dom (w_files w)) \<longrightarrow> finite (dom (w_files (snd (m w)))) \<and>
     (\<forall>p. p \<notin> S \<longrightarrow> restored env (w_files w) (w_files (snd (m w))) p))"

definition clean :: "run_env \<Rightarrow> string set \<Rightarrow> Result run \<Rightarrow> bool" where
  "clean env S m \<longleftrightarrow> (\<forall>w. finite (dom (w_files w)) \<longrightarrow> finite (dom (w_files (snd (m w)))) \<and>
     (\<forall>p. p \<notin> S \<longrightarrow> restored env (w_files w) (w_files (snd (m w))) p \<or> result_at env (fst (m w)) p))"

text \<open>A deferred removal that takes the files of \<open>D\<close>.\<close>

definition kills :: "run_env \<Rightarrow> string set \<Rightarrow> (files \<Rightarrow> files) \<Rightarrow> bool" where
  "kills env D f \<longleftrightarrow> (\<forall>p \<in> D. below (re_tmp env) p) \<and> (\<forall>fs p. restored env fs (f fs) p) \<and>
     (\<forall>fs. finite (dom fs) \<longrightarrow> (\<forall>p \<in> D. f fs p = None))"

lemma restored_refl [simp]: "restored env fs fs p"
  by (simp add: restored_def)

lemma restored_trans: "restored env f g p \<Longrightarrow> restored env g h p \<Longrightarrow> restored env f h p"
  by (auto simp: restored_def)

lemma restored_finite: "(\<And>p. restored env fs fs' p) \<Longrightarrow> finite (dom fs) \<Longrightarrow> finite (dom fs')"
  by (rule finite_subset [of _ "dom fs"]) (metis domIff restored_def subsetI)

lemma neatD:
  "neat env S m \<Longrightarrow> m w = (r, w') \<Longrightarrow> finite (dom (w_files w)) \<Longrightarrow> finite (dom (w_files w'))"
  "neat env S m \<Longrightarrow> m w = (r, w') \<Longrightarrow> finite (dom (w_files w)) \<Longrightarrow> p \<notin> S \<Longrightarrow> restored env (w_files w) (w_files w') p"
  unfolding neat_def by (metis snd_conv)+

lemma cleanD:
  "clean env S m \<Longrightarrow> m w = (r, w') \<Longrightarrow> finite (dom (w_files w)) \<Longrightarrow> finite (dom (w_files w'))"
  "clean env S m \<Longrightarrow> m w = (r, w') \<Longrightarrow> finite (dom (w_files w)) \<Longrightarrow> p \<notin> S \<Longrightarrow>
    restored env (w_files w) (w_files w') p \<or> result_at env r p"
  unfolding clean_def by (metis fst_conv snd_conv)+

lemma neatI:
  assumes "\<And>w r w'. m w = (r, w') \<Longrightarrow> finite (dom (w_files w)) \<Longrightarrow> finite (dom (w_files w')) \<and>
    (\<forall>p. p \<notin> S \<longrightarrow> restored env (w_files w) (w_files w') p)"
  shows "neat env S m"
  using assms unfolding neat_def by (metis prod.collapse)

lemma cleanI:
  assumes "\<And>w r w'. m w = (r, w') \<Longrightarrow> finite (dom (w_files w)) \<Longrightarrow> finite (dom (w_files w')) \<and>
    (\<forall>p. p \<notin> S \<longrightarrow> restored env (w_files w) (w_files w') p \<or> result_at env r p)"
  shows "clean env S m"
  using assms unfolding clean_def by (metis prod.collapse)

lemma neat_basic [simp]: "neat env S (return_run a)" "neat env S (fail_run e)" "neat env S (emit p)"
  by (simp_all add: neat_def return_run_def fail_run_def emit_def)

lemma clean_basic [simp]: "clean env S (fail_run e)"
  by (simp add: clean_def fail_run_def)

lemma neat_bind:
  assumes "neat env S m" and "\<And>a. neat env S (f a)"
  shows "neat env S (bind_run m f)"
proof (rule neatI)
  fix w r w'
  assume b: "bind_run m f w = (r, w')" and fin: "finite (dom (w_files w))"
  obtain q v where m: "m w = (q, v)" by fastforce
  note mid = neatD [OF assms(1) m fin]
  show "finite (dom (w_files w')) \<and> (\<forall>p. p \<notin> S \<longrightarrow> restored env (w_files w) (w_files w') p)"
  proof (cases q)
    case (Inl e)
    with b mid show ?thesis by (simp add: bind_run_def m)
  next
    case (Inr a)
    with b have f: "f a v = (r, w')" by (simp add: bind_run_def m)
    from neatD [OF assms(2) f mid(1)] restored_trans [OF mid(2)] show ?thesis by blast
  qed
qed

lemma clean_bind:
  assumes "neat env S m" and "\<And>w a w'. m w = (Inr a, w') \<Longrightarrow> clean env S (f a)"
  shows "clean env S (bind_run m f)"
proof (rule cleanI)
  fix w r w'
  assume b: "bind_run m f w = (r, w')" and fin: "finite (dom (w_files w))"
  obtain q v where m: "m w = (q, v)" by fastforce
  note mid = neatD [OF assms(1) m fin]
  show "finite (dom (w_files w')) \<and>
    (\<forall>p. p \<notin> S \<longrightarrow> restored env (w_files w) (w_files w') p \<or> result_at env r p)"
  proof (cases q)
    case (Inl e)
    with b mid show ?thesis by (simp add: bind_run_def m)
  next
    case (Inr a)
    with b have f: "f a v = (r, w')" by (simp add: bind_run_def m)
    from cleanD [OF assms(2) this mid(1)] m Inr restored_trans [OF mid(2)] show ?thesis by blast
  qed
qed

lemma neat_then: "neat env S m \<Longrightarrow> neat env S k \<Longrightarrow> neat env S (then_run m k)"
  unfolding then_run_def by (rule neat_bind)

lemma clean_then: "neat env S m \<Longrightarrow> clean env S k \<Longrightarrow> clean env S (then_run m k)"
  unfolding then_run_def by (rule clean_bind)

lemma clean_require: "clean env S k \<Longrightarrow> clean env S (require b e k)"
  by (simp add: require_def)

lemma clean_lift: "(\<And>a. r = Inr a \<Longrightarrow> clean env S (k a)) \<Longrightarrow> clean env S (lift_run err r k)"
  by (cases r) (simp_all add: lift_run_def)

lemma kills_restored:
  assumes "kills env D f" and "finite (dom fs)"
  shows "p \<in> D \<Longrightarrow> restored env fs0 (f fs) p" and "restored env fs (f fs) p" and "finite (dom (f fs))"
  using assms restored_finite [of env fs "f fs"] by (auto simp: kills_def restored_def)

lemma clean_deferred:
  assumes "kills env D f" and "clean env (S \<union> D) m"
  shows "clean env S (deferred f m)"
proof (rule cleanI)
  fix w r w'
  assume d: "deferred f m w = (r, w')" and fin: "finite (dom (w_files w))"
  obtain v where m: "m w = (r, v)" "w_files w' = f (w_files v)"
    using d by (auto simp: deferred_def split: prod.splits)
  note mid = cleanD [OF assms(2) m(1) fin]
  note end_ = kills_restored [OF assms(1) mid(1)]
  show "finite (dom (w_files w')) \<and>
    (\<forall>p. p \<notin> S \<longrightarrow> restored env (w_files w) (w_files w') p \<or> result_at env r p)"
    unfolding m(2) using mid(2) end_ restored_trans by blast
qed

lemma neat_deferred:
  assumes "kills env D f" and "neat env (S \<union> D) m"
  shows "neat env S (deferred f m)"
proof (rule neatI)
  fix w r w'
  assume d: "deferred f m w = (r, w')" and fin: "finite (dom (w_files w))"
  obtain v where m: "m w = (r, v)" "w_files w' = f (w_files v)"
    using d by (auto simp: deferred_def split: prod.splits)
  note mid = neatD [OF assms(2) m(1) fin]
  note end_ = kills_restored [OF assms(1) mid(1)]
  show "finite (dom (w_files w')) \<and> (\<forall>p. p \<notin> S \<longrightarrow> restored env (w_files w) (w_files w') p)"
    unfolding m(2) using mid(2) end_ restored_trans by blast
qed

lemma clean_id: "clean env S m \<Longrightarrow> clean env S (deferred id m)"
  by (simp add: clean_def deferred_def case_prod_unfold)

subsection \<open>Processes, moves and removals\<close>

lemma neat_exec:
  assumes "tidy_host env" and "\<And>p. writes b args p \<Longrightarrow> p \<in> S"
  shows "neat env S (exec_run env b args mode report)"
proof (rule neatI)
  fix w w' :: world and r
  assume e: "exec_run env b args mode report w = (r, w')" and fin: "finite (dom (w_files w))"
  obtain p fs where t: "re_tool env b args (w_files w) = (p, fs)" by fastforce
  have "w_files w' = (if started mode p then fs else w_files w)"
    using e by (auto simp: exec_run_def t split: prod.splits)
  moreover have "finite (dom fs)" "q \<notin> S \<Longrightarrow> fs q = w_files w q" for q
    using tidy_hostD(1) [OF assms(1)] assms(2) fin t unfolding tools_confined_def by (metis snd_conv)+
  ultimately show "finite (dom (w_files w')) \<and> (\<forall>p. p \<notin> S \<longrightarrow> restored env (w_files w) (w_files w') p)"
    using fin by (simp add: restored_def)
qed

lemma neat_silent: "tidy_host env \<Longrightarrow> (\<And>p. writes b args p \<Longrightarrow> p \<in> S) \<Longrightarrow> neat env S (run_silently env b args)"
  unfolding run_silently_def by (intro neat_bind neat_exec) simp_all

lemma neat_encode: "tidy_host env \<Longrightarrow> (\<And>p. writes FFmpegBin args p \<Longrightarrow> p \<in> S) \<Longrightarrow> neat env S (encode env args prog)"
  unfolding encode_def by (intro neat_bind neat_exec) simp_all

lemma neat_require_output [simp]: "neat env S (require_output env path)"
  by (simp add: neat_def require_output_def require_def return_run_def fail_run_def)

lemma neat_wrap: "dst \<in> S \<Longrightarrow> neat env S (wrap_result env src dst)"
  by (auto simp: neat_def wrap_result_def wrapPNGInSVG_def restored_def split: prod.splits option.splits)

lemma moveFile_finite: "finite (dom fs) \<Longrightarrow> moveFile env src dst fs = (ok, fs') \<Longrightarrow> finite (dom fs')"
  by (auto simp: moveFile_def copyRemove_def unlink_def Let_def split: if_splits option.splits rename_result.splits)

lemma moveFile_frame:
  assumes "moveFile env src dst fs = (ok, fs')" and "\<And>p. mv_unlink_ok env p"
  shows "p \<noteq> dst \<Longrightarrow> fs' p = fs p \<or> p = src \<and> fs' p = None" and "\<not> ok \<Longrightarrow> fs' dst = fs dst \<or> fs' dst = None"
  using assms
  by (auto simp: moveFile_def copyRemove_def unlink_def Let_def split: if_splits option.splits rename_result.splits)

text \<open>Every output path is a direct child of the download directory.\<close>

lemma output_child:
  assumes "rooted_dir dir"
  shows "\<exists>name. proper_name name \<and> uniqueOutputPath used (\<lambda>k. randomTag (draw k)) dir base ext i = dir @ ''/'' @ name"
proof -
  have rnd: "CHR ''/'' \<notin> set (randomTag (draw k))" for k
    using hex_no_slash by (auto simp: randomTag_def split: option.splits dest: in_set_takeD)
  define e where "e = (let x = sanitizeName (TrimPrefix ext ''.'') in if x = ''file'' then '''' else x)"
  have e: "CHR ''/'' \<notin> set e" "CHR ''/'' \<notin> set (sanitizeName (shortID i))"
    using sanitizeName_proper by (auto simp: e_def Let_def proper_name_def)
  have "uniqueOutputPath used (\<lambda>k. randomTag (draw k)) dir base ext i =
      unique_loop used (\<lambda>k. randomTag (draw k)) dir (sanitizeName base) e (sanitizeName (shortID i)) 0 maxNameAttempts"
    by (simp add: uniqueOutputPath_def e_def Let_def)
  moreover obtain name where "proper_name name" "unique_loop used (\<lambda>k. randomTag (draw k)) dir (sanitizeName base) e
      (sanitizeName (shortID i)) 0 maxNameAttempts = Join_path [dir, name]"
    using unique_loop_shape [OF sanitizeName_ok, of e "\<lambda>k. randomTag (draw k)"] e rnd by blast
  ultimately show ?thesis using Join_path_rooted [OF assms, of name] by auto
qed

lemma output_below: "rooted_dir dir \<Longrightarrow> below dir (uniqueOutputPath used (\<lambda>k. randomTag (draw k)) dir base ext i)"
  using output_child [of dir used draw base ext i] by (auto simp: below_def HasPrefix_iff)

lemma clean_deliver:
  assumes host: "tidy_host env" and src: "below (re_tmp env) src"
  shows "clean env S (deliver env j names ext title src)"
proof (rule cleanI)
  fix w w' :: world and r
  let ?dst = "uniqueOutputPath (taken env (w_files w)) (\<lambda>k. randomTag (re_draw env k)) (re_download env) (firstNonEmpty names) ext (j_ID j)"
  assume d: "deliver env j names ext title src w = (r, w')" and fin: "finite (dom (w_files w))"
  obtain ok fs where m: "moveFile (re_move env) src ?dst (w_files w) = (ok, fs)" by fastforce
  note frame = moveFile_frame [OF m tidy_hostD(3) [OF host]]
  have w': "w_files w' = fs" "r = (if ok then Inr \<lparr>OutputPath = ?dst, r_Title = title\<rparr> else Inl NoMove)"
    using d by (auto simp: deliver_def Let_def then_run_def bind_run_def move_result_def m emit_def return_run_def split: if_splits)
  have "below (re_download env) ?dst" by (rule output_below [OF tidy_hostD(5) [OF host]])
  with frame(1) frame(2) src w' have "restored env (w_files w) (w_files w') p \<or> result_at env r p" for p
    by (cases "p = ?dst"; cases ok) (auto simp: restored_def result_at_def)
  with moveFile_finite [OF fin m] w'(1) show "finite (dom (w_files w')) \<and>
    (\<forall>p. p \<notin> S \<longrightarrow> restored env (w_files w) (w_files w') p \<or> result_at env r p)" by blast
qed

subsection \<open>The work files of a job\<close>

lemma tmp_child:
  assumes "tidy_host env" and "CHR ''/'' \<notin> set suffix" and "kind \<in> {''enc-'', ''edit-'', ''img-'', ''dl-'', ''pass-''}"
  shows "tmp_name env kind j suffix = re_tmp env @ ''/'' @ kind @ sanitizeName (shortID (j_ID j)) @ suffix"
proof -
  have "CHR ''/'' \<notin> set (sanitizeName (shortID (j_ID j)))" using sanitizeName_proper by (simp add: proper_name_def)
  then have "proper_name (kind @ sanitizeName (shortID (j_ID j)) @ suffix)" using assms(2,3) by (auto simp: proper_name_def)
  from Join_path_rooted [OF tidy_hostD(4) [OF assms(1)] this] show ?thesis by (simp add: tmp_name_def)
qed

lemma below_append [simp]: "below d (d @ CHR ''/'' # s)"
  by (simp add: below_def HasPrefix_iff)

lemma kills_file: "tidy_host env \<Longrightarrow> below (re_tmp env) p \<Longrightarrow> kills env {p} (remove_file env p)"
  using tidy_hostD(3) [of env] by (auto simp: kills_def restored_def remove_file_def unlink_def)

lemma kills_dir:
  assumes "tidy_host env" and "below (re_tmp env) d"
  shows "kills env {p. p = d \<or> below d p} (remove_all env d)"
proof -
  have "below (re_tmp env) p" if "below d p" for p
    using assms(2) that by (auto simp: below_def HasPrefix_iff)
  then show ?thesis using assms tidy_hostD(3) [OF assms(1)] by (auto simp: kills_def restored_def remove_all_def)
qed

text \<open>The pass logs: the files of the directory whose names begin with the base of the log.\<close>

definition log_files :: "run_env \<Rightarrow> Job \<Rightarrow> string set" where
  "log_files env j = {p. \<exists>s. p = re_tmp env @ ''/'' @ pass_log j @ s \<and> CHR ''/'' \<notin> set s}"

lemma pass_log_name: "CHR ''/'' \<notin> set s \<Longrightarrow> proper_name (pass_log j @ s)"
  using sanitizeName_proper [of "shortID (j_ID j)"] by (auto simp: proper_name_def pass_log_def)

lemma fold_remove:
  assumes "\<And>p. mv_unlink_ok (re_move env) p"
  shows "fold (remove_file env) ps fs = (\<lambda>p. if p \<in> set ps then None else fs p)"
  by (induction ps arbitrary: fs) (auto simp: remove_file_def unlink_def assms fun_eq_iff)

lemma kills_logs:
  assumes "tidy_host env"
  shows "kills env (log_files env j) (remove_logs env (pass_log j))"
proof -
  let ?gone = "\<lambda>fs. set (removePassLogs (re_tmp env) (pass_log j) (map_option (map we_name) (re_ReadDir env fs (re_tmp env))))"
  have "remove_logs env (pass_log j) fs = (\<lambda>p. if p \<in> ?gone fs then None else fs p)" for fs
    unfolding remove_logs_def by (rule fold_remove) (rule tidy_hostD(3) [OF assms])
  moreover have "below (re_tmp env) p" if p: "p \<in> ?gone fs" for p fs
  proof -
    obtain es e where e: "re_ReadDir env fs (re_tmp env) = Some es" "e \<in> set es" "p = Join_path [re_tmp env, we_name e]"
      using p by (cases "re_ReadDir env fs (re_tmp env)") (auto simp: removePassLogs_def)
    then have "proper_name (we_name e)" using tidy_hostD(2) [OF assms] by (auto simp: tmp_listed_def list_all_iff)
    from Join_path_rooted [OF tidy_hostD(4) [OF assms] this] e(3) show ?thesis by simp
  qed
  moreover have "below (re_tmp env) p" if "p \<in> log_files env j" for p using that by (auto simp: log_files_def)
  moreover have "(if p \<in> ?gone fs then None else fs p) = None" if p: "p \<in> log_files env j" and fin: "finite (dom fs)" for p fs
  proof (rule ccontr)
    assume some: "(if p \<in> ?gone fs then None else fs p) \<noteq> None"
    obtain s where s: "p = re_tmp env @ ''/'' @ pass_log j @ s" "CHR ''/'' \<notin> set s" using p by (auto simp: log_files_def)
    note name = pass_log_name [OF s(2)]
    have "fs (re_tmp env @ ''/'' @ pass_log j @ s) \<noteq> None" using some by (auto simp: s(1) split: if_splits)
    with tidy_hostD(2) [OF assms] fin name obtain es e
      where es: "re_ReadDir env fs (re_tmp env) = Some es" "e \<in> set es" "we_name e = pass_log j @ s"
      unfolding tmp_listed_def by (metis imageE)
    have "p = Join_path [re_tmp env, we_name e]" "HasPrefix (we_name e) (pass_log j)"
      using Join_path_rooted [OF tidy_hostD(4) [OF assms] name] by (simp_all add: es(3) s(1) HasPrefix_iff)
    with es(1,2) some show False by (auto simp: removePassLogs_def)
  qed
  ultimately show ?thesis by (simp add: kills_def restored_def)
qed

subsection \<open>The runs\<close>

lemma clean_with_input:
  assumes "abs_path (absPath env (j_InputPath j))" and "\<And>i. abs_path i \<Longrightarrow> clean env S (k i)"
  shows "clean env S (with_input env j k)"
proof -
  have "with_input env j k w = (Inl e, w) \<and> (Inl e, w) = fail_run e w \<or> with_input env j k w = k (absPath env (j_InputPath j)) w"
    if "e = (if TrimSpace (j_InputPath j) = '''' then NoInput
      else if \<not> taken env (w_files w) (absPath env (j_InputPath j)) then InputMissing else InputIsDir)" for w e
    using that by (simp add: with_input_def Let_def fail_run_def)
  then show ?thesis
    using assms(2) [OF assms(1)] unfolding clean_def by (metis fst_conv restored_refl snd_conv)
qed

lemma clean_probe:
  assumes "tidy_host env" and "\<And>d. clean env S (k d)"
  shows "clean env S (probeDuration env input k)"
proof (rule cleanI)
  fix w w' :: world and r
  assume w: "probeDuration env input k w = (r, w')" and fin: "finite (dom (w_files w))"
  obtain q v where e: "exec_run env FFprobeBin (probeArgs input) ToWriter silent w = (q, v)" by fastforce
  have "neat env S (exec_run env FFprobeBin (probeArgs input) ToWriter silent)" by (rule neat_exec [OF assms(1)]) simp
  note mid = neatD [OF this e fin]
  from w e obtain d where "k d v = (r, w')" by (auto simp: probeDuration_def split: sum.splits)
  from cleanD [OF assms(2) this mid(1)] restored_trans [OF mid(2)]
  show "finite (dom (w_files w')) \<and>
    (\<forall>p. p \<notin> S \<longrightarrow> restored env (w_files w) (w_files w') p \<or> result_at env r p)" by blast
qed

lemma neat_one_pass:
  assumes "tidy_host env" "spec_ok s" "es_Pass s = 0" "abs_path input" "abs_path output" "output \<in> S"
  shows "neat env S (runOnePass env input output s d)"
proof -
  have "value_of ''-passlogfile'' (ffmpegArgs input output s) = None" using ffmpeg_log [OF assms(2,4,5)] assms(3) by simp
  then show ?thesis
    unfolding runOnePass_def using assms(6) by (intro neat_then neat_encode assms(1)) (auto simp: last_ffmpegArgs)
qed

lemma neat_two_pass:
  assumes host: "tidy_host env" and s: "spec_ok s" and io: "abs_path input" "abs_path output" "output \<in> S"
  shows "neat env S (runTwoPass env j input output s d)"
proof -
  let ?log = "Join_path [re_tmp env, pass_log j]"
  have log: "?log = re_tmp env @ ''/'' @ pass_log j"
    using Join_path_rooted [OF tidy_hostD(4) [OF host] pass_log_name [of "[]"]] by simp
  have "spec_ok (s\<lparr>es_PassLog := ?log, es_Pass := n\<rparr>)" if "0 \<le> n" for n
  proof -
    have "abs_path ?log"
      using tidy_hostD(4) [OF host] by (auto simp: rooted_dir_def abs_path_def log)
    then show ?thesis using s that by (auto simp: spec_ok_def abs_path_def)
  qed
  note ok = this
  have pass: "neat env (S \<union> log_files env j) (run_pass env input (s\<lparr>es_PassLog := ?log\<rparr>) d n stage base out)"
    if n: "0 \<le> n" and out: "abs_path out" "out = ''/dev/null'' \<or> out \<in> S" for n stage base out
  proof -
    have "p \<in> S \<union> log_files env j"
      if "writes FFmpegBin (ffmpegArgs input out (s\<lparr>es_PassLog := ?log, es_Pass := n\<rparr>)) p" for p
    proof -
      from that consider "p = out" "p \<noteq> ''/dev/null''" | "HasPrefix p ?log" "CHR ''/'' \<notin> set (drop (length ?log) p)"
        using ffmpeg_log [OF ok [OF n] io(1) out(1)] by (auto simp: last_ffmpegArgs split: option.splits if_splits)
      then show ?thesis
      proof cases
        case 2
        then obtain t where "p = ?log @ t" by (auto simp: HasPrefix_iff)
        with 2(2) show ?thesis by (auto simp: log_files_def log)
      qed (use out(2) in simp)
    qed
    then show ?thesis unfolding run_pass_def by (intro neat_then neat_encode host) simp_all
  qed
  have "abs_path ''/dev/null''" by (simp add: abs_path_def)
  then show ?thesis
    unfolding runTwoPass_def Let_def using io
    by (intro neat_deferred [OF kills_logs [OF host]] neat_then pass) simp_all
qed

lemma specFor_pass: "specFor t raw = Inr s \<Longrightarrow> es_Pass s = 0"
  by (cases t) (auto split: sum.splits)

lemma no_slash_name: "CHR ''/'' \<notin> set (sanitizeName s)"
  using sanitizeName_proper by (simp add: proper_name_def)

lemma abs_below: "tidy_host env \<Longrightarrow> below (re_tmp env) p \<Longrightarrow> abs_path p"
  using tidy_hostD(4) [of env] by (auto simp: rooted_dir_def below_def HasPrefix_iff abs_path_def)

lemma clean_encode_job:
  assumes host: "tidy_host env" and s: "spec_ok s" "es_Pass s = 0" and input: "abs_path input"
  shows "clean env {} (encode_job env j input s d)"
proof -
  let ?tmp = "tmp_name env ''enc-'' j (''.'' @ sanitizeName (es_Container s))"
  have below: "below (re_tmp env) ?tmp" using tmp_child [OF host] no_slash_name by simp
  show ?thesis
    unfolding encode_job_def Let_def
    using neat_one_pass [OF host s input abs_below [OF host below]] neat_two_pass [OF host s(1) input abs_below [OF host below]]
    by (intro clean_require clean_deferred [OF kills_file [OF host below]] clean_then clean_deliver host below) simp_all
qed

lemma editPlan_no_slash: "CHR ''/'' \<notin> set (fst (editPlan input))"
  by (simp add: editPlan_def Let_def no_slash_name)

lemma clean_edit:
  assumes host: "tidy_host env" and input: "abs_path input"
  shows "clean env {} (runEdit env j raw input)"
proof (cases "ParseEdit (re_h_first env) raw defaultRetentionDays")
  case (Inr p)
  then have start: "0 \<le> ed_Start p" using ParseEdit_ok [OF Inr] by simp
  obtain container copy where plan: "editPlan input = (container, copy)" by fastforce
  let ?tmp = "tmp_name env ''edit-'' j (''.'' @ container)"
  have below: "below (re_tmp env) ?tmp" using tmp_child [OF host] editPlan_no_slash [of input] by (simp add: plan)
  have args: "writes FFmpegBin (editArgs input ?tmp p copy) q \<Longrightarrow> q = ?tmp" for q
    using edit_log [OF input abs_below [OF host below] start] by (simp add: last_editArgs)
  have "clean env {} (deferred (remove_file env ?tmp) (then_run (emit r) (then_run (encode env (editArgs input ?tmp p copy) f)
      (then_run (require_output env ?tmp) (deliver env j names container '''' ?tmp)))))" for r f names
    using args by (intro clean_deferred [OF kills_file [OF host below]] clean_then neat_encode clean_deliver host below) auto
  then show ?thesis
    unfolding runEdit_def Let_def Inr lift_run_def plan
    by (auto intro!: clean_then clean_probe [OF host] clean_require)
qed (simp add: runEdit_def lift_run_def)

lemma clean_ffmpeg:
  assumes "tidy_host env" and "abs_path (absPath env (j_InputPath j))"
  shows "clean env {} (ffmpeg_Run env j raw)"
  unfolding ffmpeg_Run_def
  by (rule clean_with_input [OF assms(2)])
    (auto simp: assms(1) specFor_pass intro!: clean_edit clean_lift clean_then clean_probe clean_encode_job budgeted_ok)

lemma clean_image_convert:
  assumes host: "tidy_host env" and base: "base = tmp_name env ''img-'' j ''''" and tmpOut: "tmpOut \<in> S" "below (re_tmp env) tmpOut"
  shows "clean env S (image_convert env j p format base tmpOut input)"
proof -
  obtain f r where plan: "render_plan format base tmpOut = (f, r)" by fastforce
  then have "r = tmpOut \<or> below (re_tmp env) r"
    using tmp_child [OF host, of "[]"] by (auto simp: render_plan_def base split: if_splits)
  then have r: "below (re_tmp env) r" using tmpOut(2) by auto
  have svg: "neat env T (finish_svg env format r tmpOut)" if "tmpOut \<in> T" for T
    using that unfolding finish_svg_def
    by (auto intro!: neat_wrap neat_then neat_silent host simp: potrace_output)
  have body: "clean env T (then_run (emit q) (then_run (run_silently env MagickBin (magickArgs input r f p e))
      (then_run (require_output env r) (then_run (finish_svg env format r tmpOut)
        (deliver env j names ext '''' tmpOut)))))" if "r \<in> T" "tmpOut \<in> T" for T q e names ext
    using that by (intro clean_then neat_silent svg clean_deliver host tmpOut(2)) (auto simp: last_magickArgs)
  show ?thesis
  proof (cases "r = tmpOut")
    case True
    then show ?thesis unfolding image_convert_def Let_def plan using body [of S] tmpOut(1) by (simp add: clean_id)
  next
    case False
    then show ?thesis
      unfolding image_convert_def Let_def plan using body [of "S \<union> {r}"] tmpOut(1)
      by (simp add: clean_deferred [OF kills_file [OF host r]])
  qed
qed

lemma clean_image:
  assumes host: "tidy_host env" and abs: "abs_path (absPath env (j_InputPath j))"
  shows "clean env {} (image_Run env j raw)"
proof -
  let ?base = "tmp_name env ''img-'' j ''''"
  have below: "below (re_tmp env) (?base @ ''.'' @ sanitizeName x)" "below (re_tmp env) (?base @ ''-src.png'')" for x
    using tmp_child [OF host, of "[]"] by simp_all
  show ?thesis
    unfolding image_Run_def Let_def
    by (rule clean_with_input [OF abs])
      (auto intro!: clean_lift clean_require clean_deferred [OF kills_file [OF host below(1)]] clean_deferred [OF kills_file [OF host below(2)]]
        clean_then neat_silent clean_image_convert host below simp: rsvg_output simp del: append.simps)
qed

lemma collect_entry_inv:
  assumes "collect_entry titles dir e acc = (t, f, n)" and "fst (snd acc) = '''' \<or> (\<exists>e \<in> E. fst (snd acc) = Join_path [dir, we_name e])"
  shows "f = '''' \<or> (\<exists>e' \<in> insert e E. f = Join_path [dir, we_name e'])"
  using assms by (cases acc) (auto simp: collect_entry_def Let_def split: if_splits option.splits)

lemma collect_child:
  assumes "collectDownload titles dir es = Inr (t, f)"
  shows "\<exists>xs. es = Some xs \<and> (\<exists>e \<in> set xs. f = Join_path [dir, we_name e])"
proof -
  have fold: "fst (snd (fold (collect_entry titles dir) xs acc)) = '''' \<or>
      (\<exists>e \<in> set xs \<union> E. fst (snd (fold (collect_entry titles dir) xs acc)) = Join_path [dir, we_name e])"
    if "fst (snd acc) = '''' \<or> (\<exists>e \<in> E. fst (snd acc) = Join_path [dir, we_name e])" for xs acc E
    using that
  proof (induction xs arbitrary: acc E)
    case (Cons x xs)
    obtain t f n where e: "collect_entry titles dir x acc = (t, f, n)" by (cases "collect_entry titles dir x acc")
    from Cons.IH [of "(t, f, n)" "insert x E"] collect_entry_inv [OF e Cons.prems] show ?case by (simp add: e)
  qed simp
  obtain xs where xs: "es = Some xs" using assms by (auto simp: collectDownload_def split: option.splits)
  with assms fold [of "('''', '''', - 1)" "{}" xs] show ?thesis
    by (auto simp: collectDownload_def split: prod.splits if_splits)
qed

lemma download_dir:
  assumes host: "tidy_host env"
  shows "tmp_name env ''dl-'' j '''' = re_tmp env @ ''/'' @ ''dl-'' @ sanitizeName (shortID (j_ID j))"
    and "rooted_dir (tmp_name env ''dl-'' j '''')" and "below (re_tmp env) (tmp_name env ''dl-'' j '''')"
proof -
  show dir: "tmp_name env ''dl-'' j '''' = re_tmp env @ ''/'' @ ''dl-'' @ sanitizeName (shortID (j_ID j))"
    using tmp_child [OF host, of "[]"] by simp
  have name: "proper_name (''dl-'' @ sanitizeName (shortID (j_ID j)))" using no_slash_name by (simp add: proper_name_def)
  obtain es where es: "es \<noteq> []" "list_all proper_name es" "re_tmp env = ''/'' @ Join es ''/''"
    using tidy_hostD(4) [OF host] by (auto simp: rooted_dir_def)
  have "tmp_name env ''dl-'' j '''' = ''/'' @ Join (es @ [''dl-'' @ sanitizeName (shortID (j_ID j))]) ''/''"
    unfolding dir es(3) Join_snoc [OF es(1)] by simp
  with es(2) name show "rooted_dir (tmp_name env ''dl-'' j '''')"
    unfolding rooted_dir_def by (intro exI [of _ "es @ [''dl-'' @ sanitizeName (shortID (j_ID j))]"]) simp
  show "below (re_tmp env) (tmp_name env ''dl-'' j '''')" unfolding dir by simp
qed

lemma collect_below:
  assumes host: "tidy_host env" and "collect_run env (tmp_name env ''dl-'' j '''') w = (Inr (t, f), w')"
  shows "below (re_tmp env) f"
proof -
  let ?dir = "tmp_name env ''dl-'' j ''''"
  have "collectDownload (readInfoJSONTitle env (w_files w)) ?dir (re_ReadDir env (w_files w) ?dir) = Inr (t, f)"
    using assms(2) by (auto simp: collect_run_def lift_run_def fail_run_def return_run_def split: sum.splits)
  then obtain xs e where e: "re_ReadDir env (w_files w) ?dir = Some xs" "e \<in> set xs" "f = Join_path [?dir, we_name e]"
    using collect_child by blast
  then have "proper_name (we_name e)" using tidy_hostD(2) [OF host] by (auto simp: tmp_listed_def list_all_iff)
  from Join_path_rooted [OF download_dir(2) [OF host] this] e(3) show ?thesis by (simp add: download_dir(1) [OF host])
qed

lemma clean_download:
  assumes host: "tidy_host env"
  shows "clean env {} (ytdlp_Run env j raw)"
proof -
  let ?dir = "tmp_name env ''dl-'' j ''''"
  let ?S = "{p. p = ?dir \<or> below ?dir p}"
  have tmpl: "Join_path [?dir, ''%(title).80B-%(id)s.%(ext)s''] = ?dir @ ''/'' @ ''%(title).80B-%(id)s.%(ext)s''"
    by (rule Join_path_rooted [OF download_dir(2) [OF host]]) (simp add: proper_name_def)
  have last: "LastIndexByte (?dir @ ''/'' @ ''%(title).80B-%(id)s.%(ext)s'') CHR ''/'' = Some (length ?dir)"
    using LastIndexByte_append_notin [of "CHR ''/''" "''%(title).80B-%(id)s.%(ext)s''" ?dir] by simp
  have args: "p \<in> ?S" if "writes YtDlpBin (ytDlpArgs q (Join_path [?dir, ''%(title).80B-%(id)s.%(ext)s'']) url) p" for p q url
    using that unfolding tmpl by (simp add: ytdlp_template last below_def del: append.simps)
  have neat_collect: "neat env S (collect_run env ?dir)" for S
    by (simp add: neat_def collect_run_def lift_run_def fail_run_def return_run_def split: sum.splits)
  show ?thesis
    unfolding ytdlp_Run_def Let_def
    using args
    by (intro clean_lift clean_require clean_deferred [OF kills_dir [OF host download_dir(3) [OF host]]] clean_then clean_bind neat_exec
        neat_collect host)
      (auto intro!: clean_deliver host dest: collect_below [OF host])
qed


subsection \<open>The result\<close>

text \<open>A run that succeeds leaves a file whose content satisfies \<open>Q\<close> in the download directory.\<close>

definition result_file :: "run_env \<Rightarrow> (string \<Rightarrow> bool) \<Rightarrow> Result \<Rightarrow> files \<Rightarrow> bool" where
  "result_file env Q res fs \<longleftrightarrow> (\<exists>name c. proper_name name \<and> OutputPath res = re_download env @ ''/'' @ name \<and>
     fs (OutputPath res) = Some c \<and> Q c)"

definition yields :: "run_env \<Rightarrow> (string \<Rightarrow> bool) \<Rightarrow> Result run \<Rightarrow> bool" where
  "yields env Q m \<longleftrightarrow> (\<forall>w res w'. m w = (Inr res, w') \<longrightarrow> result_file env Q res (w_files w'))"

text \<open>The download directory is not below the directory for work files.\<close>

definition apart :: "run_env \<Rightarrow> bool" where
  "apart env \<longleftrightarrow> rooted_dir (re_download env) \<and> \<not> HasPrefix (re_download env @ ''/'') (re_tmp env @ ''/'')"

definition spares :: "run_env \<Rightarrow> (files \<Rightarrow> files) \<Rightarrow> bool" where
  "spares env f \<longleftrightarrow> (\<forall>fs p. \<not> below (re_tmp env) p \<longrightarrow> f fs p = fs p)"

lemma apart_child:
  assumes "apart env" and "proper_name name"
  shows "\<not> below (re_tmp env) (re_download env @ ''/'' @ name)"
proof
  assume "below (re_tmp env) (re_download env @ ''/'' @ name)"
  then obtain t where t: "re_download env @ ''/'' @ name = (re_tmp env @ ''/'') @ t" by (auto simp: below_def HasPrefix_iff)
  then have "(re_download env @ ''/'') @ name = (re_tmp env @ ''/'') @ t" by simp
  from append_eq_append_conv2 [THEN iffD1, OF this] obtain u where u: "(re_download env @ ''/'') @ u = re_tmp env @ ''/'' \<and> name = u @ t \<or>
      re_download env @ ''/'' = (re_tmp env @ ''/'') @ u \<and> u @ name = t" by blast
  moreover have "u = ''''" if "(re_download env @ ''/'') @ u = re_tmp env @ ''/''" "name = u @ t"
  proof (rule ccontr)
    assume "u \<noteq> ''''"
    with that have "last u = CHR ''/''" by (metis last_appendR last_snoc)
    with last_in_set [of u] \<open>u \<noteq> ''''\<close> that(2) assms(2) show False by (auto simp: proper_name_def)
  qed
  ultimately have "HasPrefix (re_download env @ ''/'') (re_tmp env @ ''/'')"
    using u unfolding HasPrefix_iff by (metis append.right_neutral)
  with assms(1) show False by (simp add: apart_def)
qed

lemma yieldsI: "(\<And>w res w'. m w = (Inr res, w') \<Longrightarrow> result_file env Q res (w_files w')) \<Longrightarrow> yields env Q m"
  by (simp add: yields_def)

lemma yieldsD: "yields env Q m \<Longrightarrow> m w = (Inr res, w') \<Longrightarrow> result_file env Q res (w_files w')"
  by (simp add: yields_def)

lemma yields_fail [simp]: "yields env Q (fail_run e)"
  by (simp add: yields_def fail_run_def)

lemma yields_bind: "(\<And>a. yields env Q (f a)) \<Longrightarrow> yields env Q (bind_run m f)"
  by (rule yieldsI) (auto simp: bind_run_def dest: yieldsD split: prod.splits sum.splits)

lemma yields_then: "yields env Q k \<Longrightarrow> yields env Q (then_run m k)"
  unfolding then_run_def by (rule yields_bind)

lemma yields_require: "yields env Q k \<Longrightarrow> yields env Q (require b e k)"
  by (simp add: require_def)

lemma yields_lift: "(\<And>a. yields env Q (k a)) \<Longrightarrow> yields env Q (lift_run err r k)"
  by (cases r) (simp_all add: lift_run_def)

lemma yields_probe: "(\<And>d. yields env Q (k d)) \<Longrightarrow> yields env Q (probeDuration env input k)"
  by (rule yieldsI) (auto simp: probeDuration_def dest: yieldsD split: prod.splits sum.splits)

lemma yields_with_input: "(\<And>i. yields env Q (k i)) \<Longrightarrow> yields env Q (with_input env j k)"
  by (rule yieldsI) (auto simp: with_input_def Let_def fail_run_def dest: yieldsD split: if_splits)

lemma yields_deferred:
  assumes "apart env" and "spares env f" and "yields env Q m"
  shows "yields env Q (deferred f m)"
proof (rule yieldsI)
  fix w w' :: world and res
  assume "deferred f m w = (Inr res, w')"
  then obtain v where v: "m w = (Inr res, v)" "w_files w' = f (w_files v)" by (auto simp: deferred_def split: prod.splits)
  from yieldsD [OF assms(3) v(1)] obtain name c where n: "proper_name name" "OutputPath res = re_download env @ ''/'' @ name"
      "w_files v (OutputPath res) = Some c" "Q c" by (auto simp: result_file_def)
  moreover have "w_files w' (OutputPath res) = w_files v (OutputPath res)"
    using assms(2) apart_child [OF assms(1) n(1)] by (simp add: spares_def v(2) n(2))
  ultimately show "result_file env Q res (w_files w')" by (auto simp: result_file_def)
qed

lemma moveFile_ok:
  assumes "moveFile env src dst fs = (True, fs')" and "src \<noteq> dst"
  shows "\<exists>c. fs src = Some c \<and> fs' dst = Some c"
  using assms by (auto simp: moveFile_def copyRemove_def unlink_def Let_def split: if_splits option.splits rename_result.splits)

lemma deliver_file:
  assumes "apart env" and "below (re_tmp env) src" and "deliver env j names ext title src w = (Inr res, w')"
  shows "\<exists>name c. proper_name name \<and> OutputPath res = re_download env @ ''/'' @ name \<and>
    w_files w src = Some c \<and> w_files w' (OutputPath res) = Some c"
proof -
  let ?dst = "uniqueOutputPath (taken env (w_files w)) (\<lambda>k. randomTag (re_draw env k)) (re_download env) (firstNonEmpty names) ext (j_ID j)"
  obtain ok fs where m: "moveFile (re_move env) src ?dst (w_files w) = (ok, fs)" by fastforce
  have w': ok "w_files w' = fs" "OutputPath res = ?dst"
    using assms(3) by (auto simp: deliver_def Let_def then_run_def bind_run_def move_result_def m emit_def return_run_def split: if_splits)
  obtain name where n: "proper_name name" "?dst = re_download env @ ''/'' @ name"
    using output_child assms(1) unfolding apart_def by blast
  then have "src \<noteq> ?dst" using apart_child [OF assms(1) n(1)] assms(2) by auto
  from moveFile_ok [OF _ this] m w' n show ?thesis by auto
qed

lemma yields_deliver: "apart env \<Longrightarrow> below (re_tmp env) src \<Longrightarrow> yields env (\<lambda>c. True) (deliver env j names ext title src)"
  by (rule yieldsI) (auto simp: result_file_def dest: deliver_file)

lemma yields_output:
  assumes "apart env" and "below (re_tmp env) src"
  shows "yields env (\<lambda>c. c \<noteq> '''') (then_run (require_output env src) (deliver env j names ext title src))"
proof (rule yieldsI)
  fix w w' :: world and res
  assume "then_run (require_output env src) (deliver env j names ext title src) w = (Inr res, w')"
  then have d: "deliver env j names ext title src w = (Inr res, w')" "produced env src (w_files w)"
    by (auto simp: then_run_def bind_run_def require_output_def require_def return_run_def fail_run_def split: if_splits)
  from deliver_file [OF assms d(1)] d(2) show "result_file env (\<lambda>c. c \<noteq> '''') res (w_files w')"
    by (auto simp: produced_def result_file_def)
qed

lemma spares_file: "below (re_tmp env) p \<Longrightarrow> spares env (remove_file env p)"
  by (auto simp: spares_def remove_file_def unlink_def)

lemma spares_id: "spares env id"
  by (simp add: spares_def)

lemma spares_dir: "below (re_tmp env) d \<Longrightarrow> spares env (remove_all env d)"
  by (auto simp: spares_def remove_all_def below_def HasPrefix_iff)

lemma yields_ffmpeg:
  assumes host: "tidy_host env" and sep: "apart env"
  shows "yields env (\<lambda>c. c \<noteq> '''') (ffmpeg_Run env j raw)"
proof -
  have job: "yields env (\<lambda>c. c \<noteq> '''') (encode_job env j input spec d)" for input spec d
  proof -
    have "below (re_tmp env) (tmp_name env ''enc-'' j (''.'' @ sanitizeName (es_Container spec)))"
      using tmp_child [OF host] no_slash_name by simp
    note out = spares_file [OF this] yields_output [OF sep this]
    show ?thesis unfolding encode_job_def Let_def
      by (rule yields_require) (rule yields_deferred [OF sep out(1)], rule yields_then, rule out(2))
  qed
  have edit: "yields env (\<lambda>c. c \<noteq> '''') (runEdit env j raw input)" for input
  proof -
    obtain container copy where plan: "editPlan input = (container, copy)" by fastforce
    have "below (re_tmp env) (tmp_name env ''edit-'' j (''.'' @ container))"
      using tmp_child [OF host] editPlan_no_slash [of input] by (simp add: plan)
    note out = spares_file [OF this] yields_output [OF sep this]
    have rest: "yields env (\<lambda>c. c \<noteq> '''') (require b e (deferred (remove_file env (tmp_name env ''edit-'' j (''.'' @ container)))
        (then_run m1 (then_run m2 (then_run (require_output env (tmp_name env ''edit-'' j (''.'' @ container)))
          (deliver env j names container '''' (tmp_name env ''edit-'' j (''.'' @ container))))))))" for b e m1 m2 names
      by (rule yields_require) (rule yields_deferred [OF sep out(1)], rule yields_then, rule yields_then, rule out(2))
    show ?thesis
      unfolding runEdit_def Let_def plan prod.case
      by (rule yields_lift) (rule yields_then, simp add: rest yields_probe del: append.simps)
  qed
  show ?thesis
    unfolding ffmpeg_Run_def
    by (rule yields_with_input) (auto intro!: yields_lift yields_then yields_probe job edit)
qed

lemma yields_image:
  assumes host: "tidy_host env" and sep: "apart env"
  shows "yields env (\<lambda>c. True) (image_Run env j raw)"
proof -
  let ?base = "tmp_name env ''img-'' j ''''"
  have below: "below (re_tmp env) (?base @ s)" for s using tmp_child [OF host, of "[]"] by simp
  have "yields env (\<lambda>c. True) (image_convert env j p format ?base (?base @ ''.'' @ s) input)" for p format s input
  proof -
    have "below (re_tmp env) (snd (render_plan format ?base (?base @ ''.'' @ s)))" by (auto simp: render_plan_def below)
    then show ?thesis
      unfolding image_convert_def Let_def case_prod_unfold
      by (intro yields_deferred [OF sep] yields_then yields_deliver sep below) (simp add: spares_file spares_id)
  qed
  then show ?thesis
    unfolding image_Run_def Let_def
    by (auto intro!: yields_with_input yields_lift yields_require yields_deferred [OF sep spares_file [OF below]] yields_then simp del: append.simps)
qed

lemma yields_download:
  assumes host: "tidy_host env" and sep: "apart env"
  shows "yields env (\<lambda>c. True) (ytdlp_Run env j raw)"
proof -
  let ?dir = "tmp_name env ''dl-'' j ''''"
  have "yields env (\<lambda>c. True) (bind_run (collect_run env ?dir) (\<lambda>(title, file). deliver env j (names title file) (ext file) title file))"
    for names ext
  proof (rule yieldsI)
    fix w w' :: world and res
    assume "bind_run (collect_run env ?dir) (\<lambda>(title, file). deliver env j (names title file) (ext file) title file) w = (Inr res, w')"
    then obtain t f v where "collect_run env ?dir w = (Inr (t, f), v)" "deliver env j (names t f) (ext f) t f v = (Inr res, w')"
      by (auto simp: bind_run_def split: prod.splits sum.splits)
    then show "result_file env (\<lambda>c. True) res (w_files w')"
      using yieldsD [OF yields_deliver [OF sep collect_below [OF host]]] by blast
  qed
  note rest = this [of "\<lambda>title file. [title, baseWithoutExt file, j_Title j, ''download'']" Ext]
  show ?thesis
    unfolding ytdlp_Run_def Let_def
    by (intro yields_lift) (rule yields_require, rule yields_deferred [OF sep spares_dir [OF download_dir(3) [OF host]]], rule yields_then,
      rule yields_bind, rule rest)
qed


subsection \<open>A host\<close>

text \<open>\<open>ReadDir\<close> of a file system: the names in a directory, sorted.\<close>

definition sorted_dir :: "files \<Rightarrow> string \<Rightarrow> work_entry list option" where
  "sorted_dir fs d =
     Some (map (\<lambda>n. \<lparr>we_name = n, we_dir = False, we_size = map_option (\<lambda>c. int (length c)) (fs (d @ ''/'' @ n))\<rparr>)
       (sorted_list_of_set {n. proper_name n \<and> d @ ''/'' @ n \<in> dom fs}))"

definition tidy_env :: run_env where
  "tidy_env = demo_env\<lparr>re_tool := (\<lambda>b args fs. (demo_proc\<lparr>pr_start_err := None\<rparr>, if b = MagickBin then fs(last args \<mapsto> ''x'') else fs)),
     re_ReadDir := sorted_dir\<rparr>"

lemma sorted_dir_names:
  assumes "finite (dom fs)"
  shows "we_name ` set (the (sorted_dir fs d)) = {n. proper_name n \<and> d @ ''/'' @ n \<in> dom fs}"
proof -
  have "finite {n. d @ ''/'' @ n \<in> dom fs}"
    using finite_vimageI [OF assms, of "\<lambda>n. d @ ''/'' @ n"] by (simp add: vimage_def inj_on_def)
  then have "finite {n. proper_name n \<and> d @ ''/'' @ n \<in> dom fs}" by (rule rev_finite_subset) auto
  then show ?thesis by (simp add: sorted_dir_def image_image)
qed

lemma rooted_demo: "rooted_dir ''/data/tmp''" "rooted_dir ''/data/downloads''"
  unfolding rooted_dir_def
  by (rule exI [of _ "[''data'', ''tmp'']"], simp add: proper_name_def) (rule exI [of _ "[''data'', ''downloads'']"], simp add: proper_name_def)

lemma tidy_env_ok: "tidy_host tidy_env"
proof -
  have "tools_confined tidy_env" by (simp add: tools_confined_def tidy_env_def)
  moreover have "tmp_listed tidy_env"
  proof -
    have "list_all (\<lambda>e. proper_name (we_name e)) es" if "sorted_dir fs d = Some es" for fs d es
    proof (cases "finite {n. proper_name n \<and> d @ ''/'' @ n \<in> dom fs}")
      case True
      with that show ?thesis by (auto simp: sorted_dir_def list_all_iff)
    qed (use that in \<open>auto simp: sorted_dir_def\<close>)
    moreover have "\<exists>es. sorted_dir fs d = Some es \<and> n \<in> we_name ` set es"
      if "finite (dom fs)" "proper_name n" "fs (d @ ''/'' @ n) \<noteq> None" for fs d n
      using sorted_dir_names [OF that(1), of d] that(2,3) by (auto simp: sorted_dir_def)
    ultimately show ?thesis by (simp add: tmp_listed_def tidy_env_def)
  qed
  ultimately show ?thesis using rooted_demo by (simp add: tidy_host_def tidy_env_def demo_env_def)
qed

definition demo_world :: world where
  "demo_world = \<lparr>w_files = demo_files, w_trace = []\<rparr>"


lemma demo_succeeds: "\<exists>res w'. image_Run tidy_env demo_image None demo_world = (Inr res, w')"
proof -
  let ?input = "''/data/uploads/-negate.png''"
  have "case ParseImage None defaultRetentionDays of Inl _ \<Rightarrow> False | Inr p \<Rightarrow> ResolveFormat p ?input = Inr ''webp''"
    by code_simp
  then obtain p where p: "ParseImage None defaultRetentionDays = Inr p" "ResolveFormat p ?input = Inr ''webp''"
    by (auto split: sum.splits)
  have "absPath tidy_env (j_InputPath demo_image) = ?input"
    by (simp add: absPath_def tidy_env_def demo_env_def demo_image_def)
  moreover have "TrimSpace (j_InputPath demo_image) \<noteq> ''''" "\<not> isSVGPath ?input" by code_simp+
  ultimately have in_: "absPath tidy_env (j_InputPath demo_image) = ?input" "TrimSpace (j_InputPath demo_image) \<noteq> ''''"
    "\<not> isSVGPath ?input" by blast+
  have bin: "runProc (re_bin tidy_env b) Discard (demo_proc\<lparr>pr_start_err := None\<rparr>) = ([], scanLines [] [], None)" for b
    by (simp add: runProc_def demo_proc_def Let_def)
  have env: "re_mkdir_ok tidy_env" "\<not> re_is_dir tidy_env x"
      "re_tool tidy_env MagickBin args fs = (demo_proc\<lparr>pr_start_err := None\<rparr>, fs(last args \<mapsto> ''x''))"
      "mv_mkdir_ok (re_move tidy_env)" "mv_rename (re_move tidy_env) = Renamed" for args fs x
    by (simp_all add: tidy_env_def demo_env_def)
  have start: "started Discard (demo_proc\<lparr>pr_start_err := None\<rparr>)" by (simp add: started_def demo_proc_def)
  show ?thesis
    by (simp add: image_Run_def with_input_def in_ taken_def demo_world_def demo_files_def lift_run_def p require_def env image_convert_def
        render_plan_def outputExt_def deferred_def then_run_def bind_run_def emit_def run_silently_def exec_run_def bin start
        last_magickArgs return_run_def require_output_def produced_def finish_svg_def deliver_def move_result_def moveFile_def Let_def silent_def)
qed


subsection \<open>Limits\<close>

text \<open>
  ImageMagick given an input of several images and an output format of one image per file writes numbered files instead
  of the one it was told to. Such a host is not confined: the run fails, and the numbered files stay.
\<close>

definition scenes_env :: run_env where
  "scenes_env = tidy_env\<lparr>re_tool := (\<lambda>b args fs. (demo_proc\<lparr>pr_start_err := None\<rparr>,
     if b = MagickBin then fs(TrimSuffix (last args) ''.jpg'' @ ''-0.jpg'' \<mapsto> ''x'') else fs))\<rparr>"

lemma scenes_left_behind:
  assumes "raw = Some (JObj [(''format'', JStr ''jpg'')])"
  shows "fst (image_Run scenes_env demo_image raw demo_world) = Inl NoOutput"
    and "w_files (snd (image_Run scenes_env demo_image raw demo_world)) ''/data/tmp/img-4f-0.jpg'' = Some ''x''"
proof -
  let ?input = "''/data/uploads/-negate.png''"
  have "case ParseImage raw defaultRetentionDays of Inl _ \<Rightarrow> False | Inr p \<Rightarrow> ResolveFormat p ?input = Inr ''jpg''"
    unfolding assms by code_simp
  then obtain p where p: "ParseImage raw defaultRetentionDays = Inr p" "ResolveFormat p ?input = Inr ''jpg''"
    by (auto split: sum.splits)
  have path: "absPath scenes_env (j_InputPath demo_image) = ?input" "re_tmp scenes_env = ''/data/tmp''"
    by (simp_all add: absPath_def scenes_env_def tidy_env_def demo_env_def demo_image_def)
  have "TrimSpace (j_InputPath demo_image) \<noteq> ''''" "\<not> isSVGPath ?input"
    "Join_path [''/data/tmp'', ''img-'' @ sanitizeName (shortID (j_ID demo_image)) @ ''''] = ''/data/tmp/img-4f''"
    by code_simp+
  then have in_: "TrimSpace (j_InputPath demo_image) \<noteq> ''''" "\<not> isSVGPath ?input"
    "tmp_name scenes_env ''img-'' demo_image '''' = ''/data/tmp/img-4f''" "absPath scenes_env (j_InputPath demo_image) = ?input"
    by (simp_all add: tmp_name_def path)
  have out: "sanitizeName ''jpg'' = ''jpg''" "TrimSuffix ''/data/tmp/img-4f.jpg'' ''.jpg'' = ''/data/tmp/img-4f''" by code_simp+
  have bin: "runProc (re_bin scenes_env b) Discard (demo_proc\<lparr>pr_start_err := None\<rparr>) = ([], scanLines [] [], None)" for b
    by (simp add: runProc_def demo_proc_def Let_def)
  have env: "re_mkdir_ok scenes_env" "\<not> re_is_dir scenes_env x"
      "re_tool scenes_env MagickBin args fs = (demo_proc\<lparr>pr_start_err := None\<rparr>, fs(TrimSuffix (last args) ''.jpg'' @ ''-0.jpg'' \<mapsto> ''x''))"
      "mv_unlink_ok (re_move scenes_env) x" for args fs x
    by (simp_all add: scenes_env_def tidy_env_def demo_env_def)
  have start: "started Discard (demo_proc\<lparr>pr_start_err := None\<rparr>)" by (simp add: started_def demo_proc_def)
  have "image_Run scenes_env demo_image raw demo_world =
      (Inl NoOutput, snd (image_Run scenes_env demo_image raw demo_world)) \<and>
    w_files (snd (image_Run scenes_env demo_image raw demo_world)) ''/data/tmp/img-4f-0.jpg'' = Some ''x''"
    by (simp add: image_Run_def with_input_def in_ taken_def demo_world_def demo_files_def lift_run_def p require_def env image_convert_def
        render_plan_def outputExt_def deferred_def then_run_def bind_run_def emit_def run_silently_def exec_run_def bin start
        last_magickArgs return_run_def fail_run_def require_output_def produced_def Let_def silent_def out remove_file_def unlink_def)
  then show "fst (image_Run scenes_env demo_image raw demo_world) = Inl NoOutput"
    "w_files (snd (image_Run scenes_env demo_image raw demo_world)) ''/data/tmp/img-4f-0.jpg'' = Some ''x''"
    by (metis fst_conv)+
qed

end
