(* ===== verification/Pipes.thy ===== *)
theory Pipes
  imports ExecSpec
begin

text \<open>
  A running child process and the two goroutines of \<open>runProc\<close> that scan its pipes, byte by byte: the child blocks on a full
  pipe, a scanner on an empty one, and \<open>runProc\<close> returns when both scanners are done and the child has exited. \<open>cap\<close> is the
  capacity of a pipe. Output that goes to a writer instead of a line handler is always taken and left out.
\<close>

datatype stream = Stdout | Stderr

record scan =
  sc_pipe :: string
  sc_buf :: string
  sc_lines :: "string list"
  sc_done :: bool

record child =
  c_out :: "(stream \<times> char) list"
  c_scan :: "stream \<Rightarrow> scan"
  c_exited :: bool

definition start_child :: "(stream \<times> char) list \<Rightarrow> child" where
  "start_child out =
     \<lparr>c_out = out, c_scan = (\<lambda>_. \<lparr>sc_pipe = [], sc_buf = [], sc_lines = [], sc_done = False\<rparr>), c_exited = False\<rparr>"

definition on_scan :: "stream \<Rightarrow> (scan \<Rightarrow> scan) \<Rightarrow> child \<Rightarrow> child" where
  "on_scan x f s = s\<lparr>c_scan := (c_scan s)(x := f (c_scan s x))\<rparr>"

text \<open>A read of \<open>n\<close> bytes and the tokens it completes; a line that fills the buffer ends the scanner. The end of a pipe.\<close>

definition scan_read :: "nat \<Rightarrow> scan \<Rightarrow> scan" where
  "scan_read n sc =
     (case drain False (sc_buf sc @ take n (sc_pipe sc)) of (ts, rest) \<Rightarrow>
        sc\<lparr>sc_pipe := drop n (sc_pipe sc), sc_buf := rest, sc_lines := sc_lines sc @ ts,
           sc_done := (int (length rest) \<ge> maxLineBytes)\<rparr>)"

definition scan_eof :: "scan \<Rightarrow> scan" where
  "scan_eof sc = sc\<lparr>sc_buf := [], sc_lines := sc_lines sc @ fst (drain True (sc_buf sc)), sc_done := True\<rparr>"

inductive child_step :: "nat \<Rightarrow> child \<Rightarrow> child \<Rightarrow> bool" for cap where
  child_writes: "c_out s = (x, c) # out \<Longrightarrow> length (sc_pipe (c_scan s x)) < cap \<Longrightarrow>
    child_step cap s (on_scan x (\<lambda>sc. sc\<lparr>sc_pipe := sc_pipe sc @ [c]\<rparr>) (s\<lparr>c_out := out\<rparr>))"
| scanner_reads: "\<not> sc_done (c_scan s x) \<Longrightarrow> 0 < n \<Longrightarrow> n \<le> length (sc_pipe (c_scan s x)) \<Longrightarrow>
    int (length (sc_buf (c_scan s x)) + n) \<le> maxLineBytes \<Longrightarrow> child_step cap s (on_scan x (scan_read n) s)"
| child_exits: "c_out s = [] \<Longrightarrow> \<not> c_exited s \<Longrightarrow> child_step cap s (s\<lparr>c_exited := True\<rparr>)"
| pipe_ends: "c_exited s \<Longrightarrow> sc_pipe (c_scan s x) = [] \<Longrightarrow> \<not> sc_done (c_scan s x) \<Longrightarrow> child_step cap s (on_scan x scan_eof s)"

text \<open>The child, and with it all that could write for it, is killed.\<close>

definition cut_off :: "child \<Rightarrow> child" where
  "cut_off s = s\<lparr>c_out := [], c_exited := True\<rparr>"

inductive child_reach :: "nat \<Rightarrow> (stream \<times> char) list \<Rightarrow> child \<Rightarrow> bool" for cap out where
  start: "child_reach cap out (start_child out)"
| step: "child_reach cap out s \<Longrightarrow> child_step cap s s' \<Longrightarrow> child_reach cap out s'"

definition returned :: "child \<Rightarrow> bool" where
  "returned s \<longleftrightarrow> c_exited s \<and> sc_done (c_scan s Stdout) \<and> sc_done (c_scan s Stderr)"

subsection \<open>The kill\<close>

text \<open>
  Live processes with their process groups. \<open>newCommand\<close> makes the child the leader of a group of its own; what \<open>killGroup\<close>
  signals: nothing before the start, the group, or the child alone when its group cannot be read.
\<close>

type_synonym procs = "int \<Rightarrow> int option"

definition newCommand :: "int \<Rightarrow> procs \<Rightarrow> procs" where
  "newCommand pid ps = ps(pid \<mapsto> pid)"

datatype kill = NoKill | KillGroup int | KillOne int

definition killGroup :: "int option \<Rightarrow> (int \<Rightarrow> int option) \<Rightarrow> kill" where
  "killGroup process Getpgid =
     (case process of
        None \<Rightarrow> NoKill
      | Some pid \<Rightarrow> (case Getpgid pid of
            Some pgid \<Rightarrow> if pgid > 0 then KillGroup pgid else KillOne pid
          | None \<Rightarrow> KillOne pid))"

fun sigkill :: "kill \<Rightarrow> procs \<Rightarrow> procs" where
  "sigkill NoKill ps = ps"
| "sigkill (KillGroup g) ps = (\<lambda>p. if ps p = Some g then None else ps p)"
| "sigkill (KillOne p) ps = ps(p := None)"

text \<open>
  What happens between the start and the kill: processes fork and inherit their group, exit, or move to other groups, except
  those that descend from the command, the set \<open>D\<close>. The command keeps its number until it is waited for, which
  \<open>runProc\<close> does after the kill.
\<close>

inductive proc_tree :: "int \<Rightarrow> procs \<Rightarrow> int set \<Rightarrow> bool" for pid where
  spawned: "0 < pid \<Longrightarrow> ps pid = None \<Longrightarrow> (\<forall>p. ps p \<noteq> Some pid) \<Longrightarrow> proc_tree pid (newCommand pid ps) {pid}"
| forked: "proc_tree pid ps D \<Longrightarrow> ps p = Some g \<Longrightarrow> ps q = None \<Longrightarrow>
    proc_tree pid (ps(q \<mapsto> g)) (if p \<in> D then insert q D else D)"
| died: "proc_tree pid ps D \<Longrightarrow> p \<noteq> pid \<Longrightarrow> proc_tree pid (ps(p := None)) (D - {p})"
| regrouped: "proc_tree pid ps D \<Longrightarrow> p \<notin> D \<Longrightarrow> g \<noteq> pid \<Longrightarrow> proc_tree pid (ps(p \<mapsto> g)) D"

lemma proc_tree_group: "proc_tree pid ps D \<Longrightarrow> 0 < pid \<and> ps pid = Some pid \<and> D = {p. ps p = Some pid}"
proof (induction rule: proc_tree.induct)
  case (forked ps D p g q)
  then show ?case by (cases "q = pid") auto
qed (auto simp: newCommand_def)

text \<open>The kill takes every process that descends from the command, and no other.\<close>

lemma kill_takes_tree:
  assumes "proc_tree pid ps D"
  shows "sigkill (killGroup (Some pid) ps) ps = (\<lambda>p. if p \<in> D then None else ps p)"
proof -
  have "0 < pid" "ps pid = Some pid" "D = {p. ps p = Some pid}" using proc_tree_group [OF assms] by blast+
  then show ?thesis by (simp add: killGroup_def fun_eq_iff)
qed

subsection \<open>Every step makes progress\<close>

definition scan_work :: "scan \<Rightarrow> nat" where
  "scan_work sc = length (sc_pipe sc) + (if sc_done sc then 0 else 1)"

definition work :: "child \<Rightarrow> nat" where
  "work s = 2 * length (c_out s) + scan_work (c_scan s Stdout) + scan_work (c_scan s Stderr) + (if c_exited s then 0 else 1)"

lemma on_scan_simps [simp]:
  "c_out (on_scan x f s) = c_out s" "c_exited (on_scan x f s) = c_exited s"
  "c_scan (on_scan x f s) y = (if y = x then f (c_scan s x) else c_scan s y)"
  by (simp_all add: on_scan_def)

lemma work_on_scan:
  "work (on_scan x f s) + scan_work (c_scan s x) = work s + scan_work (f (c_scan s x))"
  by (cases x) (simp_all add: work_def)

lemma scan_work_read: "\<not> sc_done sc \<Longrightarrow> 0 < n \<Longrightarrow> n \<le> length (sc_pipe sc) \<Longrightarrow> scan_work (scan_read n sc) < scan_work sc"
  by (auto simp: scan_work_def scan_read_def split: prod.split)

lemma step_work: "child_step cap s s' \<Longrightarrow> work s' < work s"
proof (induction rule: child_step.induct)
  case (child_writes s x c out)
  let ?s = "s\<lparr>c_out := out\<rparr>" and ?f = "\<lambda>sc. sc\<lparr>sc_pipe := sc_pipe sc @ [c]\<rparr>"
  have "work ?s + 2 = work s" using child_writes by (simp add: work_def)
  moreover have "scan_work (?f (c_scan s x)) = scan_work (c_scan s x) + 1" by (simp add: scan_work_def)
  ultimately show ?case using work_on_scan [of x ?f ?s] by simp
next
  case (scanner_reads s x n)
  then show ?case using work_on_scan [of x "scan_read n" s] scan_work_read [of "c_scan s x" n] by simp
next
  case (child_exits s)
  then show ?case by (simp add: work_def)
next
  case (pipe_ends s x)
  have "scan_work (scan_eof (c_scan s x)) < scan_work (c_scan s x)" using pipe_ends by (simp add: scan_work_def scan_eof_def)
  then show ?case using work_on_scan [of x scan_eof s] by simp
qed

lemma splitLines_none: "list_all (\<lambda>c. \<not> is_eol c) b \<Longrightarrow> drain False b = ([], b)"
proof -
  assume b: "list_all (\<lambda>c. \<not> is_eol c) b"
  then have "takeWhile is_eol b = []" by (cases b) auto
  moreover have "takeWhile (\<lambda>c. \<not> is_eol c) b = b" using b by (simp add: takeWhile_eq_all_conv list_all_iff)
  ultimately have "splitLinesCR b False = (0, None)"
    unfolding splitLinesCR_def Let_def by (simp only: list.size drop0) simp
  then show ?thesis by (subst drain.simps) simp
qed

subsection \<open>Who can be stuck\<close>

text \<open>A scanner that still reads has room for a byte.\<close>

definition room :: "child \<Rightarrow> bool" where
  "room s \<longleftrightarrow> (\<forall>x. sc_done (c_scan s x) \<or> int (length (sc_buf (c_scan s x))) < maxLineBytes) \<and> (c_exited s \<longrightarrow> c_out s = [])"

lemma room_read: "sc_done (scan_read n sc) \<or> int (length (sc_buf (scan_read n sc))) < maxLineBytes"
  by (auto simp: scan_read_def split: prod.split)

lemma room_step: "child_step cap s s' \<Longrightarrow> room s \<Longrightarrow> room s'"
proof (induction rule: child_step.induct)
  case (scanner_reads s x n)
  then show ?case using room_read [of n "c_scan s x"] by (auto simp: room_def)
qed (auto simp: room_def scan_eof_def)

lemma room_start: "room (start_child out)"
  by (simp add: room_def start_child_def maxLineBytes_def)

lemma room_reach: "child_reach cap out s \<Longrightarrow> room s"
  by (induction rule: child_reach.induct) (auto intro: room_start room_step)

text \<open>A state that cannot step has returned, or a scanner gave up and the child waits on its full pipe.\<close>

lemma stuck_cases:
  assumes "room s" and stuck: "\<And>s'. \<not> child_step cap s s'" and "0 < cap"
  shows "returned s \<or> (\<exists>x c out. c_out s = (x, c) # out \<and> sc_done (c_scan s x) \<and> cap \<le> length (sc_pipe (c_scan s x)))"
proof -
  have read: "sc_done (c_scan s x) \<or> sc_pipe (c_scan s x) = []" for x
  proof (rule ccontr)
    assume "\<not> ?thesis"
    then have "child_step cap s (on_scan x (scan_read 1) s)"
      using assms(1) by (intro child_step.scanner_reads) (auto simp: room_def Suc_le_eq)
    with stuck show False by blast
  qed
  show ?thesis
  proof (cases "c_out s")
    case Nil
    then have ex: "c_exited s" using stuck child_step.child_exits by blast
    then have "sc_done (c_scan s x)" for x using read [of x] stuck child_step.pipe_ends by blast
    then show ?thesis using ex by (simp add: returned_def)
  next
    case (Cons xc out)
    obtain x c where xc: "xc = (x, c)" by fastforce
    have "cap \<le> length (sc_pipe (c_scan s x))" using stuck child_step.child_writes [of s x c out cap] Cons xc by force
    then show ?thesis using Cons xc read [of x] assms(3) by auto
  qed
qed

subsection \<open>Lines that fit\<close>

definition bytes :: "stream \<Rightarrow> (stream \<times> char) list \<Rightarrow> string" where
  "bytes x out = map snd (filter (\<lambda>p. fst p = x) out)"

lemma bytes_simps [simp]: "bytes x [] = []" "bytes x ((y, c) # out) = (if y = x then c # bytes x out else bytes x out)"
  by (simp_all add: bytes_def)

definition fits :: "string \<Rightarrow> bool" where
  "fits b \<longleftrightarrow> list_all (\<lambda>l. int (length l) < maxLineBytes) (lines_of b)"

text \<open>Nothing is lost: what was scanned, what waits and what is still to come make up the output.\<close>

definition scan_inv :: "string \<Rightarrow> string \<Rightarrow> bool \<Rightarrow> scan \<Rightarrow> bool" where
  "scan_inv all rest ended sc \<longleftrightarrow>
     (if sc_done sc then ended \<and> sc_lines sc = lines_of all
      else lines_of all = sc_lines sc @ lines_of (sc_buf sc @ sc_pipe sc @ rest))"

lemma take_drop_append [simp]: "take n xs @ drop n xs @ ys = xs @ ys"
  by (metis append_assoc append_take_drop_id)

lemma scan_inv_read:
  assumes "scan_inv all rest ended sc" and "\<not> sc_done sc" and "fits all"
  shows "scan_inv all rest ended (scan_read n sc)"
proof -
  obtain ts buf where d: "drain False (sc_buf sc @ take n (sc_pipe sc)) = (ts, buf)" by fastforce
  let ?fut = "drop n (sc_pipe sc) @ rest"
  have "(sc_buf sc @ take n (sc_pipe sc)) @ ?fut = sc_buf sc @ sc_pipe sc @ rest"
    by (simp add: take_drop_append)
  then have eq: "lines_of (sc_buf sc @ sc_pipe sc @ rest) = ts @ lines_of (buf @ ?fut)" "list_all (\<lambda>c. \<not> is_eol c) buf"
    using drain_False [OF d, of ?fut] by simp_all
  then have all: "lines_of all = sc_lines sc @ ts @ lines_of (buf @ ?fut)" using assms(1,2) by (simp add: scan_inv_def)
  have "int (length buf) < maxLineBytes"
  proof (cases "buf = []")
    case False
    then obtain t where "buf @ t \<in> set (lines_of all)" using rest_begins_line [OF eq(2), of ?fut] all by auto
    with assms(3) have "int (length (buf @ t)) < maxLineBytes" unfolding fits_def list_all_iff by blast
    then show ?thesis by simp
  qed (simp add: maxLineBytes_def)
  then show ?thesis using all by (simp add: scan_inv_def scan_read_def d)
qed

definition child_inv :: "(stream \<times> char) list \<Rightarrow> child \<Rightarrow> bool" where
  "child_inv out s \<longleftrightarrow> (\<forall>x. scan_inv (bytes x out) (bytes x (c_out s)) (c_exited s) (c_scan s x))"

lemma child_inv_step:
  assumes "child_step cap s s'" and "child_inv out s" and "room s" and "\<And>x. fits (bytes x out)"
  shows "child_inv out s'"
  using assms
proof (induction rule: child_step.induct)
  case (child_writes s x c rest)
  then have "\<not> c_exited s" by (auto simp: room_def)
  then have "\<not> sc_done (c_scan s y)" for y using child_writes(3) by (auto simp: child_inv_def scan_inv_def split: if_splits)
  with child_writes(1,3) show ?case by (auto simp: child_inv_def scan_inv_def)
next
  case (scanner_reads s x n)
  have "scan_inv (bytes x out) (bytes x (c_out s)) (c_exited s) (scan_read n (c_scan s x))"
    using scanner_reads by (intro scan_inv_read) (simp_all add: child_inv_def)
  with scanner_reads(5) show ?case by (simp add: child_inv_def)
next
  case (child_exits s)
  then show ?case by (simp add: child_inv_def scan_inv_def)
next
  case (pipe_ends s x)
  have "c_out s = []" using pipe_ends(1,5) by (simp add: room_def)
  moreover have "scan_inv (bytes x out) (bytes x (c_out s)) (c_exited s) (c_scan s x)"
    using pipe_ends(4) by (simp add: child_inv_def)
  ultimately have "lines_of (bytes x out) = sc_lines (c_scan s x) @ lines_of (sc_buf (c_scan s x))"
    using pipe_ends(2,3) by (simp add: scan_inv_def)
  then have "scan_inv (bytes x out) (bytes x (c_out s)) (c_exited s) (scan_eof (c_scan s x))"
    using pipe_ends(1) by (simp add: scan_inv_def scan_eof_def drain_True)
  with pipe_ends(4) show ?case by (simp add: child_inv_def)
qed

lemma child_inv_reach:
  assumes "child_reach cap out s" and "\<And>x. fits (bytes x out)"
  shows "child_inv out s"
  using assms
proof (induction rule: child_reach.induct)
  case start
  show ?case by (simp add: child_inv_def scan_inv_def start_child_def)
next
  case (step s s')
  then show ?case using child_inv_step room_reach by blast
qed

text \<open>
  C24. A run of a child process ends, and loses no line. However the child, the two scanners and the capacity of the pipes
  interleave, as long as no line fills the scanner's buffer: a state that is not the end can step, each step
  takes one from a finite amount of work, so \<open>runProc\<close> returns, and by then both handlers have been given
  exactly the lines of what the child wrote to their pipe.
\<close>
theorem run_returns:
  assumes reach: "child_reach cap out s" and "0 < cap" and fit: "\<And>x. fits (bytes x out)"
  shows "if returned s
    then sc_lines (c_scan s Stdout) = lines_of (bytes Stdout out) \<and> sc_lines (c_scan s Stderr) = lines_of (bytes Stderr out)
    else (\<exists>s'. child_step cap s s') \<and> (\<forall>s'. child_step cap s s' \<longrightarrow> work s' < work s)"
proof -
  have inv: "child_inv out s" using reach fit by (rule child_inv_reach)
  have "\<exists>s'. child_step cap s s'" if running: "\<not> returned s"
  proof (rule ccontr)
    assume "\<not> ?thesis"
    then have "\<And>s'. \<not> child_step cap s s'" by blast
    then obtain x where "c_out s \<noteq> []" "sc_done (c_scan s x)"
      using stuck_cases [OF room_reach [OF reach] _ assms(2)] running by fastforce
    then show False using inv room_reach [OF reach] unfolding child_inv_def room_def scan_inv_def by meson
  qed
  then show ?thesis using inv by (auto simp: child_inv_def scan_inv_def returned_def intro: step_work)
qed

definition at_state :: "(stream \<times> char) list \<Rightarrow> scan \<Rightarrow> scan \<Rightarrow> bool \<Rightarrow> child" where
  "at_state out a b ex = \<lparr>c_out = out, c_scan = (\<lambda>x. case x of Stdout \<Rightarrow> a | Stderr \<Rightarrow> b), c_exited = ex\<rparr>"

lemma at_state_simps:
  "c_out (at_state out a b ex) = out" "c_scan (at_state out a b ex) Stdout = a" "c_scan (at_state out a b ex) Stderr = b"
  "c_exited (at_state out a b ex) = ex" "(at_state out a b ex)\<lparr>c_out := out'\<rparr> = at_state out' a b ex"
  "(at_state out a b ex)\<lparr>c_exited := ex'\<rparr> = at_state out a b ex'"
  "on_scan Stdout f (at_state out a b ex) = at_state out (f a) b ex" "on_scan Stderr f (at_state out a b ex) = at_state out a (f b) ex"
  by (auto simp: at_state_def on_scan_def fun_eq_iff split: stream.split)

lemma demo_run:
  defines "sc p b l d \<equiv> \<lparr>sc_pipe = p, sc_buf = b, sc_lines = l, sc_done = d\<rparr>"
  shows "child_reach 1 [(Stdout, CHR ''a'')] (at_state [] (sc [] [] [''a''] True) (sc [] [] [] True) True)"
proof -
  let ?e = "sc [] [] [] False"
  have nil: "drain True [] = ([], [])" by (subst drain.simps) (simp add: splitLinesCR_def)
  have "\<not> is_eol CHR ''a''" by (simp add: is_eol_def)
  then have split: "splitLinesCR ''a'' True = (1, Some ''a'')" "drain False ''a'' = ([], ''a'')"
    using splitLines_none [of "''a''"] by (simp_all add: splitLinesCR_def)
  then have "drain True ''a'' = ([''a''], [])" using nil by (subst drain.simps) simp
  note empty = nil this split(2)
  have "start_child [(Stdout, CHR ''a'')] = at_state [(Stdout, CHR ''a'')] ?e ?e False"
    by (auto simp: start_child_def at_state_def sc_def fun_eq_iff split: stream.split)
  then have "child_reach 1 [(Stdout, CHR ''a'')] (at_state [(Stdout, CHR ''a'')] ?e ?e False)" by (metis child_reach.start)
  moreover have "child_step 1 (at_state [(Stdout, CHR ''a'')] ?e ?e False) (at_state [] (sc ''a'' [] [] False) ?e False)"
    using child_step.child_writes [of "at_state [(Stdout, CHR ''a'')] ?e ?e False" Stdout "CHR ''a''" "[]" 1]
    by (simp add: at_state_simps sc_def)
  moreover have "child_step 1 (at_state [] (sc ''a'' [] [] False) ?e False) (at_state [] (sc [] ''a'' [] False) ?e False)"
    using child_step.scanner_reads [of "at_state [] (sc ''a'' [] [] False) ?e False" Stdout 1 1]
    by (simp add: at_state_simps sc_def scan_read_def empty maxLineBytes_def)
  moreover have "child_step 1 (at_state [] (sc [] ''a'' [] False) ?e False) (at_state [] (sc [] ''a'' [] False) ?e True)"
    using child_step.child_exits [of "at_state [] (sc [] ''a'' [] False) ?e False" 1] by (simp add: at_state_simps)
  moreover have "child_step 1 (at_state [] (sc [] ''a'' [] False) ?e True) (at_state [] (sc [] [] [''a''] True) ?e True)"
    using child_step.pipe_ends [of "at_state [] (sc [] ''a'' [] False) ?e True" Stdout 1]
    by (simp add: at_state_simps sc_def scan_eof_def empty)
  moreover have "child_step 1 (at_state [] (sc [] [] [''a''] True) ?e True) (at_state [] (sc [] [] [''a''] True) (sc [] [] [] True) True)"
    using child_step.pipe_ends [of "at_state [] (sc [] [] [''a''] True) ?e True" Stderr 1]
    by (simp add: at_state_simps sc_def scan_eof_def empty)
  ultimately show ?thesis by (meson child_reach.step)
qed

lemma run_returns_witness:
  "\<exists>s. child_reach 1 [(Stdout, CHR ''a'')] s \<and> returned s \<and> sc_lines (c_scan s Stdout) = lines_of ''a'' \<and>
     sc_lines (c_scan s Stderr) = lines_of ''''"
proof -
  obtain s where s: "child_reach 1 [(Stdout, CHR ''a'')] s" "returned s"
    using demo_run by (fastforce simp: returned_def at_state_simps)
  have "lines_of ''a'' = [''a'']" by code_simp
  then have "fits (bytes x [(Stdout, CHR ''a'')])" for x by (simp add: fits_def maxLineBytes_def)
  with s run_returns [OF s(1)] show ?thesis by auto
qed

text \<open>After a kill nothing can be in the way any more, whatever the lines are.\<close>

lemma killed_returns:
  assumes "child_reach cap out s" and "0 < cap" and "(child_step cap)\<^sup>*\<^sup>* (cut_off s) t"
  shows "returned t \<or> (\<exists>t'. child_step cap t t' \<and> work t' < work t)"
proof -
  have "room (cut_off s)" using room_reach [OF assms(1)] by (simp add: room_def cut_off_def)
  have "room t \<and> c_out t = []"
    using assms(3)
  proof (induction rule: rtranclp_induct)
    case base
    then show ?case using \<open>room (cut_off s)\<close> by (simp add: cut_off_def)
  next
    case (step t u)
    then show ?case using room_step [OF step(2)] by (auto elim: child_step.cases)
  qed
  then show ?thesis using stuck_cases [of t cap] assms(2) step_work by fastforce
qed

subsection \<open>A line that does not fit\<close>

text \<open>
  Once a scanner has given up nobody empties its pipe. A child that writes a line longer than the buffer and the pipe together
  never gets to the end of it: it does not exit, and \<open>runProc\<close> waits until the context is canceled.
\<close>

definition unread_inv :: "stream \<Rightarrow> (stream \<times> char) list \<Rightarrow> nat \<Rightarrow> child \<Rightarrow> bool" where
  "unread_inv x out cap s \<longleftrightarrow> \<not> c_exited s \<and> length (sc_pipe (c_scan s x)) \<le> cap \<and>
     int (length (sc_buf (c_scan s x))) \<le> maxLineBytes \<and>
     sc_buf (c_scan s x) @ sc_pipe (c_scan s x) @ bytes x (c_out s) = bytes x out"

lemma overlong_line_hangs:
  assumes "child_reach cap out s" and "list_all (\<lambda>c. \<not> is_eol c) (bytes x out)"
    and "maxLineBytes + int cap < int (length (bytes x out))"
  shows "unread_inv x out cap s"
  using assms(1)
proof (induction rule: child_reach.induct)
  case start
  show ?case by (simp add: unread_inv_def start_child_def maxLineBytes_def)
next
  case (step s s')
  note inv = step.IH [unfolded unread_inv_def]
  from step.hyps(2) show ?case
  proof cases
    case (child_writes y c rest)
    then show ?thesis using inv by (auto simp: unread_inv_def)
  next
    case (scanner_reads y n)
    let ?sc = "c_scan s x"
    have "list_all (\<lambda>c. \<not> is_eol c) (sc_buf ?sc @ sc_pipe ?sc)" using inv assms(2) by (metis append_assoc list_all_append)
    then have "list_all (\<lambda>c. \<not> is_eol c) (sc_buf ?sc @ take n (sc_pipe ?sc))"
      by (auto simp: list_all_iff dest: in_set_takeD)
    moreover have "take n (sc_pipe ?sc) @ drop n (sc_pipe ?sc) @ bytes x (c_out s) = sc_pipe ?sc @ bytes x (c_out s)"
      by simp
    ultimately show ?thesis using scanner_reads inv by (auto simp: unread_inv_def scan_read_def splitLines_none)
  next
    case child_exits
    then have "length (bytes x out) = length (sc_buf (c_scan s x)) + length (sc_pipe (c_scan s x))"
      using inv by (metis append_Nil2 bytes_simps(1) length_append)
    then show ?thesis using inv assms(3) by linarith
  next
    case (pipe_ends y)
    then show ?thesis using inv by simp
  qed
qed

end
