(* ===== verification/BudgetSpec.thy ===== *)
theory BudgetSpec
  imports Runners ParamsSpec
begin

text \<open>
  The bitrate of a size target: with every rounding of the float arithmetic accounted for, a video at that
  bitrate, with its audio, fits the size the client asked for.
\<close>

text \<open>A calculation whose exact result is at most \<open>b\<close>; it overflows only when \<open>b\<close> exceeds \<open>l\<close>.\<close>

definition at_most :: "rat \<Rightarrow> rat option \<Rightarrow> rat \<Rightarrow> bool" where
  "at_most l r b \<longleftrightarrow> (case r of Some v \<Rightarrow> 0 \<le> v \<and> v \<le> b | None \<Rightarrow> l \<le> b)"

lemma at_most_step:
  assumes "at_most l r b" and "\<And>v. 0 \<le> v \<Longrightarrow> v \<le> b \<Longrightarrow> 0 \<le> f v \<and> f v * (1 + 1 / 1000000) + 1 / 1000000 \<le> b'"
    and "l \<le> b \<Longrightarrow> l' \<le> b'" and "l' \<le> 2 ^ 100"
  shows "at_most l' (fl_bind r f) b'"
proof (cases r)
  case (Some v)
  with assms(1) have f: "0 \<le> f v" "f v * (1 + 1 / 1000000) + 1 / 1000000 \<le> b'" using assms(2) by (auto simp: at_most_def)
  show ?thesis
  proof (cases "fl (f v)")
    case None
    have "2 ^ 100 \<le> f v" by (rule fl_overflow [OF f(1) None])
    with f(2) assms(4) show ?thesis by (simp add: at_most_def fl_bind_def Some None)
  next
    case w: (Some w)
    show ?thesis using fl_upper [OF f(1) w] f(2) by (simp add: at_most_def fl_bind_def Some w)
  qed
qed (use assms in \<open>simp add: at_most_def fl_bind_def\<close>)

lemma overhead: "0 \<le> sizeTargetOverhead" "sizeTargetOverhead \<le> 981 / 1000"
proof -
  have o: "0 \<le> v \<and> v \<le> 981 / 1000" if "fl (98 / 100) = Some v" for v
    using fl_upper [OF _ that] by (simp add: field_simps)
  have "fl (98 / 100) \<noteq> None"
  proof
    assume "fl (98 / 100) = None"
    then have "(2::rat) ^ 100 \<le> 98 / 100" by (rule fl_overflow [rotated]) simp
    then show False by simp
  qed
  then show "0 \<le> sizeTargetOverhead" "sizeTargetOverhead \<le> 981 / 1000"
    using o by (auto simp: sizeTargetOverhead_def fl_fin_def)
qed

lemma rounding_slack:
  fixes x q :: rat
  shows "0 \<le> q \<Longrightarrow> x \<le> 8003 * q \<Longrightarrow> x * (1 + 1 / 1000000) + 1 / 1000000 \<le> 8004 * q + 1 / 2"
    and "0 \<le> q \<Longrightarrow> x \<le> (8004 * q + 1 / 2) * (981 / 1000) \<Longrightarrow> x * (1 + 1 / 1000000) + 1 / 1000000 \<le> 7900 * q + 1"
  by (simp_all add: field_simps)

lemma small_difference: "0 \<le> n \<Longrightarrow> n < 2 ^ 60 \<Longrightarrow> 0 \<le> a \<Longrightarrow> a \<le> 1000 \<Longrightarrow> wrap64 (n - a) = n - a"
  by (rule wrap64_id) simp_all

lemma totalKbps_bound:
  assumes "1 \<le> m" and "m \<le> 65536" and "0 < d"
  shows "at_most (2 ^ 80) (totalKbps m d) (7900 * (of_int m / d) + 1)"
proof -
  let ?m = "of_int m :: rat" let ?q = "?m / d"
  have m: "1 \<le> ?m" "?m \<le> 65536" using assms(1,2) by simp_all
  have q: "0 \<le> ?q" using m assms(3) by simp
  have x0: "at_most (2 ^ 90) (fl ?m) (10001 / 10000 * ?m)"
    using at_most_step [of "2 ^ 90" "Some ?m" ?m "\<lambda>v. v" "10001 / 10000 * ?m" "2 ^ 90"] m by (simp add: at_most_def fl_bind_def)
  have x1: "at_most (2 ^ 90) (fl_bind (fl ?m) (\<lambda>v. v * 1000000)) (1000200 * ?m)"
    by (rule at_most_step [OF x0]) (use m in auto)
  have x2: "at_most (2 ^ 90) (fl_bind (fl_bind (fl ?m) (\<lambda>v. v * 1000000)) (\<lambda>v. v * 8)) (8002000 * ?m)"
    by (rule at_most_step [OF x1]) (use m in auto)
  have x3: "at_most (2 ^ 90) (fl_bind (fl_bind (fl_bind (fl ?m) (\<lambda>v. v * 1000000)) (\<lambda>v. v * 8)) (\<lambda>v. v / 1000)) (8003 * ?m)"
    by (rule at_most_step [OF x2]) (use m in auto)
  have x4: "at_most (2 ^ 90) (fl_bind (fl_bind (fl_bind (fl_bind (fl ?m) (\<lambda>v. v * 1000000)) (\<lambda>v. v * 8)) (\<lambda>v. v / 1000)) (\<lambda>v. v / d)) (8004 * ?q + 1 / 2)"
  proof (rule at_most_step [OF x3])
    fix v assume v: "0 \<le> v" "v \<le> 8003 * ?m"
    then have "v / d \<le> 8003 * ?q" using assms(3) by (simp add: field_simps)
    moreover have "0 \<le> v / d" using v(1) assms(3) by simp
    ultimately show "0 \<le> v / d \<and> v / d * (1 + 1 / 1000000) + 1 / 1000000 \<le> 8004 * ?q + 1 / 2"
      using q by (intro conjI rounding_slack)
  qed (use m in auto)
  show ?thesis
    unfolding totalKbps_def Let_def
  proof (rule at_most_step [OF x4])
    fix v assume v: "0 \<le> v" "v \<le> 8004 * ?q + 1 / 2"
    have "v * sizeTargetOverhead \<le> (8004 * ?q + 1 / 2) * (981 / 1000)" using overhead v q by (intro mult_mono) simp_all
    moreover have "0 \<le> v * sizeTargetOverhead" using overhead v(1) by simp
    ultimately show "0 \<le> v * sizeTargetOverhead \<and> v * sizeTargetOverhead * (1 + 1 / 1000000) + 1 / 1000000 \<le> 7900 * ?q + 1"
      using q by (intro conjI rounding_slack)
  qed (use q in auto)
qed

lemma targetVideoKbps_fits:
  assumes "1 \<le> m" "m \<le> 65536" "0 \<le> a" "a \<le> 1000" and k: "targetVideoKbps m d a = Inr k"
  shows "0 < d \<and> of_int (k + a) * d \<le> 8000 * of_int m"
proof -
  have d: "0 < d" using k by (auto simp: targetVideoKbps_def split: if_splits)
  define f where "f = float_to_int (totalKbps m d)"
  define q where "q = of_int m / d"
  have f: "100 \<le> wrap64 (f - a)" and k: "k = min (wrap64 (f - a)) 500000"
    using k d by (auto simp: targetVideoKbps_def f_def Let_def minVideoKbps_def maxVideoKbps_def split: if_splits)
  have tot: "at_most (2 ^ 80) (totalKbps m d) (7900 * q + 1)"
    unfolding q_def by (rule totalKbps_bound [OF assms(1,2) d])
  have "of_int (k + a) \<le> 8000 * q"
  proof (cases "\<exists>w. totalKbps m d = Some w \<and> w < 2 ^ 60")
    case True
    then obtain w where w: "totalKbps m d = Some w" "0 \<le> w" "w \<le> 7900 * q + 1" "w < 2 ^ 60"
      using tot by (auto simp: at_most_def)
    have r: "0 \<le> \<lfloor>w\<rfloor>" "\<lfloor>w\<rfloor> < 2 ^ 60" "of_int \<lfloor>w\<rfloor> \<le> w" using w(2,4) by (simp_all add: floor_less_iff)
    then have fw: "f = \<lfloor>w\<rfloor>" using w(1,2) by (simp add: f_def float_to_int_def Let_def is_int64_def int64_min_def int64_max_def)
    have "wrap64 (f - a) = f - a" unfolding fw by (rule small_difference [OF r(1,2) assms(3,4)])
    with f k have "100 \<le> f - a" "k + a \<le> f" by simp_all
    then have "(of_int 100 :: rat) \<le> of_int f" "of_int (k + a) \<le> (of_int f :: rat)"
      using assms(3) unfolding of_int_le_iff by simp_all
    with r(3) w(3) fw show ?thesis by linarith
  next
    case False
    then have "2 ^ 60 \<le> 7900 * q + 1" using tot by (auto simp: at_most_def split: option.splits)
    moreover have "of_int (k + a) \<le> (of_int 501000 :: rat)" using k assms(4) by (simp only: of_int_le_iff)
    ultimately show ?thesis by simp
  qed
  then show ?thesis using d by (simp add: q_def field_simps)
qed


lemma audioKbps_small: "allowed AudioBitrates (es_AudioBitrate s) \<Longrightarrow> 0 \<le> audioKbps s \<and> audioKbps s \<le> 1000"
proof -
  have "\<forall>b \<in> set (map fst AudioBitrates). case Atoi b of None \<Rightarrow> False | Some n \<Rightarrow> 0 \<le> n \<and> n \<le> 1000"
    by code_simp
  then show "allowed AudioBitrates (es_AudioBitrate s) \<Longrightarrow> 0 \<le> audioKbps s \<and> audioKbps s \<le> 1000"
    unfolding allowed_def audioKbps_def by (fastforce split: option.splits)
qed

text \<open>
  C29. A size target is kept. When a compress job asks for a file size and a bitrate is chosen for an input
  of \<open>d\<close> seconds, that bitrate lies within 100 and 500000 kbps, and video and audio together, over the whole
  length, take at most the 8000 kbit a megabyte has, for every megabyte asked for. The proof bounds every rounding
  and covers the overflow of the budget to infinity.
\<close>
theorem size_target_fits:
  assumes "specFor t raw = Inr s" and "0 < es_TargetMB s" and "video_budget s (Some d) = Inr k"
  shows "100 \<le> k \<and> k \<le> 500000 \<and> 0 < d \<and> of_int (k + audioKbps s) * d \<le> 8000 * of_int (es_TargetMB s)"
proof -
  have k: "targetVideoKbps (es_TargetMB s) d (audioKbps s) = Inr k"
    using assms(2,3) by (auto simp: video_budget_def split: sum.splits)
  have "t = TypeCompress" using assms(1,2) by (cases t) (auto split: sum.splits)
  with assms(1,2) obtain p where "params_ok (PCompress p)" "es_TargetMB s = cm_TargetSizeMB p" "es_AudioBitrate s = cm_AudioBitrate p"
    by (auto simp: ParseCompress_def params_ok_iff simp del: params_ok.simps split: sum.splits)
  then have "1 \<le> es_TargetMB s" "es_TargetMB s \<le> 65536" "0 \<le> audioKbps s" "audioKbps s \<le> 1000"
    using assms(2) audioKbps_small [of s] by (auto split: if_splits)
  from targetVideoKbps_fits [OF this k] k show ?thesis
    by (auto simp: targetVideoKbps_def minVideoKbps_def maxVideoKbps_def Let_def split: if_splits)
qed

definition demo_target :: "json option" where
  "demo_target = Some (JObj [(''target'', JStr ''target_size''), (''target_size_mb'', JInt 25)])"

lemma demo_total: "totalKbps 25 64 = Some (6125 / 2)"
proof -
  have o: "fl (98 / 100) = Some (8827055269646172 / 2 ^ 53)"
    using fl_eqI [of "- 53" "98 / 100" 8827055269646172] by (simp add: pow2_def round_even_def floor_ratio Let_def)
  have p: "fl (3125 * (8827055269646172 / 2 ^ 53)) = Some (6125 / 2)"
    using fl_eqI [of "- 41" "3125 * (8827055269646172 / 2 ^ 53)" 6734508720128000] by (simp add: pow2_def round_even_def floor_ratio Let_def)
  have "fl 25 = Some 25" using fl_eqI [of "- 48" 25 "25 * 2 ^ 48"] by (simp add: pow2_def round_even_def floor_ratio Let_def)
  moreover have "fl 25000000 = Some 25000000" using fl_eqI [of "- 28" 25000000 "25000000 * 2 ^ 28"] by (simp add: pow2_def round_even_def floor_ratio Let_def)
  moreover have "fl 200000000 = Some 200000000" using fl_eqI [of "- 25" 200000000 "200000000 * 2 ^ 25"] by (simp add: pow2_def round_even_def floor_ratio Let_def)
  moreover have "fl 200000 = Some 200000" using fl_eqI [of "- 35" 200000 "200000 * 2 ^ 35"] by (simp add: pow2_def round_even_def floor_ratio Let_def)
  moreover have "fl 3125 = Some 3125" using fl_eqI [of "- 41" 3125 "3125 * 2 ^ 41"] by (simp add: pow2_def round_even_def floor_ratio Let_def)
  ultimately show ?thesis using o p by (simp add: totalKbps_def fl_bind_def sizeTargetOverhead_def fl_fin_def Let_def)
qed

definition demo_spec :: encodeSpec where
  "demo_spec = \<lparr>es_Container = ''mp4'', es_VideoCodec = ''h264'', es_Speed = ''medium'', es_CRF = 0, es_Resolution = ''source'',
     es_FrameRate = ''source'', es_AudioCodec = ''aac'', es_AudioBitrate = ''128'', es_StripMetadata = False,
     es_Stage = ''encoding'', es_TargetMB = 25, es_VideoKbps = 0, es_Pass = 0, es_PassLog = ''''\<rparr>"

text \<open>25 MB for 64 seconds: 2934 kbps of video beside 128 of audio.\<close>

lemma size_target_fits_witness: "(100::int) \<le> 2934 \<and> of_int (2934 + audioKbps demo_spec) * 64 \<le> (8000 * of_int (es_TargetMB demo_spec) :: rat)"
proof -
  have a: "audioKbps demo_spec = 128" by code_simp
  have "specFor TypeCompress demo_target = Inr demo_spec" by code_simp
  moreover have "0 < es_TargetMB demo_spec" by (simp add: demo_spec_def)
  moreover have "video_budget demo_spec (Some 64) = Inr 2934"
  proof -
    have "targetVideoKbps 25 64 128 = Inr 2934"
      by (simp add: targetVideoKbps_def demo_total floor_ratio float_to_int_def is_int64_def int64_min_def int64_max_def wrap64_id
          minVideoKbps_def maxVideoKbps_def Let_def)
    with a show ?thesis by (simp add: video_budget_def demo_spec_def)
  qed
  ultimately show ?thesis using size_target_fits [of TypeCompress demo_target demo_spec 64 2934] by blast
qed

end
