(* ===== verification/ProgressSpec.thy ===== *)
theory ProgressSpec
  imports Progress
begin

text \<open>
  The progress bar of a two-pass encode: what \<open>runTwoPass\<close> promises in its comment, proved for times within the
  probed length, and where it fails.
\<close>

text \<open>The percentages a list of reports shows; a negative one stands for unknown and leaves the bar where it is.\<close>

definition known :: "Progress list \<Rightarrow> rat list" where
  "known ps = filter (\<lambda>p. 0 \<le> p) (map Percent ps)"

text \<open>The line that ends a pass, and the time a line carries.\<close>

definition is_end :: "string \<Rightarrow> bool" where
  "is_end l \<longleftrightarrow> (case key_value l of None \<Rightarrow> False | Some (k, v) \<Rightarrow> k = ''progress'' \<and> v = ''end'')"

definition time_of :: "(string \<Rightarrow> rat option option) \<Rightarrow> string \<Rightarrow> rat option option" where
  "time_of parse l = (case key_value l of None \<Rightarrow> None | Some (k, v) \<Rightarrow> if is_time k then accepted parse v else None)"

text \<open>
  A pass as a decoder runs: from \<open>x\<close> on its times do not decrease and stay within the length \<open>t\<close>, and nothing follows
  the end.
\<close>

fun paced :: "(string \<Rightarrow> rat option option) \<Rightarrow> rat \<Rightarrow> rat \<Rightarrow> string list \<Rightarrow> bool" where
  "paced parse t x [] \<longleftrightarrow> True"
| "paced parse t x (l # ls) \<longleftrightarrow>
     (if is_end l then ls = []
      else case time_of parse l of
        None \<Rightarrow> paced parse t x ls
      | Some None \<Rightarrow> False
      | Some (Some n) \<Rightarrow> x \<le> n \<and> n \<le> t \<and> paced parse t n ls)"

text \<open>Half a bar from \<open>b\<close> on, at the fraction \<open>q\<close> of a pass.\<close>

definition part_percent :: "rat \<Rightarrow> rat \<Rightarrow> rat" where
  "part_percent b q = fl_fin (b + fl_fin (q * 50))"

lemma half_bar:
  assumes b: "b = 0 \<or> b = 50" and q: "0 \<le> q" "q \<le> r" "r \<le> 1"
  shows "fl (b + fl_fin (q * 50)) = Some (part_percent b q) \<and> fl (q * 50) = Some (fl_fin (q * 50)) \<and>
    b \<le> part_percent b q \<and> part_percent b q \<le> part_percent b r \<and> part_percent b r \<le> b + 50"
proof -
  have fl50: "fl 50 = Some 50" "fl 100 = Some 100" "fl b = Some b" "fl (b + 50) = Some (b + 50)"
    using fl_int [of 50] fl_int [of 100] b by auto
  obtain vr where vr: "fl (r * 50) = Some vr" "0 \<le> vr" "vr \<le> 50"
    using fl_mono [of "r * 50" 50] q fl50(1) by auto
  obtain vq where vq: "fl (q * 50) = Some vq" "0 \<le> vq" "vq \<le> vr"
    using fl_mono [of "q * 50" "r * 50"] q vr(1) by auto
  have b0: "0 \<le> b" using b by auto
  obtain wr where wr: "fl (b + vr) = Some wr" "wr \<le> b + 50"
    using fl_mono [of "b + vr" "b + 50"] vr b0 fl50(4) by auto
  obtain wq where wq: "fl (b + vq) = Some wq" "wq \<le> wr"
    using fl_mono [of "b + vq" "b + vr"] vq b0 wr(1) by auto
  have "b \<le> wq" using fl_mono [of b "b + vq"] wq(1) vq(2) b0 fl50(3) by auto
  with wr wq vr vq show ?thesis by (simp add: part_percent_def fl_fin_def)
qed

lemma scale_half:
  assumes "b = 0 \<or> b = 50" "0 \<le> q" "q \<le> 1" and f: "fp_base f = b" "fp_span f = 50"
  shows "fp_scale f (Some q) = part_percent b q"
proof -
  from half_bar [OF assms(1,2) order_refl assms(3)] have "fl (b + fl_fin (q * 50)) = Some (part_percent b q)"
      "fl (q * 50) = Some (fl_fin (q * 50))" "b \<le> part_percent b q" "part_percent b q \<le> b + 50" by auto
  with assms(1) show ?thesis by (auto simp: fp_scale_def fl_bind_def f clampPercent_def)
qed

lemma fraction_bounds:
  assumes "0 \<le> x" "x \<le> y" "y \<le> t" "0 < t" shows "\<exists>q r. fl (x / t) = Some q \<and> fl (y / t) = Some r \<and> 0 \<le> q \<and> q \<le> r \<and> r \<le> 1"
proof -
  have "fl 1 = Some 1" using fl_int [of 1] by simp
  then obtain r where r: "fl (y / t) = Some r" "r \<le> 1"
    using fl_mono [of "y / t" 1] assms by (auto simp: field_simps)
  obtain q where "fl (x / t) = Some q" "0 \<le> q" "q \<le> r"
    using fl_mono [of "x / t" "y / t" r] assms r by (auto simp: divide_right_mono)
  with r show ?thesis by auto
qed

text \<open>The three kinds of lines.\<close>

lemma fp_line_cases:
  obtains (End) p where "is_end l" "fp_line parse l f = (f, Some p)" "Percent p = fp_scale f (Some 1)"
  | (Time) n where "\<not> is_end l" "time_of parse l = Some n" "fp_line parse l f = (f\<lparr>fp_outUS := n, fp_haveTime := True\<rparr>, None)"
  | (Other) f' r where "\<not> is_end l" "time_of parse l = None" "fp_line parse l f = (f', r)" "\<exists>v. f' = f\<lparr>fp_speed := v\<rparr>"
      "r = None \<or> (\<exists>p. r = Some p \<and> (Percent p = - 1 \<or> Percent p = fp_scale f (fp_fraction f)))"
proof (cases "key_value l")
  case None
  then show thesis by (intro Other [of f None]) (auto simp: is_end_def time_of_def fp_line_def intro: exI [of _ "fp_speed f"])
next
  case (Some kv)
  then obtain k v where kv: "key_value l = Some (k, v)" by (cases kv) auto
  consider "is_time k" | "k = ''speed''" | "k = ''progress''" | "\<not> is_time k" "k \<noteq> ''speed''" "k \<noteq> ''progress''" by blast
  then show thesis
  proof cases
    case 1
    then have "\<not> is_end l" by (auto simp: is_end_def kv is_time_def)
    show thesis
    proof (cases "accepted parse v")
      case None
      with 1 \<open>\<not> is_end l\<close> show thesis
        by (intro Other [of f None]) (auto simp: time_of_def fp_line_def kv intro: exI [of _ "fp_speed f"])
    next
      case (Some n)
      with 1 \<open>\<not> is_end l\<close> show thesis by (intro Time [of n]) (auto simp: time_of_def fp_line_def kv)
    qed
  next
    case 2
    then show thesis
      by (intro Other [of "if v \<noteq> ''N/A'' \<and> v \<noteq> ''0x'' then f\<lparr>fp_speed := v\<rparr> else f" None])
        (auto simp: is_end_def time_of_def is_time_def fp_line_def kv intro: exI [of _ "fp_speed f"])
  next
    case 3
    show thesis
    proof (cases "v = ''end''")
      case True
      with 3 show thesis by (intro End) (auto simp: is_end_def is_time_def fp_line_def kv)
    next
      case False
      with 3 show thesis
        by (intro Other [of f "snd (fp_line parse l f)"])
          (auto simp: is_end_def time_of_def is_time_def fp_line_def kv intro: exI [of _ "fp_speed f"])
    qed
  next
    case 4
    then show thesis
      by (intro Other [of f None]) (auto simp: is_end_def time_of_def fp_line_def kv intro: exI [of _ "fp_speed f"])
  qed
qed

lemma pass_bar:
  assumes "paced parse t x ls" and b: "b = 0 \<or> b = 50" and t: "0 < t" "fl (fp_duration f * 1000000) = Some t"
    and f: "fp_base f = b" "fp_span f = 50" "fp_outUS f = Some x" and x: "0 \<le> x" "x \<le> t"
  shows "sorted (known (encode_lines parse ls f)) \<and>
    list_all (\<lambda>p. part_percent b (fl_fin (x / t)) \<le> p \<and> p \<le> b + 50) (known (encode_lines parse ls f))"
  using assms(1) f t(2) x
proof (induction ls arbitrary: f x)
  case (Cons l ls)
  obtain q where q: "fl (x / t) = Some q" "0 \<le> q" "q \<le> 1" using fraction_bounds [OF Cons.prems(6) order_refl Cons.prems(7) t(1)] by auto
  have one: "part_percent b q \<le> part_percent b 1" "part_percent b 1 \<le> b + 50" "0 \<le> part_percent b q"
    using half_bar [OF b q(2,3)] b by auto
  have frac: "fp_fraction f = Some q" using Cons.prems q by (simp add: fp_fraction_def fl_bind_def)
  show ?case
  proof (cases rule: fp_line_cases [of l parse f])
    case (End p)
    then have "ls = []" using Cons.prems(1) by simp
    with End one q show ?thesis
      using scale_half [OF b, of 1 f] Cons.prems(2,3) by (auto simp: known_def fl_fin_def)
  next
    case (Time n)
    then obtain m where n: "n = Some m" "x \<le> m" "m \<le> t" "paced parse t m ls" using Cons.prems(1) by (auto split: option.splits)
    then obtain r where r: "fl (m / t) = Some r" "q \<le> r" "r \<le> 1"
      using fraction_bounds [OF Cons.prems(6) n(2,3) t(1)] q(1) by auto
    have "part_percent b q \<le> part_percent b r" using half_bar [OF b q(2) r(2,3)] by simp
    moreover have "sorted (known (encode_lines parse ls (f\<lparr>fp_outUS := n, fp_haveTime := True\<rparr>))) \<and>
        list_all (\<lambda>p. part_percent b (fl_fin (m / t)) \<le> p \<and> p \<le> b + 50) (known (encode_lines parse ls (f\<lparr>fp_outUS := n, fp_haveTime := True\<rparr>)))"
      using Cons.prems n by (intro Cons.IH) auto
    ultimately show ?thesis using Time(3) q(1) r(1) by (auto simp: fl_fin_def list_all_iff)
  next
    case (Other f' r)
    then have ih: "sorted (known (encode_lines parse ls f')) \<and>
        list_all (\<lambda>p. part_percent b (fl_fin (x / t)) \<le> p \<and> p \<le> b + 50) (known (encode_lines parse ls f'))"
      using Cons.prems by (intro Cons.IH) auto
    have "fp_scale f (fp_fraction f) = part_percent b q" using scale_half [OF b q(2,3) Cons.prems(2,3)] frac by simp
    with Other(5) have "known (encode_lines parse (l # ls) f) = known (encode_lines parse ls f') \<or>
        known (encode_lines parse (l # ls) f) = part_percent b q # known (encode_lines parse ls f')"
      using Other(3) one(3) by (auto simp: known_def)
    with ih q(1) one show ?thesis by (auto simp: fl_fin_def list_all_iff)
  qed
qed (simp add: known_def)

text \<open>
  C30. The bar never walks back. When both passes report times that do not decrease and stay within the length the
  probe found, and \<open>progress=end\<close> is the last line of a pass, the percentages \<open>runTwoPass\<close> emits, unknown ones aside, are
  in ascending order from the first pass through the second and never exceed 100, whatever the rounding of the
  float arithmetic does.
\<close>
theorem two_pass_monotone:
  assumes "fl (d * 1000000) = Some t" and "0 < t" and "paced parse t 0 ls1" and "paced parse t 0 ls2"
  shows "sorted (known (two_pass_reports parse d ls1 ls2)) \<and> list_all (\<lambda>p. p \<le> 100) (known (two_pass_reports parse d ls1 ls2))"
proof -
  have zero: "part_percent b (fl_fin (0 / t)) \<ge> b" if "b = 0 \<or> b = 50" for b
    using half_bar [OF that, of 0 0] by (simp add: fl_fin_def)
  have pass: "sorted (known (encode_lines parse ls (pass_progress d stage b))) \<and>
      list_all (\<lambda>p. b \<le> p \<and> p \<le> b + 50) (known (encode_lines parse ls (pass_progress d stage b)))"
    if "paced parse t 0 ls" "b = 0 \<or> b = 50" for ls stage b
    using pass_bar [OF that assms(2), of "pass_progress d stage b"] zero [OF that(2)] assms(1,2)
    by (force simp: pass_progress_def list_all_iff)
  have "known (two_pass_reports parse d ls1 ls2) =
      [0] @ known (encode_lines parse ls1 (pass_progress d ''analyzing'' 0)) @ [50] @
      known (encode_lines parse ls2 (pass_progress d ''encoding'' 50))"
    by (simp add: two_pass_reports_def known_def emitPercent_def clampPercent_def)
  with pass [OF assms(3), of 0 "''analyzing''"] pass [OF assms(4), of 50 "''encoding''"] show ?thesis
    by (auto simp: sorted_append list_all_iff) force+
qed


definition demo_parse :: "string \<Rightarrow> rat option option" where
  "demo_parse v = (if v = ''15000000'' then Some (Some 15000000) else if v = ''5000000'' then Some (Some 5000000) else None)"

definition demo_lines :: "string list" where
  "demo_lines = [''frame=120'', ''out_time_us=5000000'', ''speed=1.5x'', ''progress=continue'', ''out_time_us=N/A'', ''progress=end'']"

lemma two_pass_monotone_witness:
  "sorted (known (two_pass_reports demo_parse 20 demo_lines demo_lines)) \<and> length (known (two_pass_reports demo_parse 20 demo_lines [])) > 1"
proof (rule conjI)
  have "fl (20 * 1000000) = Some 20000000" using fl_int [of 20000000] by simp
  moreover have "paced demo_parse 20000000 0 demo_lines" by code_simp
  ultimately show "sorted (known (two_pass_reports demo_parse 20 demo_lines demo_lines))"
    by (intro two_pass_monotone [THEN conjunct1]) simp_all
  show "length (known (two_pass_reports demo_parse 20 demo_lines [])) > 1"
    by (simp add: two_pass_reports_def known_def emitPercent_def clampPercent_def)
qed

text \<open>A position past the length the probe found takes the first pass into the second half of the bar.\<close>

lemma overshoot_walks_back:
  "\<not> sorted (known (two_pass_reports demo_parse 10 [''out_time_us=15000000'', ''progress=continue''] []))"
proof -
  have kv: "key_value ''out_time_us=15000000'' = Some (''out_time_us'', ''15000000'')"
      "key_value ''progress=continue'' = Some (''progress'', ''continue'')" by code_simp+
  have "fl (3 / 2) = Some (3 / 2)" using fl_eqI [of "- 52" "3 / 2" "3 * 2 ^ 51"] round_even_int [of 6755399441055744] by (simp add: pow2_def)
  moreover have "fl 10000000 = Some 10000000" "fl 75 = Some 75" using fl_int [of 10000000] fl_int [of 75] by simp_all
  ultimately show ?thesis
    by (simp add: two_pass_reports_def known_def emitPercent_def clampPercent_def fp_line_def kv accepted_def demo_parse_def is_time_def
        pass_progress_def fp_fraction_def fp_scale_def fl_bind_def)
qed

end
