(* ===== verification/Config.thy ===== *)
theory Config
  imports GoPath Proxy
begin

text \<open>
  The configuration of \<open>internal/config/config.go\<close>: environment variables with their defaults, the checks of
  \<open>Load\<close>, and the questions the other packages ask of it. \<open>look\<close> is \<open>os.LookupEnv\<close>, \<open>mkdir\<close> tells whether
  a directory could be created. Warnings that are only logged are left out.
\<close>

subsection \<open>Environment variables\<close>

type_synonym environment = "string \<Rightarrow> string option"

definition env_or :: "environment \<Rightarrow> string \<Rightarrow> string \<Rightarrow> string" where
  "env_or look key def = (case look key of Some v \<Rightarrow> if v \<noteq> '''' then v else def | None \<Rightarrow> def)"

definition envInt :: "environment \<Rightarrow> string \<Rightarrow> int \<Rightarrow> int" where
  "envInt look key def =
     (case look key of
        None \<Rightarrow> def
      | Some v \<Rightarrow> if v = '''' then def else (case Atoi (TrimSpace v) of None \<Rightarrow> def | Some n \<Rightarrow> n))"

definition envBool :: "environment \<Rightarrow> string \<Rightarrow> bool \<Rightarrow> bool" where
  "envBool look key def =
     (case look key of
        None \<Rightarrow> def
      | Some v \<Rightarrow>
          if v = '''' then def
          else let w = ToLower (TrimSpace v) in
            if w \<in> set [''1'', ''true'', ''yes'', ''on''] then True
            else if w \<in> set [''0'', ''false'', ''no'', ''off''] then False
            else def)"

datatype Level = LevelDebug | LevelInfo | LevelWarn | LevelError

datatype config_error =
  UnknownLevel string | BadProxy string | BadHost string | TooFewJobs | UploadRange int | TimeoutRange int
| BadXAccel string | BadRetention int | AuthHalfSet | NoDir string

definition parseLevel :: "string \<Rightarrow> (config_error, Level) result" where
  "parseLevel s =
     (let w = ToLower (TrimSpace s) in
      if w = ''debug'' then Inr LevelDebug
      else if w = ''info'' then Inr LevelInfo
      else if w = ''warn'' \<or> w = ''warning'' then Inr LevelWarn
      else if w = ''error'' then Inr LevelError
      else Inl (UnknownLevel s))"

subsection \<open>Lists\<close>

fun parse_fields :: "string list \<Rightarrow> Prefix list \<Rightarrow> (config_error, Prefix list) result" where
  "parse_fields [] out = Inr out"
| "parse_fields (f # fs) out =
     (let field = TrimSpace f in
      if field = '''' then parse_fields fs out
      else case ParsePrefix field of
        Some p \<Rightarrow> parse_fields fs (out @ [Masked p])
      | None \<Rightarrow> (case ParseAddr field of
          None \<Rightarrow> Inl (BadProxy field)
        | Some addr \<Rightarrow> parse_fields fs (out @ [PrefixFrom (Unmap addr) (BitLen (Unmap addr))])))"

definition parsePrefixes :: "string \<Rightarrow> (config_error, Prefix list) result" where
  "parsePrefixes s = parse_fields (Split s CHR '','') []"

definition isBracketedIPv6 :: "string \<Rightarrow> bool" where
  "isBracketedIPv6 host =
     (if \<not> HasPrefix host ''['' \<or> \<not> HasSuffix host '']'' then False
      else case ParseAddr (drop 1 (take (length host - 1) host)) of None \<Rightarrow> False | Some addr \<Rightarrow> Is6 addr)"

fun parse_hosts :: "string list \<Rightarrow> string list \<Rightarrow> (config_error, string list) result" where
  "parse_hosts [] out = Inr out"
| "parse_hosts (field # fs) out =
     (let host = ToLower (TrimSpace field) in
      if host = '''' then parse_hosts fs out
      else if host = ''*'' then Inr [''*'']
      else let body = TrimPrefix host ''*.'' in
        if \<not> isBracketedIPv6 body \<and> (body = '''' \<or> ContainsAny body ''*:/@[] '') then Inl (BadHost field)
        else parse_hosts fs (out @ [host]))"

definition parseHosts :: "string \<Rightarrow> (config_error, string list) result" where
  "parseHosts s = parse_hosts (Split s CHR '','') []"

subsection \<open>Loading\<close>

record Config =
  cf_Addr :: string
  cf_LogLevel :: Level
  cf_DataDir :: string
  cf_DBPath :: string
  cf_DownloadDir :: string
  cf_TmpDir :: string
  cf_UploadDir :: string
  cf_MaxUploadMiB :: int
  cf_MaxConcurrentJobs :: int
  cf_QueueDepth :: int
  cf_DefaultRetentionDays :: int
  cf_JobTimeoutMinutes :: int
  cf_DisableUpdateChecks :: bool
  cf_AuthUsername :: string
  cf_AuthPasswordHash :: string
  cf_SessionTTLHours :: int
  cf_TrustedProxies :: "Prefix list"
  cf_AllowedHosts :: "string list"
  cf_ProxyOnly :: bool
  cf_XAccelPrefix :: string
  cf_YtDlpBin :: string
  cf_FFmpegBin :: string
  cf_FFprobeBin :: string
  cf_MagickBin :: string
  cf_RsvgBin :: string
  cf_PotraceBin :: string

definition minute :: int where "minute = 60 * 1000000000"
definition maxUploadMiBCeiling :: int where "maxUploadMiBCeiling = (2 ^ 63 - 1) div 2 ^ 20"
definition jobTimeoutMinutesCeiling :: int where "jobTimeoutMinutesCeiling = (2 ^ 63 - 1) div minute"

text \<open>The struct as read from the environment, before the checks.\<close>

definition read_config :: "environment \<Rightarrow> Level \<Rightarrow> Prefix list \<Rightarrow> string list \<Rightarrow> Config" where
  "read_config look lvl proxies hosts =
     (let data = env_or look ''DATA_DIR'' ''/data'' in
      \<lparr>cf_Addr = env_or look ''LISTEN_ADDR'' ''127.0.0.1:1144'', cf_LogLevel = lvl, cf_DataDir = data,
       cf_DBPath = env_or look ''DB_PATH'' (Join_path [data, ''db'', ''aiofiles.db'']),
       cf_DownloadDir = env_or look ''DOWNLOAD_DIR'' (Join_path [data, ''downloads'']),
       cf_TmpDir = env_or look ''TMP_DIR'' (Join_path [data, ''tmp'']),
       cf_UploadDir = env_or look ''UPLOAD_DIR'' (Join_path [data, ''uploads'']),
       cf_MaxUploadMiB = envInt look ''MAX_UPLOAD_MIB'' 4096,
       cf_MaxConcurrentJobs = envInt look ''MAX_CONCURRENT_JOBS'' 2,
       cf_QueueDepth = envInt look ''QUEUE_DEPTH'' 256,
       cf_DefaultRetentionDays = envInt look ''DEFAULT_RETENTION_DAYS'' 7,
       cf_JobTimeoutMinutes = envInt look ''JOB_TIMEOUT_MINUTES'' 720,
       cf_DisableUpdateChecks = envBool look ''DISABLE_UPDATE_CHECKS'' False,
       cf_AuthUsername = env_or look ''AUTH_USERNAME'' '''',
       cf_AuthPasswordHash = env_or look ''AUTH_PASSWORD_HASH'' '''',
       cf_SessionTTLHours = envInt look ''SESSION_TTL_HOURS'' 720,
       cf_TrustedProxies = proxies, cf_AllowedHosts = hosts,
       cf_ProxyOnly = envBool look ''PROXY_ONLY'' False,
       cf_XAccelPrefix = (case look ''XACCEL_PREFIX'' of Some v \<Rightarrow> TrimSpace v | None \<Rightarrow> ''/_protected''),
       cf_YtDlpBin = env_or look ''YTDLP_BIN'' ''yt-dlp'', cf_FFmpegBin = env_or look ''FFMPEG_BIN'' ''ffmpeg'',
       cf_FFprobeBin = env_or look ''FFPROBE_BIN'' ''ffprobe'', cf_MagickBin = env_or look ''MAGICK_BIN'' ''magick'',
       cf_RsvgBin = env_or look ''RSVG_BIN'' ''rsvg-convert'', cf_PotraceBin = env_or look ''POTRACE_BIN'' ''potrace''\<rparr>)"

text \<open>The checks, in order; a check returns the error it finds.\<close>

definition config_checks :: "Config \<Rightarrow> config_error option list" where
  "config_checks c =
     [if cf_MaxConcurrentJobs c < 1 then Some TooFewJobs else None,
      if cf_MaxUploadMiB c < 0 \<or> cf_MaxUploadMiB c > maxUploadMiBCeiling then Some (UploadRange (cf_MaxUploadMiB c)) else None,
      if cf_JobTimeoutMinutes c < 0 \<or> cf_JobTimeoutMinutes c > jobTimeoutMinutesCeiling
        then Some (TimeoutRange (cf_JobTimeoutMinutes c)) else None,
      if cf_XAccelPrefix c \<noteq> '''' \<and> \<not> HasPrefix (cf_XAccelPrefix c) ''/'' then Some (BadXAccel (cf_XAccelPrefix c)) else None,
      if cf_DefaultRetentionDays c \<in> set [0, 1, 7, 30] then None else Some (BadRetention (cf_DefaultRetentionDays c)),
      if (cf_AuthUsername c = '''') \<noteq> (cf_AuthPasswordHash c = '''') then Some AuthHalfSet else None]"

definition config_dirs :: "Config \<Rightarrow> string list" where
  "config_dirs c = [Dir (cf_DBPath c), cf_DownloadDir c, cf_TmpDir c, cf_UploadDir c]"

definition Load :: "environment \<Rightarrow> (string \<Rightarrow> bool) \<Rightarrow> (config_error, Config) result" where
  "Load look mkdir =
     (case parseLevel (env_or look ''LOG_LEVEL'' ''warn'') of
        Inl e \<Rightarrow> Inl e
      | Inr lvl \<Rightarrow> (case parsePrefixes (env_or look ''TRUSTED_PROXIES'' '''') of
          Inl e \<Rightarrow> Inl e
        | Inr proxies \<Rightarrow> (case parseHosts (env_or look ''ALLOWED_HOSTS'' '''') of
            Inl e \<Rightarrow> Inl e
          | Inr hosts \<Rightarrow>
              let c = read_config look lvl proxies hosts in
              case first_error (config_checks c @ map (\<lambda>d. if mkdir d then None else Some (NoDir d)) (config_dirs c)) of
                Some e \<Rightarrow> Inl e
              | None \<Rightarrow> Inr c)))"

subsection \<open>Questions\<close>

definition cfg_AuthEnabled :: "Config \<Rightarrow> bool" where
  "cfg_AuthEnabled c \<longleftrightarrow> cf_AuthUsername c \<noteq> '''' \<and> cf_AuthPasswordHash c \<noteq> ''''"

definition MaxUploadBytes :: "Config \<Rightarrow> int" where
  "MaxUploadBytes c = wrap64 (cf_MaxUploadMiB c * 2 ^ 20)"

definition JobTimeout :: "Config \<Rightarrow> int" where
  "JobTimeout c = wrap64 (cf_JobTimeoutMinutes c * minute)"

definition pattern_allows :: "string \<Rightarrow> string \<Rightarrow> bool" where
  "pattern_allows host pat =
     (if pat = ''*'' then True
      else if HasPrefix pat ''*.'' then
        (let suffix = drop 1 pat in length host > length suffix \<and> HasSuffix host suffix)
      else pat = host)"

definition HostAllowed :: "Config \<Rightarrow> string \<Rightarrow> bool" where
  "HostAllowed c host \<longleftrightarrow> cf_AllowedHosts c = [] \<or> list_ex (pattern_allows host) (cf_AllowedHosts c)"

end
