(* ===== verification/ConfigSpec.thy ===== *)
theory ConfigSpec
  imports Config ParamsSpec
begin

text \<open>
  What the rest of the server may rely on once \<open>Load\<close> has returned a configuration.
\<close>

text \<open>An entry of the host list: no port, scheme or path, except an IPv6 literal in brackets.\<close>

definition host_entry :: "string \<Rightarrow> bool" where
  "host_entry pat \<longleftrightarrow> pat = ''*'' \<or>
     (let body = TrimPrefix pat ''*.'' in isBracketedIPv6 body \<or> body \<noteq> '''' \<and> \<not> ContainsAny body ''*:/@[] '')"

lemma Load_Inr:
  "Load look mkdir = Inr c \<longleftrightarrow>
     (\<exists>lvl proxies hosts. parseLevel (env_or look ''LOG_LEVEL'' ''warn'') = Inr lvl \<and>
        parsePrefixes (env_or look ''TRUSTED_PROXIES'' '''') = Inr proxies \<and>
        parseHosts (env_or look ''ALLOWED_HOSTS'' '''') = Inr hosts \<and> c = read_config look lvl proxies hosts \<and>
        (\<forall>e \<in> set (config_checks c). e = None) \<and> (\<forall>d \<in> set (config_dirs c). mkdir d))"
proof -
  have checks: "first_error (config_checks r @ map (\<lambda>d. if mkdir d then None else Some (NoDir d)) (config_dirs r)) = None \<longleftrightarrow>
      (\<forall>e \<in> set (config_checks r). e = None) \<and> (\<forall>d \<in> set (config_dirs r). mkdir d)" for r
    by (auto simp: first_error_None)
  show ?thesis
    unfolding Load_def Let_def result_bind_Inr
    by (auto simp: checks simp flip: first_error_None split: option.splits)
qed

lemma ParsePrefix_valid: "ParsePrefix s = Some p \<Longrightarrow> valid_prefix p"
  by (cases p)
    (auto simp: ParsePrefix_def PrefixFrom_def valid_prefix_def Let_def split: option.splits if_splits Addr.splits)

lemma Masked_valid: "valid_prefix p \<Longrightarrow> valid_prefix (Masked p)"
  by (auto simp: valid_prefix_def split: Addr.splits)

lemma PrefixFrom_valid: "valid_prefix (PrefixFrom a (BitLen a))"
  by (cases a) (simp_all add: valid_prefix_def PrefixFrom_def)

lemma parse_fields_valid: "parse_fields fs out = Inr ps \<Longrightarrow> list_all valid_prefix out \<Longrightarrow> list_all valid_prefix ps"
  by (induction fs out rule: parse_fields.induct)
    (auto simp: Let_def simp del: Masked.simps intro: Masked_valid ParsePrefix_valid PrefixFrom_valid split: if_splits option.splits)

lemma parse_hosts_entries: "parse_hosts fs out = Inr hs \<Longrightarrow> list_all host_entry out \<Longrightarrow> list_all host_entry hs"
  by (induction fs out rule: parse_hosts.induct) (auto simp: Let_def host_entry_def split: if_splits)


definition demo_environment :: environment where
  "demo_environment =
     [''TRUSTED_PROXIES'' \<mapsto> ''10.1.2.3/8, 192.168.1.1'', ''ALLOWED_HOSTS'' \<mapsto> ''*.Example.com, [fd00::1]'',
      ''MAX_UPLOAD_MIB'' \<mapsto> ''0'', ''JOB_TIMEOUT_MINUTES'' \<mapsto> '' 90 '']"


text \<open>A block of IPv4-mapped addresses is accepted and trusts nobody: peers are compared unmapped.\<close>

lemma mapped_block_trusts_nobody:
  "parsePrefixes ''::ffff:10.0.0.0/104'' = Inr [PrefixFrom (V6 0xFFFF0A000000 '''') 104] \<and>
   \<not> trusted (New [PrefixFrom (V6 0xFFFF0A000000 '''') 104]) ''10.1.2.3'' \<and>
   \<not> trusted (New [PrefixFrom (V6 0xFFFF0A000000 '''') 104]) ''::ffff:10.1.2.3''"
  by code_simp

end
