(* ===== verification/Middleware.thy ===== *)
theory Middleware
  imports Config Manager SourceURL
begin

text \<open>
  The way of a request to its handler: the middleware chain of \<open>internal/api/middleware.go\<close> and the routes of
  \<open>internal/api/api.go\<close>. The path is the one the multiplexer matches, already clean. \<open>parse\<close> is \<open>url.Parse\<close>.
\<close>

definition uploadsPath :: string where "uploadsPath = ''/api/uploads''"
definition healthPath :: string where "healthPath = ''/api/health''"
definition maxJSONBody :: int where "maxJSONBody = 2 ^ 20"

subsection \<open>The host\<close>

definition isIPLiteral :: "string \<Rightarrow> bool" where
  "isIPLiteral host \<longleftrightarrow> ParseAddr (TrimSuffix (TrimPrefix host ''['') '']'') \<noteq> None"

text \<open>\<open>None\<close>: the next handler runs; otherwise the reason \<open>reject\<close> logs before it answers 403.\<close>

definition hostMW :: "Config option \<Rightarrow> Trust \<Rightarrow> Request \<Rightarrow> string \<Rightarrow> string option" where
  "hostMW cfg trust r path =
     (case cfg of
        None \<Rightarrow> None
      | Some c \<Rightarrow>
          if \<not> cf_ProxyOnly c \<and> cf_AllowedHosts c = [] then None
          else if path = healthPath then None
          else let host = Hostname trust r in
            if cf_ProxyOnly c \<and> \<not> FromProxy trust r then Some ''direct connection from an untrusted address''
            else if cf_ProxyOnly c \<and> (host = '''' \<or> isIPLiteral host) then
              Some ''PROXY_ONLY is set and the request used an address rather than a hostname''
            else if \<not> HostAllowed c host then Some ''host is not in ALLOWED_HOSTS''
            else None)"

subsection \<open>The origin\<close>

definition sameOrigin :: "(string \<Rightarrow> URL option) \<Rightarrow> Trust \<Rightarrow> Request \<Rightarrow> bool" where
  "sameOrigin parse trust r =
     (let site = header_Get r ''Sec-Fetch-Site''; origin = header_Get r ''Origin'' in
      if site = ''same-origin'' \<or> site = ''none'' then True
      else if origin = '''' then True
      else case parse origin of
        None \<Rightarrow> False
      | Some u \<Rightarrow>
          if u_Host u = '''' then False
          else let (scheme, host) = Origin trust r in
            EqualFold (u_Scheme u) scheme \<and> EqualFold (url_Hostname (u_Host u)) host)"

text \<open>Whether the request goes on.\<close>

definition originMW :: "(string \<Rightarrow> URL option) \<Rightarrow> Trust \<Rightarrow> string \<Rightarrow> Request \<Rightarrow> bool" where
  "originMW parse trust meth r =
     (if meth \<in> set [''GET'', ''HEAD'', ''OPTIONS''] then True else sameOrigin parse trust r)"

text \<open>The limit on the body of a request, none for an upload.\<close>

definition limitBodyMW :: "string \<Rightarrow> int option" where
  "limitBodyMW path = (if path \<noteq> uploadsPath then Some maxJSONBody else None)"

subsection \<open>Routes\<close>

datatype handler =
  HHealth | HLogin | HLogout | HMe | HPresets | HProbe | HUpload | HListFiles | HCreateJob | HListJobs
| HGetJob | HCancelJob | HDeleteJob | HDownload | HReuseFile | HEvents

text \<open>Method, path segments, whether the session check stands in front, handler. \<open>None\<close> is the wildcard of an id.\<close>

type_synonym route = "string \<times> string option list \<times> bool \<times> handler"

definition routes :: "route list" where
  "routes =
     [(''GET'', [Some ''api'', Some ''health''], False, HHealth),
      (''POST'', [Some ''api'', Some ''auth'', Some ''login''], False, HLogin),
      (''POST'', [Some ''api'', Some ''auth'', Some ''logout''], False, HLogout),
      (''GET'', [Some ''api'', Some ''auth'', Some ''me''], False, HMe),
      (''GET'', [Some ''api'', Some ''presets''], True, HPresets),
      (''POST'', [Some ''api'', Some ''probe''], True, HProbe),
      (''POST'', [Some ''api'', Some ''uploads''], True, HUpload),
      (''GET'', [Some ''api'', Some ''files''], True, HListFiles),
      (''POST'', [Some ''api'', Some ''jobs''], True, HCreateJob),
      (''GET'', [Some ''api'', Some ''jobs''], True, HListJobs),
      (''GET'', [Some ''api'', Some ''jobs'', None], True, HGetJob),
      (''POST'', [Some ''api'', Some ''jobs'', None, Some ''cancel''], True, HCancelJob),
      (''DELETE'', [Some ''api'', Some ''jobs'', None], True, HDeleteJob),
      (''GET'', [Some ''api'', Some ''jobs'', None, Some ''download''], True, HDownload),
      (''POST'', [Some ''api'', Some ''jobs'', None, Some ''reuse''], True, HReuseFile),
      (''GET'', [Some ''api'', Some ''events''], True, HEvents)]"

definition method_matches :: "string \<Rightarrow> string \<Rightarrow> bool" where
  "method_matches pat meth \<longleftrightarrow> meth = pat \<or> pat = ''GET'' \<and> meth = ''HEAD''"

fun path_matches :: "string option list \<Rightarrow> string list \<Rightarrow> bool" where
  "path_matches [] [] \<longleftrightarrow> True"
| "path_matches (Some p # ps) (s # ss) \<longleftrightarrow> p = s \<and> path_matches ps ss"
| "path_matches (None # ps) (s # ss) \<longleftrightarrow> s \<noteq> '''' \<and> path_matches ps ss"
| "path_matches _ _ \<longleftrightarrow> False"

definition find_route :: "string \<Rightarrow> string \<Rightarrow> (bool \<times> handler) option" where
  "find_route meth path =
     map_option (\<lambda>(_, _, protected, h). (protected, h))
       (find (\<lambda>(m, ps, _, _). method_matches m meth \<and> path_matches ps (Split (drop 1 path) CHR ''/'')) routes)"

text \<open>
  A request through the whole chain: an error answer, its status and code, or the handler that gets it. Outside
  \<open>/api/\<close> the multiplexer answers itself, without a code. \<open>cookie\<close> is
  the session cookie's value; \<open>delete_ok\<close> whether removing an expired session from the database succeeds.
\<close>

datatype verdict = Refused nat string | Handled handler

definition serve ::
  "Config option \<Rightarrow> Trust \<Rightarrow> (string \<Rightarrow> URL option) \<Rightarrow> bool \<Rightarrow> Time \<Rightarrow> string option \<Rightarrow> string \<Rightarrow> string \<Rightarrow> Request \<Rightarrow>
    Manager \<Rightarrow> verdict \<times> Manager" where
  "serve cfg trust parse delete_ok now cookie meth path r m =
     (if hostMW cfg trust r path \<noteq> None then (Refused 403 ''host_not_allowed'', m)
      else if \<not> originMW parse trust meth r then (Refused 403 ''cross_origin'', m)
      else case find_route meth path of
        None \<Rightarrow> (Refused 404 (if HasPrefix path ''/api/'' then ''not_found'' else ''''), m)
      | Some (protected, h) \<Rightarrow>
          if \<not> protected then (Handled h, m)
          else let (ok, m) = Middleware delete_ok now cookie m in
            if ok then (Handled h, m) else (Refused 401 ''unauthorized'', m))"


subsection \<open>The response writer\<close>

text \<open>\<open>statusWriter\<close>: \<open>sw_sent\<close> is the list of status lines handed to the connection.\<close>

record statusWriter =
  sw_status :: nat
  sw_written :: bool
  sw_bytes :: int
  sw_sent :: "nat list"

definition new_writer :: statusWriter where
  "new_writer = \<lparr>sw_status = 200, sw_written = False, sw_bytes = 0, sw_sent = []\<rparr>"

definition WriteHeader :: "nat \<Rightarrow> statusWriter \<Rightarrow> statusWriter" where
  "WriteHeader code w =
     (if sw_written w then w else w\<lparr>sw_status := code, sw_written := True, sw_sent := sw_sent w @ [code]\<rparr>)"

text \<open>\<open>n\<close> bytes of the body reach the connection.\<close>

definition Write_body :: "int \<Rightarrow> statusWriter \<Rightarrow> statusWriter" where
  "Write_body n w =
     (let w = (if \<not> sw_written w then WriteHeader 200 w else w) in w\<lparr>sw_bytes := wrap64 (sw_bytes w + n)\<rparr>)"

text \<open>How a handler ends: it returns, it panics, or it aborts the connection on purpose.\<close>

datatype ending = Returned | Panicked | Aborted

text \<open>\<open>recoverMW\<close> after the handler has used the writer; the second part says whether the panic goes on to the server.\<close>

definition recoverMW :: "int \<Rightarrow> ending \<Rightarrow> statusWriter \<Rightarrow> statusWriter \<times> bool" where
  "recoverMW body_size e w =
     (case e of
        Returned \<Rightarrow> (w, False)
      | Aborted \<Rightarrow> (w, True)
      | Panicked \<Rightarrow> (if sw_written w then (w, False) else (Write_body body_size (WriteHeader 500 w), False)))"


end
