(* ===== verification/MiddlewareSpec.thy ===== *)
theory MiddlewareSpec
  imports Middleware
begin

text \<open>
  Which requests reach a handler: the middleware chain against a specification in the words of its documentation.
\<close>

text \<open>A name an allow-list entry stands for: any, itself, or any name below its suffix.\<close>

definition named_by :: "string \<Rightarrow> string \<Rightarrow> bool" where
  "named_by pat host \<longleftrightarrow> pat = ''*'' \<or> (if HasPrefix pat ''*.'' then host \<noteq> drop 1 pat \<and> HasSuffix host (drop 1 pat) else host = pat)"

lemma pattern_allows_iff: "pattern_allows host pat \<longleftrightarrow> named_by pat host"
  by (auto simp: pattern_allows_def named_by_def HasSuffix_iff Let_def)

text \<open>The four handlers that answer without a session.\<close>

definition open_handlers :: "handler list" where
  "open_handlers = [HHealth, HLogin, HLogout, HMe]"

lemma find_route_protected: "find_route meth path = Some (protected, h) \<Longrightarrow> protected \<longleftrightarrow> h \<notin> set open_handlers"
proof -
  have "\<forall>(_, _, protected, h) \<in> set routes. protected \<longleftrightarrow> h \<notin> set open_handlers"
    by (simp add: routes_def open_handlers_def)
  moreover assume "find_route meth path = Some (protected, h)"
  then obtain m ps where "(m, ps, protected, h) \<in> set routes"
    by (auto simp: find_route_def find_Some_iff) (metis nth_mem)
  ultimately show ?thesis by fastforce
qed

definition live_session :: "Time \<Rightarrow> string option \<Rightarrow> Manager \<Rightarrow> bool" where
  "live_session now cookie m \<longleftrightarrow>
     (case cookie of None \<Rightarrow> False | Some v \<Rightarrow> v \<noteq> '''' \<and>
        (case map_of (m_sessions m) v of None \<Rightarrow> False | Some expiry \<Rightarrow> now \<le> expiry))"

definition may_enter :: "Time \<Rightarrow> string option \<Rightarrow> Manager \<Rightarrow> bool" where
  "may_enter now cookie m \<longleftrightarrow> (if AuthEnabled m then live_session now cookie m else True)"

lemma Middleware_ok: "fst (Middleware d now cookie m) \<longleftrightarrow> may_enter now cookie m"
  by (auto simp: Middleware_def Authenticated_def live_session_def may_enter_def split: option.splits)

definition host_ok :: "Config \<Rightarrow> Trust \<Rightarrow> Request \<Rightarrow> bool" where
  "host_ok c trust r \<longleftrightarrow>
     (cf_ProxyOnly c \<longrightarrow> FromProxy trust r \<and> Hostname trust r \<noteq> '''' \<and> \<not> isIPLiteral (Hostname trust r)) \<and>
     (cf_AllowedHosts c = [] \<or> list_ex (\<lambda>pat. named_by pat (Hostname trust r)) (cf_AllowedHosts c))"

lemma hostMW_ok: "path \<noteq> healthPath \<Longrightarrow> hostMW (Some c) trust r path = None \<longleftrightarrow> host_ok c trust r"
proof -
  have "list_ex (pattern_allows h) ps \<longleftrightarrow> list_ex (\<lambda>pat. named_by pat h) ps" for h ps
    by (simp add: list_ex_iff pattern_allows_iff)
  moreover assume "path \<noteq> healthPath"
  ultimately show ?thesis by (auto simp: hostMW_def host_ok_def HostAllowed_def Let_def)
qed

definition same_site :: "(string \<Rightarrow> URL option) \<Rightarrow> Trust \<Rightarrow> Request \<Rightarrow> bool" where
  "same_site parse trust r \<longleftrightarrow>
     header_Get r ''Sec-Fetch-Site'' \<in> {''same-origin'', ''none''} \<or> header_Get r ''Origin'' = '''' \<or>
     (\<exists>u. parse (header_Get r ''Origin'') = Some u \<and> u_Host u \<noteq> '''' \<and>
        EqualFold (u_Scheme u) (if IsHTTPS trust r then ''https'' else ''http'') \<and> EqualFold (url_Hostname (u_Host u)) (Hostname trust r))"

lemma sameOrigin_iff: "sameOrigin parse trust r \<longleftrightarrow> same_site parse trust r"
  by (auto simp: sameOrigin_def same_site_def Origin_def Let_def split: option.splits)

text \<open>
  C32. A request reaches a handler exactly when every guard of the chain lets it: its host is one of ALLOWED_HOSTS and,
  under PROXY_ONLY, it comes from a trusted proxy by a name that is no address, the health path alone excepted; a method
  that may change state does not come from the page of another site; the path is routed; and, except for health, login,
  logout and me, the request carries a live session whenever authentication is on.
\<close>
theorem request_guarded:
  "fst (serve (Some c) trust parse d now cookie meth path r m) = Handled h \<longleftrightarrow>
     (path = healthPath \<or> host_ok c trust r) \<and>
     (meth \<in> {''GET'', ''HEAD'', ''OPTIONS''} \<or> same_site parse trust r) \<and>
     map_option snd (find_route meth path) = Some h \<and>
     (h \<in> set open_handlers \<or> may_enter now cookie m)"
proof -
  have host: "hostMW (Some c) trust r path = None \<longleftrightarrow> path = healthPath \<or> host_ok c trust r"
    using hostMW_ok [of path c trust r] by (cases "path = healthPath") (simp_all add: hostMW_def)
  have origin: "originMW parse trust meth r \<longleftrightarrow> meth \<in> {''GET'', ''HEAD'', ''OPTIONS''} \<or> same_site parse trust r"
    by (simp add: originMW_def sameOrigin_iff)
  show ?thesis
  proof (cases "find_route meth path")
    case (Some ph)
    then obtain protected g where g: "find_route meth path = Some (protected, g)" by (cases ph) auto
    show ?thesis
      unfolding serve_def host [symmetric] origin [symmetric]
      using find_route_protected [OF g] Middleware_ok [of d now cookie m]
      by (cases "Middleware d now cookie m") (auto simp: g Let_def)
  qed (simp add: serve_def)
qed


text \<open>At most one status line is sent, the one the log line reports.\<close>

definition writer_ok :: "statusWriter \<Rightarrow> bool" where
  "writer_ok w \<longleftrightarrow> sw_sent w = (if sw_written w then [sw_status w] else [])"

lemma writer_ok_steps:
  "writer_ok new_writer"
  "writer_ok w \<Longrightarrow> writer_ok (WriteHeader code w)"
  "writer_ok w \<Longrightarrow> writer_ok (Write_body n w)"
  "writer_ok w \<Longrightarrow> writer_ok (fst (recoverMW n e w))"
  by (auto simp: writer_ok_def new_writer_def WriteHeader_def Write_body_def recoverMW_def Let_def split: ending.splits)

end
