(* ===== verification/ProbeLimit.thy ===== *)
theory ProbeLimit
  imports GoFloat JobTypes
begin

text \<open>
  The limiter of metadata lookups, \<open>internal/api/probelimit.go\<close>: a token bucket and a bounded number of lookups in
  flight. Times are nanoseconds; tokens are float64 values, rounded after every operation. No operation here
  can overflow.
\<close>

definition probeBurst :: rat where "probeBurst = 8"
definition maxProbeSlots :: nat where "maxProbeSlots = 4"

record probeLimiter =
  pl_slots :: nat
  pl_used :: nat
  pl_tokens :: rat
  pl_last :: Time

definition newProbeLimiter :: "int \<Rightarrow> Time \<Rightarrow> probeLimiter" where
  "newProbeLimiter inFlight now =
     (let n = (if inFlight < 1 then 1 else inFlight); n = (if n > int maxProbeSlots then int maxProbeSlots else n)
      in \<lparr>pl_slots = nat n, pl_used = 0, pl_tokens = probeBurst, pl_last = now\<rparr>)"

text \<open>\<open>Duration.Seconds\<close>: whole seconds and the rest, added as floats.\<close>

definition Seconds :: "int \<Rightarrow> rat" where
  "Seconds d = fl_fin (fl_fin (of_int (d div 1000000000)) + fl_fin (of_int (d mod 1000000000) / 1000000000))"

text \<open>What the clock has earned: one token every three seconds.\<close>

definition refill :: "Time \<Rightarrow> probeLimiter \<Rightarrow> rat" where
  "refill now l =
     (let t = fl_fin (pl_tokens l + fl_fin (Seconds (now - pl_last l) / 3)) in if t > probeBurst then probeBurst else t)"

definition take_token :: "Time \<Rightarrow> probeLimiter \<Rightarrow> bool \<times> probeLimiter" where
  "take_token now l =
     (let t = refill now l; l = l\<lparr>pl_tokens := t, pl_last := now\<rparr> in
      if t < 1 then (False, l) else (True, l\<lparr>pl_tokens := fl_fin (t - 1)\<rparr>))"

definition refund :: "probeLimiter \<Rightarrow> probeLimiter" where
  "refund l = (if pl_tokens l < probeBurst then l\<lparr>pl_tokens := fl_fin (pl_tokens l + 1)\<rparr> else l)"

text \<open>\<open>acquire\<close>: a token, then a slot; without a slot the token is given back.\<close>

definition acquire :: "Time \<Rightarrow> probeLimiter \<Rightarrow> bool \<times> probeLimiter" where
  "acquire now l =
     (let (ok, l) = take_token now l in
      if \<not> ok then (False, l)
      else if pl_used l < pl_slots l then (True, l\<lparr>pl_used := Suc (pl_used l)\<rparr>)
      else (False, refund l))"

definition release :: "probeLimiter \<Rightarrow> probeLimiter" where
  "release l = l\<lparr>pl_used := pl_used l - 1\<rparr>"

end
