(* ===== verification/ProbeLimitSpec.thy ===== *)
theory ProbeLimitSpec
  imports ProbeLimit
begin

text \<open>
  What the probe limiter bounds: how many lookups run at once, and how many are let through in any stretch of time. The
  count is by a potential function, once for any metered system, interpreted on the limiter.
\<close>

subsection \<open>Counting by a potential\<close>

text \<open>A run of steps: how many were granted, and the state it ends in. Every step is enabled where it happens.\<close>

fun run_all :: "('e \<Rightarrow> 's \<Rightarrow> bool \<times> 's) \<Rightarrow> 'e list \<Rightarrow> 's \<Rightarrow> nat \<times> 's" where
  "run_all step [] s = (0, s)"
| "run_all step (e # es) s = (case step e s of (g, s') \<Rightarrow> case run_all step es s' of (n, t) \<Rightarrow> (of_bool g + n, t))"

fun run_enabled :: "('e \<Rightarrow> 's \<Rightarrow> bool \<times> 's) \<Rightarrow> ('e \<Rightarrow> 's \<Rightarrow> bool) \<Rightarrow> 'e list \<Rightarrow> 's \<Rightarrow> bool" where
  "run_enabled step enabled [] s \<longleftrightarrow> True"
| "run_enabled step enabled (e # es) s \<longleftrightarrow> enabled e s \<and> run_enabled step enabled es (snd (step e s))"

text \<open>A step may grant something; a grant must be paid from the potential, what a step adds is its income.\<close>

locale metered =
  fixes step :: "'e \<Rightarrow> 's \<Rightarrow> bool \<times> 's"
    and inv :: "'s \<Rightarrow> bool"
    and enabled :: "'e \<Rightarrow> 's \<Rightarrow> bool"
    and potential :: "'s \<Rightarrow> rat"
    and income :: "'e \<Rightarrow> rat"
  assumes inv_step: "inv s \<Longrightarrow> enabled e s \<Longrightarrow> inv (snd (step e s))"
    and paid: "inv s \<Longrightarrow> enabled e s \<Longrightarrow> of_bool (fst (step e s)) + potential (snd (step e s)) \<le> potential s + income e"
begin

lemma run_inv: "inv s \<Longrightarrow> run_enabled step enabled es s \<Longrightarrow> inv (snd (run_all step es s))"
proof (induction es arbitrary: s)
  case (Cons e es)
  obtain g s' where s': "step e s = (g, s')" by (cases "step e s")
  obtain n t where t: "run_all step es s' = (n, t)" by (cases "run_all step es s'")
  have "inv s'" "run_enabled step enabled es s'" using Cons.prems inv_step [of s e] s' by auto
  then show ?case using Cons.IH [of s'] s' t by simp
qed simp

lemma run_paid:
  "inv s \<Longrightarrow> run_enabled step enabled es s \<Longrightarrow>
   of_nat (fst (run_all step es s)) + potential (snd (run_all step es s)) \<le> potential s + sum_list (map income es)"
proof (induction es arbitrary: s)
  case (Cons e es)
  obtain g s' where s': "step e s = (g, s')" by (cases "step e s")
  obtain n t where t: "run_all step es s' = (n, t)" by (cases "run_all step es s'")
  have "inv s'" "run_enabled step enabled es s'" using Cons.prems inv_step [of s e] s' by auto
  then have "of_nat n + potential t \<le> potential s' + sum_list (map income es)" using Cons.IH [of s'] t by simp
  moreover have "of_bool g + potential s' \<le> potential s + income e" using paid [of s e] Cons.prems s' by simp
  ultimately show ?case using s' t by (cases g) simp_all
qed simp

end

subsection \<open>The limiter\<close>

datatype limiter_event = Acquire Time | Release

fun limiter_step :: "limiter_event \<Rightarrow> probeLimiter \<Rightarrow> bool \<times> probeLimiter" where
  "limiter_step (Acquire now) l = acquire now l"
| "limiter_step Release l = (False, release l)"

definition limiter_ok :: "probeLimiter \<Rightarrow> bool" where
  "limiter_ok l \<longleftrightarrow> 0 \<le> pl_tokens l \<and> pl_tokens l \<le> 8 \<and> pl_used l \<le> pl_slots l \<and> pl_slots l \<le> 4"

fun on_time :: "limiter_event \<Rightarrow> probeLimiter \<Rightarrow> bool" where
  "on_time (Acquire now) l \<longleftrightarrow> pl_last l \<le> now \<and> now - pl_last l \<le> int64_max"
| "on_time Release l \<longleftrightarrow> True"

lemma fl_fin_upper: "0 \<le> x \<Longrightarrow> x < 2 ^ 90 \<Longrightarrow> 0 \<le> fl_fin x \<and> fl_fin x \<le> x * (1 + 1 / 1000000) + 1 / 1000000"
proof -
  assume x: "0 \<le> x" "x < 2 ^ 90"
  then obtain v where "fl x = Some v" using fl_overflow [of x] by (cases "fl x") auto
  then show ?thesis using fl_upper [OF x(1)] by (simp add: fl_fin_def)
qed

definition earned :: "int \<Rightarrow> rat" where
  "earned d = of_int d / 3000000000 * (1 + 1 / 10000)"

lemma Seconds_upper:
  assumes "0 \<le> d" "d \<le> int64_max"
  shows "0 \<le> Seconds d \<and> Seconds d \<le> of_int d / 1000000000 * (1 + 1 / 100000) + 1 / 100000"
proof -
  let ?i = "of_int (d div 1000000000) :: rat" and ?r = "of_int (d mod 1000000000) / 1000000000 :: rat"
  have "d div 1000000000 \<le> 10000000000" using assms by (simp add: int64_max_def)
  then have i: "0 \<le> ?i" "?i \<le> of_int 10000000000" using assms(1) by (simp_all only: of_int_le_iff) simp
  have r: "0 \<le> ?r" "?r \<le> 1" by simp_all
  have sum: "?i + ?r = of_int d / 1000000000"
  proof -
    have "(of_int d :: rat) = of_int (d div 1000000000 * 1000000000 + d mod 1000000000)" by simp
    then show ?thesis by (simp only: of_int_add of_int_mult) simp
  qed
  have a: "0 \<le> fl_fin ?i" "fl_fin ?i \<le> ?i * (1 + 1 / 1000000) + 1 / 1000000"
    using fl_fin_upper [OF i(1)] i(2) by simp_all
  have b: "0 \<le> fl_fin ?r" "fl_fin ?r \<le> ?r * (1 + 1 / 1000000) + 1 / 1000000"
    using fl_fin_upper [OF r(1)] r(2) by simp_all
  have "fl_fin ?i + fl_fin ?r < 2 ^ 90" using a b i r by simp
  with a b have "0 \<le> Seconds d" "Seconds d \<le> (fl_fin ?i + fl_fin ?r) * (1 + 1 / 1000000) + 1 / 1000000"
    unfolding Seconds_def using fl_fin_upper [of "fl_fin ?i + fl_fin ?r"] by simp_all
  with a b i r show ?thesis unfolding sum [symmetric] by (simp add: algebra_simps)
qed

lemma refill_upper:
  assumes "limiter_ok l" "on_time (Acquire now) l"
  shows "0 \<le> refill now l \<and> refill now l \<le> 8 \<and> refill now l \<le> pl_tokens l + earned (now - pl_last l) + 1 / 20000"
proof -
  let ?d = "now - pl_last l" and ?t = "pl_tokens l"
  have d: "0 \<le> ?d" "?d \<le> int64_max" using assms(2) by simp_all
  have t: "0 \<le> ?t" "?t \<le> 8" using assms(1) by (simp_all add: limiter_ok_def)
  define x :: rat where "x = of_int ?d / 1000000000"
  have "(of_int ?d :: rat) \<le> of_int int64_max" using d(2) by (simp only: of_int_le_iff)
  then have x: "0 \<le> x" "x \<le> 10000000000" using d(1) by (simp_all add: x_def int64_max_def)
  have s: "0 \<le> Seconds ?d" "Seconds ?d \<le> x * (1 + 1 / 100000) + 1 / 100000" using Seconds_upper [OF d] by (simp_all add: x_def)
  then have g: "0 \<le> fl_fin (Seconds ?d / 3)" "fl_fin (Seconds ?d / 3) \<le> Seconds ?d / 3 * (1 + 1 / 1000000) + 1 / 1000000"
    using fl_fin_upper [of "Seconds ?d / 3"] x by simp_all
  define y where "y = fl_fin (Seconds ?d / 3)"
  have y: "0 \<le> y" "y \<le> x / 3 * (1 + 3 / 100000) + 1 / 100000"
    using g s x unfolding y_def by (simp_all add: algebra_simps)
  then have f: "0 \<le> fl_fin (?t + y)" "fl_fin (?t + y) \<le> (?t + y) * (1 + 1 / 1000000) + 1 / 1000000"
    using fl_fin_upper [of "?t + y"] t x by simp_all
  have e: "earned ?d = x / 3 * (1 + 1 / 10000)" by (simp add: earned_def x_def)
  have "(?t + y) * (1 + 1 / 1000000) + 1 / 1000000 \<le> ?t + x / 3 * (1 + 1 / 10000) + 1 / 20000"
    using t(2) x(1) y(2) by (simp add: field_simps)
  with f(2) e have "fl_fin (?t + y) \<le> ?t + earned ?d + 1 / 20000" by linarith
  with f(1) show ?thesis by (simp add: refill_def Let_def probeBurst_def y_def [symmetric])
qed

definition limiter_potential :: "probeLimiter \<Rightarrow> rat" where
  "limiter_potential l = pl_tokens l - earned (pl_last l)"

fun limiter_income :: "limiter_event \<Rightarrow> rat" where
  "limiter_income (Acquire now) = 1 / 10000"
| "limiter_income Release = 0"

lemma fl_fin_le_int: "0 \<le> x \<Longrightarrow> x \<le> of_int n \<Longrightarrow> n \<le> 2 ^ 52 \<Longrightarrow> fl_fin x \<le> of_int n"
proof -
  assume x: "0 \<le> x" "x \<le> of_int n" and n: "n \<le> 2 ^ 52"
  have "0 \<le> (of_int n :: rat)" using x by (rule order_trans)
  then have "0 \<le> n" by simp
  from fl_int [OF this n] obtain v where "fl x = Some v" "v \<le> of_int n" by (rule fl_mono [OF x])
  then show ?thesis by (simp add: fl_fin_def)
qed

lemma acquire_step:
  assumes "limiter_ok l" "on_time (Acquire now) l"
  shows "limiter_ok (snd (acquire now l)) \<and>
    of_bool (fst (acquire now l)) + limiter_potential (snd (acquire now l)) \<le> limiter_potential l + 1 / 10000"
proof -
  define t where "t = refill now l"
  have t: "0 \<le> t" "t \<le> 8" "t \<le> pl_tokens l + earned (now - pl_last l) + 1 / 20000"
    using refill_upper [OF assms] by (simp_all add: t_def)
  have e: "earned (now - pl_last l) = earned now - earned (pl_last l)"
    unfolding earned_def of_int_diff diff_divide_distrib left_diff_distrib ..
  have slack: "x * (1 + 1 / 1000000) + 1 / 1000000 \<le> x + 1 / 100000" if "x \<le> 8" for x :: rat
    using that by (simp add: field_simps)
  have one: "0 \<le> fl_fin (t - 1)" "fl_fin (t - 1) \<le> t - 1 + 1 / 100000" if "1 \<le> t"
  proof -
    have "0 \<le> t - 1" "t - 1 < 2 ^ 90" "t - 1 \<le> 8" using that t(2) by simp_all
    with fl_fin_upper [of "t - 1"] slack [of "t - 1"]
    show "0 \<le> fl_fin (t - 1)" "fl_fin (t - 1) \<le> t - 1 + 1 / 100000" by linarith+
  qed
  have seven: "fl_fin (t - 1) \<le> 7" if "1 \<le> t" using fl_fin_le_int [of "t - 1" 7] that t(2) by simp
  have given: "0 \<le> fl_fin (fl_fin (t - 1) + 1)" "fl_fin (fl_fin (t - 1) + 1) \<le> t + 1 / 30000" "fl_fin (fl_fin (t - 1) + 1) \<le> 8" if "1 \<le> t"
  proof -
    define u where "u = fl_fin (t - 1)"
    have u: "0 \<le> u + 1" "u + 1 \<le> 8" "u + 1 < 2 ^ 90" "u \<le> t - 1 + 1 / 100000"
      using one [OF that] seven [OF that] by (simp_all add: u_def)
    have "0 \<le> fl_fin (u + 1)" "fl_fin (u + 1) \<le> t + 1 / 30000"
      using fl_fin_upper [OF u(1,3)] slack [OF u(2)] u(4) by linarith+
    moreover have "fl_fin (u + 1) \<le> 8" using fl_fin_le_int [of "u + 1" 8] u(1,2) by simp
    ultimately show "0 \<le> fl_fin (fl_fin (t - 1) + 1)" "fl_fin (fl_fin (t - 1) + 1) \<le> t + 1 / 30000" "fl_fin (fl_fin (t - 1) + 1) \<le> 8"
      by (simp_all only: u_def)
  qed
  consider "t < 1" | "1 \<le> t" "pl_used l < pl_slots l" | "1 \<le> t" "\<not> pl_used l < pl_slots l" by linarith
  then show ?thesis
  proof cases
    case 1
    then have "acquire now l = (False, l\<lparr>pl_tokens := t, pl_last := now\<rparr>)"
      by (simp add: acquire_def take_token_def t_def [symmetric] Let_def)
    with assms t e show ?thesis by (simp add: limiter_ok_def limiter_potential_def)
  next
    case 2
    then have "acquire now l = (True, l\<lparr>pl_tokens := fl_fin (t - 1), pl_last := now, pl_used := Suc (pl_used l)\<rparr>)"
      by (simp add: acquire_def take_token_def t_def [symmetric] Let_def)
    with assms t e one [OF 2(1)] seven [OF 2(1)] 2(2) show ?thesis by (simp add: limiter_ok_def limiter_potential_def)
  next
    case 3
    then have "acquire now l = (False, l\<lparr>pl_tokens := fl_fin (fl_fin (t - 1) + 1), pl_last := now\<rparr>)"
      using seven by (simp add: acquire_def take_token_def refund_def probeBurst_def t_def [symmetric] Let_def)
    with assms t e given [OF 3(1)] show ?thesis by (simp add: limiter_ok_def limiter_potential_def)
  qed
qed

interpretation limiter: metered limiter_step limiter_ok on_time limiter_potential limiter_income
proof
  fix s e
  assume "limiter_ok s" "on_time e s"
  then show "limiter_ok (snd (limiter_step e s))"
    and "of_bool (fst (limiter_step e s)) + limiter_potential (snd (limiter_step e s)) \<le> limiter_potential s + limiter_income e"
    using acquire_step [of s] by (cases e; auto simp: limiter_ok_def limiter_potential_def release_def)+
qed


lemma income_bound: "sum_list (map limiter_income es) \<le> of_nat (length es) / 10000"
proof (induction es)
  case (Cons e es)
  then show ?case by (cases e) (simp_all add: add_divide_distrib)
qed simp

text \<open>
  C33. Lookups are bounded. In every run of the limiter, from any state it can be in, never more than four lookups
  are in flight, and between two moments at most 8 are let through and one more for every three seconds that passed;
  the rounding of the float64 tokens adds at most a ten-thousandth of a lookup per request and per lookup earned.
\<close>
theorem probe_rate:
  assumes "limiter_ok l" and "run_enabled limiter_step on_time es l" and "run_all limiter_step es l = (granted, l')"
  shows "pl_used l' \<le> 4 \<and>
    of_nat granted \<le> 8 + of_int (pl_last l' - pl_last l) / 3000000000 * (1 + 1 / 10000) + (of_nat (length es) / 10000 :: rat)"
proof -
  have ok: "limiter_ok l'" using limiter.run_inv [OF assms(1,2)] assms(3) by simp
  have "of_nat granted + limiter_potential l' \<le> limiter_potential l + sum_list (map limiter_income es)"
    using limiter.run_paid [OF assms(1,2)] assms(3) by simp
  also have "\<dots> \<le> limiter_potential l + of_nat (length es) / 10000" using income_bound by simp
  finally have "of_nat granted \<le> pl_tokens l - pl_tokens l' + (earned (pl_last l') - earned (pl_last l)) + of_nat (length es) / 10000"
    by (simp add: limiter_potential_def)
  moreover have "earned (pl_last l') - earned (pl_last l) = of_int (pl_last l' - pl_last l) / 3000000000 * (1 + 1 / 10000)"
    unfolding earned_def of_int_diff diff_divide_distrib left_diff_distrib ..
  ultimately show ?thesis using ok assms(1) by (simp add: limiter_ok_def)
qed

lemma newProbeLimiter_ok: "limiter_ok (newProbeLimiter n now)"
  by (auto simp: limiter_ok_def newProbeLimiter_def probeBurst_def maxProbeSlots_def Let_def)

text \<open>Two slots: the third lookup at once is refused and its token given back, a fourth after a release is let through.\<close>

lemma probe_rate_witness:
  "case run_all limiter_step [Acquire 0, Acquire 0, Acquire 0, Release, Acquire 0] (newProbeLimiter 2 0) of
     (granted, l) \<Rightarrow> granted = 3 \<and> pl_tokens l = 5 \<and> pl_used l \<le> 4"
proof -
  have fls: "fl 8 = Some 8" "fl 7 = Some 7" "fl 6 = Some 6" "fl 5 = Some 5"
    using fl_int [of 8] fl_int [of 7] fl_int [of 6] fl_int [of 5] by simp_all
  have zero: "Seconds 0 = 0" by (simp add: Seconds_def fl_fin_def)
  note steps = acquire_def take_token_def refill_def refund_def release_def newProbeLimiter_def probeBurst_def maxProbeSlots_def
    fl_fin_def fls zero Let_def
  have run: "run_all limiter_step [Acquire 0, Acquire 0, Acquire 0, Release, Acquire 0] (newProbeLimiter 2 0) =
      (3, \<lparr>pl_slots = 2, pl_used = 2, pl_tokens = 5, pl_last = 0\<rparr>)"
    by (simp add: steps)
  have "run_enabled limiter_step on_time [Acquire 0, Acquire 0, Acquire 0, Release, Acquire 0] (newProbeLimiter 2 0)"
    by (simp add: steps int64_max_def)
  from probe_rate [OF newProbeLimiter_ok this run] run show ?thesis by simp
qed

end
