(* ===== verification/Uploads.thy ===== *)
theory Uploads
  imports Exec Config
begin

text \<open>
  Uploaded files, \<open>internal/api/uploads.go\<close>: the name a file is stored under, storing it, and the way from the
  id a client sends back to a path. What the operating system answers is an argument.
\<close>

definition uploadTokenBytes :: nat where "uploadTokenBytes = 8"
definition maxStoredName :: nat where "maxStoredName = 120"

subsection \<open>Runes\<close>

text \<open>The runes a range loop over a string yields, each as its bytes; a byte that starts no rune stands alone.\<close>

definition first_rune :: "string \<Rightarrow> nat" where
  "first_rune s = (case rune_len s of None \<Rightarrow> 1 | Some n \<Rightarrow> n)"

lemma first_rune_pos: "0 < first_rune s"
  by (auto simp: first_rune_def rune_len_def Let_def split: option.splits list.splits if_splits)

function runes :: "string \<Rightarrow> string list" where
  "runes s = (if s = [] then [] else take (first_rune s) s # runes (drop (first_rune s) s))"
  by pat_completeness auto
termination
  by (relation "measure length") (simp_all add: first_rune_pos)

declare runes.simps [simp del]

lemma runes_code [code]:
  "runes [] = []"
  "runes (c # s) = take (first_rune (c # s)) (c # s) # runes (drop (first_rune (c # s)) (c # s))"
  by (simp_all add: runes.simps [of "[]"] runes.simps [of "c # s"])

definition rune_error :: string where "rune_error = [CHR 0xEF, CHR 0xBF, CHR 0xBD]"

definition is_control :: "string \<Rightarrow> bool" where
  "is_control r \<longleftrightarrow>
     (case r of
        [c] \<Rightarrow> byte c < 0x20 \<or> byte c = 0x7F
      | [c, d] \<Rightarrow> byte c = 0xC2 \<and> cont 0x80 0x9F d
      | _ \<Rightarrow> False)"

subsection \<open>Names\<close>

definition shell_chars :: string where
  "shell_chars = '':*?\"<>|`$;&'' @ [CHR 0x27, CHR 0x5C]"

definition clean_rune :: "string \<Rightarrow> string" where
  "clean_rune r =
     (if r = ''/'' \<or> r \<in> set space_runes \<or> (\<exists>c \<in> set shell_chars. r = [c]) then ''_''
      else if is_control r \<or> r = rune_error then ''''
      else r)"

text \<open>The extension survives the cut when it is short.\<close>

definition short_name :: "string \<Rightarrow> string" where
  "short_name out =
     (if length (runes out) > maxStoredName then
        let ext = Ext out;
            ext = (if length (runes ext) > 16 then '''' else ext);
            stem = runes (TrimSuffix out ext);
            keep = maxStoredName - length (runes ext);
            stem = (if length stem > keep then take keep stem else stem)
        in Trim (concat stem) ''._-'' @ ext
      else out)"

definition sanitiseFilename :: "string \<Rightarrow> string" where
  "sanitiseFilename name =
     (let name = ToValidUTF8 (Base (ReplaceAll name [CHR 0x5C] ''/''));
          out = Trim (concat (map clean_rune (runes name))) ''._-''
      in if out = '''' \<or> out = ''.'' \<or> out = ''..'' then ''upload''
         else let out = short_name out in if out = '''' then ''upload'' else out)"

text \<open>\<open>token\<close> is what the random source fills the buffer with, nothing when it fails.\<close>

definition storedName :: "8 word list option \<Rightarrow> string \<Rightarrow> string option" where
  "storedName token original = map_option (\<lambda>t. hex_encode t @ ''-'' @ original) token"

definition originalName :: "string \<Rightarrow> string" where
  "originalName stored =
     (case IndexByte stored CHR ''-'' of
        Some i \<Rightarrow> if i = uploadTokenBytes * 2 then drop (Suc i) stored else stored
      | None \<Rightarrow> stored)"


subsection \<open>Storing\<close>

text \<open>
  What happens around one file written into the upload directory: the token, whether the file can be created, how
  copying into it ends, whether closing it succeeds and, after a failure, how much was written and whether it can be
  removed.
\<close>

datatype upload_error = MaxBytesError | OtherError

record store_env =
  se_token :: "8 word list option"
  se_create_ok :: bool
  se_copy :: "upload_error option"
  se_close_ok :: bool
  se_written :: nat
  se_remove_ok :: bool

definition storeUpload ::
  "store_env \<Rightarrow> string \<Rightarrow> string \<Rightarrow> string \<Rightarrow> files \<Rightarrow> (upload_error, string \<times> int) result \<times> files" where
  "storeUpload env dir content original fs =
     (case storedName (se_token env) original of
        None \<Rightarrow> (Inl OtherError, fs)
      | Some stored \<Rightarrow>
          let path = Join_path [dir, stored] in
          if \<not> se_create_ok env \<or> fs path \<noteq> None then (Inl OtherError, fs)
          else case (case se_copy env of Some e \<Rightarrow> Some e | None \<Rightarrow> if se_close_ok env then None else Some OtherError) of
            Some e \<Rightarrow> (Inl e, if se_remove_ok env then fs else fs(path \<mapsto> take (se_written env) content))
          | None \<Rightarrow> (Inr (stored, int (length content)), fs(path \<mapsto> content)))"

text \<open>A file kept from an earlier job becomes an upload by a link, or else by a copy under a second token.\<close>

definition linkUpload ::
  "8 word list option \<Rightarrow> bool \<Rightarrow> bool \<Rightarrow> store_env \<Rightarrow> string \<Rightarrow> string \<Rightarrow> string \<Rightarrow> files \<Rightarrow>
    (upload_error, string \<times> int) result \<times> files" where
  "linkUpload token link_ok open_ok env dir src original fs =
     (case fs src of
        None \<Rightarrow> (Inl OtherError, fs)
      | Some content \<Rightarrow>
          let copy = (if open_ok then storeUpload env dir content (sanitiseFilename original) fs else (Inl OtherError, fs)) in
          case storedName token (sanitiseFilename original) of
            None \<Rightarrow> copy
          | Some stored \<Rightarrow>
              let path = Join_path [dir, stored] in
              if link_ok \<and> fs path = None then (Inr (stored, int (length content)), fs(path \<mapsto> content)) else copy)"

subsection \<open>Resolving\<close>

text \<open>\<open>rs_abs\<close>, \<open>rs_eval\<close> and \<open>rs_regular\<close> are \<open>filepath.Abs\<close>, \<open>filepath.EvalSymlinks\<close> and the mode \<open>os.Stat\<close> finds.\<close>

record resolve_env =
  rs_dir :: string
  rs_abs :: "string \<Rightarrow> string option"
  rs_eval :: "string \<Rightarrow> string option"
  rs_regular :: "string \<Rightarrow> bool"

datatype resolve_error = BadUploadID | NoUploadDir

definition evalDir :: "resolve_env \<Rightarrow> (resolve_error, string) result" where
  "evalDir env =
     (case rs_abs env (rs_dir env) of
        None \<Rightarrow> Inl NoUploadDir
      | Some a \<Rightarrow> (case rs_eval env a of Some target \<Rightarrow> Inr target | None \<Rightarrow> Inr (Clean a)))"

definition bad_id :: "string \<Rightarrow> bool" where
  "bad_id i \<longleftrightarrow>
     i = '''' \<or> length i > 512 \<or> ContainsAny i [CHR ''/'', CHR 0x5C] \<or> CHR 0x00 \<in> set i \<or> i = ''.'' \<or>
     Contains i ''..'' \<or> IsAbs i \<or> Clean i \<noteq> i \<or> Base i \<noteq> i"

definition resolveUpload :: "resolve_env \<Rightarrow> string \<Rightarrow> (resolve_error, string) result" where
  "resolveUpload env i =
     (if bad_id i then Inl BadUploadID
      else case evalDir env of
        Inl e \<Rightarrow> Inl e
      | Inr dir \<Rightarrow>
          case rs_eval env (Join_path [dir, i]) of
            None \<Rightarrow> Inl BadUploadID
          | Some target \<Rightarrow>
              if target \<noteq> dir \<and> \<not> HasPrefix target (dir @ ''/'') then Inl BadUploadID
              else if \<not> rs_regular env target then Inl BadUploadID
              else Inr target)"

end
