(* ===== verification/UploadsSpec.thy ===== *)
theory UploadsSpec
  imports Uploads ExecSpec
begin

text \<open>
  What the upload names guarantee, and which ids a client can come back with.
\<close>

subsection \<open>Runes\<close>

lemma runes_concat [simp]: "concat (runes s) = s"
  by (induction s rule: runes.induct) (subst runes.simps, auto)

lemma first_rune_le: "first_rune s \<le> 4"
  by (auto simp: first_rune_def rune_len_def Let_def split: option.splits list.splits if_splits)

lemma runes_short: "r \<in> set (runes s) \<Longrightarrow> length r \<le> 4"
proof (induction s rule: runes.induct)
  case (1 s)
  then show ?case using first_rune_le [of s] by (cases "s = []") (auto simp: runes.simps [of s] runes_code(1))
qed

lemma length_concat_le: "(\<And>r. r \<in> set rs \<Longrightarrow> length r \<le> n) \<Longrightarrow> length (concat rs) \<le> n * length rs"
  by (induction rs) (auto, fastforce)

lemma runes_bound: "length s \<le> 4 * length (runes s)"
  using length_concat_le [of "runes s" 4] runes_short by fastforce

text \<open>A rune is one byte or made of bytes outside ASCII.\<close>

lemma take_Suc_set: "set (take (Suc n) (c # t)) = insert c (set (take n t))"
  by simp

lemma first_rune_bytes:
  assumes "s \<noteq> []" shows "(\<exists>c. take (first_rune s) s = [c]) \<or> (\<forall>c \<in> set (take (first_rune s) s). 0x80 \<le> byte c)"
proof -
  obtain c t where s: "s = c # t" using assms by (cases s) auto
  have second: "t \<noteq> [] \<Longrightarrow> second_byte b (hd t) \<Longrightarrow> 0x80 \<le> byte (hd t)" for b
    by (auto simp: second_byte_def cont_def split: if_splits)
  show ?thesis
  proof (cases "rune_len s")
    case None
    then show ?thesis by (simp add: first_rune_def s)
  next
    case (Some n)
    show ?thesis
    proof (cases t)
      case Nil
      then show ?thesis using Some s first_rune_pos [of s] by (cases "first_rune s") auto
    next
      case (Cons d u)
      then show ?thesis
        using Some s second [of "byte c"]
        by (auto simp: first_rune_def rune_len_def Let_def cont_def list_all_iff numeral_eq_Suc take_Cons'
            split: if_splits)
    qed
  qed
qed

lemma runes_bytes: "r \<in> set (runes s) \<Longrightarrow> (\<exists>c. r = [c]) \<or> (\<forall>c \<in> set r. 0x80 \<le> byte c)"
proof (induction s rule: runes.induct)
  case (1 s)
  then show ?case using first_rune_bytes [of s] by (cases "s = []") (auto simp: runes.simps [of s] runes_code(1))
qed


subsection \<open>Names\<close>

text \<open>A byte that may stand in a stored name.\<close>

definition stored_char :: "char \<Rightarrow> bool" where
  "stored_char c \<longleftrightarrow> 0x20 < byte c \<and> byte c \<noteq> 0x7F \<and> c \<noteq> CHR ''/'' \<and> c \<notin> set shell_chars"

lemma high_stored: "0x80 \<le> byte c \<Longrightarrow> stored_char c"
  by (auto simp: stored_char_def shell_chars_def byte_def)

lemma clean_rune_stored:
  assumes "(\<exists>c. r = [c]) \<or> (\<forall>c \<in> set r. 0x80 \<le> byte c)" and "c \<in> set (clean_rune r)" shows "stored_char c"
proof -
  have us: "stored_char (CHR ''_'')" by (simp add: stored_char_def shell_chars_def byte_def)
  show ?thesis
  proof (cases "r = [c]")
    case True
    have "byte c \<noteq> 0x20" if "[c] \<notin> set space_runes"
    proof
      assume "byte c = 0x20"
      then have "c = char_of (0x20 :: nat)" unfolding byte_def by (metis char_of_char)
      moreover have "char_of (0x20 :: nat) = CHR 0x20" by code_simp
      ultimately have "c = CHR 0x20" by (rule trans)
      with that show False by (simp add: space_runes_def)
    qed
    then have "[c] \<notin> set space_runes \<Longrightarrow> \<not> is_control [c] \<Longrightarrow> 0x20 < byte c \<and> byte c \<noteq> 0x7F"
      by (force simp: is_control_def)
    with True assms(2) us show ?thesis by (auto simp: clean_rune_def stored_char_def split: if_splits)
  next
    case False
    with assms us high_stored show ?thesis by (auto simp: clean_rune_def split: if_splits)
  qed
qed


lemma concat_stored: "c \<in> set (concat (map clean_rune (runes s))) \<Longrightarrow> stored_char c"
proof -
  assume "c \<in> set (concat (map clean_rune (runes s)))"
  then obtain r where r: "r \<in> set (runes s)" "c \<in> set (clean_rune r)" by auto
  then show ?thesis using clean_rune_stored [OF runes_bytes [OF r(1)] r(2)] by simp
qed

lemma Ext_sublist: "\<exists>a. out = a @ Ext out"
proof -
  define b where "b = (case LastIndexByte out CHR ''/'' of Some i \<Rightarrow> drop (Suc i) out | None \<Rightarrow> out)"
  have "\<exists>a. out = a @ b" by (auto simp: b_def split: option.splits) (metis append_take_drop_id)
  moreover have "\<exists>a. b = a @ Ext out" if "Ext out \<noteq> ''''"
    using that by (auto simp: Ext_def Let_def simp flip: b_def split: option.splits) (metis append_take_drop_id)
  ultimately show ?thesis by (metis append.assoc append_Nil2)
qed

lemma LastIndexByte_hd: "LastIndexByte b c = Some i \<Longrightarrow> i < length b \<and> drop i b \<noteq> [] \<and> hd (drop i b) = c"
proof -
  assume "LastIndexByte b c = Some i"
  then obtain k where k: "IndexByte (rev b) c = Some k" "i = length b - Suc k" by (auto simp: LastIndexByte_def)
  from IndexByte_Some [OF k(1)] have "k < length b" "b ! i = c" by (auto simp: rev_nth k(2))
  moreover have "i < length b" using k(2) \<open>k < length b\<close> by linarith
  ultimately show ?thesis by (simp add: hd_drop_conv_nth)
qed

lemma Ext_hd: "Ext out \<noteq> '''' \<Longrightarrow> hd (Ext out) = CHR ''.''"
  using LastIndexByte_hd by (auto simp: Ext_def Let_def split: option.splits)

text \<open>A trimmed name: not empty, and none of dot, underscore and dash at either end.\<close>

definition tidy :: "string \<Rightarrow> bool" where
  "tidy s \<longleftrightarrow> s \<noteq> '''' \<and> hd s \<notin> set ''._-'' \<and> last s \<notin> set ''._-''"

lemma tidy_Trim: "Trim s ''._-'' \<noteq> '''' \<Longrightarrow> tidy (Trim s ''._-'')"
  using Trim_shape [of s "''._-''"] by (simp add: tidy_def)

lemma Trim_keeps_hd: "s \<noteq> '''' \<Longrightarrow> hd s \<notin> set cs \<Longrightarrow> Trim s cs \<noteq> '''' \<and> hd (Trim s cs) = hd s"
proof -
  assume s: "s \<noteq> ''''" "hd s \<notin> set cs"
  then have "dropWhile (\<lambda>c. c \<in> set cs) s = s" by (cases s) auto
  then have t: "rev (Trim s cs) = dropWhile (\<lambda>c. c \<in> set cs) (rev s)" by (simp add: Trim_def)
  have "hd s \<in> set (rev s)" using s(1) by simp
  then have "dropWhile (\<lambda>c. c \<in> set cs) (rev s) \<noteq> []" using s(2) by (metis dropWhile_eq_Nil_conv)
  then have "Trim s cs \<noteq> []" by (metis t rev_is_Nil_conv)
  moreover obtain b where "rev s = b @ rev (Trim s cs)" unfolding t by (metis takeWhile_dropWhile_id)
  then have "s = Trim s cs @ rev b" by (metis rev_append rev_rev_ident)
  ultimately show ?thesis by (metis hd_append2)
qed

lemma short_name_shape:
  assumes "tidy out" and "list_all stored_char out"
  shows "tidy (short_name out) \<and> list_all stored_char (short_name out) \<and> length (short_name out) \<le> 480"
proof (cases "length (runes out) > maxStoredName")
  case False
  then show ?thesis using assms runes_bound [of out] by (simp add: short_name_def maxStoredName_def)
next
  case True
  define ext where "ext = (if length (runes (Ext out)) > 16 then '''' else Ext out)"
  define keep where "keep = maxStoredName - length (runes ext)"
  define stem where "stem = take keep (runes (TrimSuffix out ext))"
  have ext: "length (runes ext) \<le> 16" by (simp add: ext_def runes_code(1))
  have sn: "short_name out = Trim (concat stem) ''._-'' @ ext"
    using True by (simp add: short_name_def Let_def stem_def keep_def ext_def)
  have "\<exists>a. out = a @ ext" using Ext_sublist [of out] by (simp add: ext_def)
  then obtain a where a: "out = a @ ext" by blast
  have "ext \<noteq> '''' \<Longrightarrow> hd ext = CHR ''.''" using Ext_hd [of out] by (auto simp: ext_def split: if_splits)
  then have ane: "a \<noteq> ''''" using a assms(1) by (auto simp: tidy_def)
  have ts: "TrimSuffix out ext = a" by (simp add: a TrimSuffix_def)
  obtain b where ab: "a = concat stem @ b" by (metis append_take_drop_id concat_append runes_concat stem_def ts)
  have "runes a \<noteq> []" "0 < keep" using ane ext by (auto simp: runes.simps [of a] keep_def maxStoredName_def)
  moreover have "hd (runes a) \<noteq> []" using ane first_rune_pos [of a] by (simp add: runes.simps [of a])
  ultimately have "concat stem \<noteq> ''''" by (auto simp: stem_def ts) (metis hd_in_set hd_take list.set_sel(1) take_eq_Nil not_gr_zero)
  moreover have "hd (concat stem) = hd out" using calculation a ab by simp
  ultimately have t: "Trim (concat stem) ''._-'' \<noteq> ''''" "hd (Trim (concat stem) ''._-'') = hd out"
    using Trim_keeps_hd [of "concat stem" "''._-''"] assms(1) by (auto simp: tidy_def)
  obtain x y where xy: "concat stem = x @ Trim (concat stem) ''._-'' @ y" using Trim_sublist by blast
  have "length (Trim (concat stem) ''._-'') \<le> length (concat stem)" using arg_cong [OF xy, of length] by simp
  also have "\<dots> \<le> 4 * length stem"
    by (rule length_concat_le) (metis in_set_takeD runes_short stem_def)
  also have "\<dots> \<le> 4 * keep" by (simp add: stem_def)
  finally have "length (short_name out) \<le> 480"
    using runes_bound [of ext] ext by (simp add: sn keep_def maxStoredName_def)
  moreover have "list_all stored_char (short_name out)"
  proof -
    have "set (Trim (concat stem) ''._-'') \<subseteq> set (concat stem)" using arg_cong [OF xy, of set] by auto
    moreover have "set out = set (concat stem) \<union> set b \<union> set ext" unfolding a ab by auto
    ultimately have "set (short_name out) \<subseteq> set out" unfolding sn by auto
    then show ?thesis using assms(2) by (auto simp: list_all_iff)
  qed
  moreover have "tidy (short_name out)"
  proof (cases "ext = ''''")
    case True
    then show ?thesis using tidy_Trim [OF t(1)] by (simp add: sn)
  next
    case False
    then have "last out = last ext" using a by simp
    with False t assms(1) show ?thesis by (simp add: sn tidy_def)
  qed
  ultimately show ?thesis by simp
qed

lemma sanitiseFilename_shape:
  "tidy (sanitiseFilename name) \<and> list_all stored_char (sanitiseFilename name) \<and> length (sanitiseFilename name) \<le> 480"
proof -
  define s where "s = ToValidUTF8 (Base (ReplaceAll name [CHR 0x5C] ''/''))"
  define out where "out = Trim (concat (map clean_rune (runes s))) ''._-''"
  have up: "tidy ''upload'' \<and> list_all stored_char ''upload''" by code_simp
  obtain x y where "concat (map clean_rune (runes s)) = x @ out @ y" unfolding out_def using Trim_sublist by blast
  then have chars: "list_all stored_char out" using concat_stored [of _ s] by (auto simp: list_all_iff)
  have n: "sanitiseFilename name =
      (if out = '''' \<or> out = ''.'' \<or> out = ''..'' then ''upload'' else if short_name out = '''' then ''upload'' else short_name out)"
    by (simp add: sanitiseFilename_def Let_def flip: s_def out_def)
  show ?thesis
  proof (cases "out = ''''")
    case False
    then have "tidy out" using tidy_Trim by (simp add: out_def)
    from short_name_shape [OF this chars] up show ?thesis unfolding n by auto
  qed (use up in \<open>simp add: n\<close>)
qed

text \<open>
  Whatever file name a client sends, the name kept is harmless on disk and in an argument list: not empty, not
  beginning or ending with a dot, an underscore or a dash, and free of slashes, backslashes, control characters,
  spaces, quotes and every other byte a shell gives a meaning to. It is cut to 120 runes, which can be 480 bytes.
\<close>
theorem stored_name_safe:
  shows "sanitiseFilename name \<noteq> '''' \<and> hd (sanitiseFilename name) \<notin> set ''._-'' \<and> last (sanitiseFilename name) \<notin> set ''._-'' \<and>
    list_all stored_char (sanitiseFilename name) \<and> length (sanitiseFilename name) \<le> 480"
  using sanitiseFilename_shape [of name] by (simp add: tidy_def)

subsection \<open>From an upload to a job\<close>


lemma hex_char: "list_all (\<lambda>c. is_digit c \<or> is_lower c) (hex_encode bs)"
proof -
  have "is_digit (hex_digit d) \<or> is_lower (hex_digit d)" if "d < 16" for d
  proof -
    from that have "d \<in> set [0..<16]" by simp
    then show ?thesis by (auto simp: hex_digit_def upt_rec byte_class_defs)
  qed
  moreover have "unat (b :: 8 word) div 16 < 16" for b using unsigned_less [of b, where 'a = nat] by (simp add: less_mult_imp_div_less)
  ultimately show ?thesis by (induction bs) simp_all
qed

lemma hex_stored: "list_all stored_char (hex_encode bs)" "CHR ''-'' \<notin> set (hex_encode bs)" "CHR ''.'' \<notin> set (hex_encode bs)"
  using hex_char [of bs] by (auto simp: list_all_iff stored_char_def shell_chars_def byte_class_defs)

text \<open>A stored id is one proper name.\<close>

lemma Contains_dots_prefix: "CHR ''.'' \<notin> set a \<Longrightarrow> Contains (a @ s) ''..'' \<longleftrightarrow> Contains s ''..''"
  by (induction a) (auto simp: HasPrefix_def)

lemma Clean_proper: "proper_name s \<Longrightarrow> Clean s = s"
proof -
  assume s: "proper_name s"
  then have "CHR ''/'' \<notin> set s" "s \<noteq> ''''" by (simp_all add: proper_name_def)
  then have "Split s CHR ''/'' = [s]" "\<not> IsAbs s" by (auto simp: Split_id IsAbs_def HasPrefix_iff)
  with s show ?thesis using clean_push_names [of "[s]" False "[]"]
    by (simp add: Clean_def clean_elems_def proper_name_def Let_def)
qed

lemma Base_proper: "proper_name s \<Longrightarrow> Base s = s"
proof -
  assume s: "proper_name s"
  then have "dropWhile (\<lambda>c. c \<in> set ''/'') (rev s) = rev s"
    unfolding dropWhile_eq_self_iff proper_name_def by (metis empty_iff empty_set hd_in_set rev_is_Nil_conv set_ConsD set_rev)
  then have "TrimRight s ''/'' = s" by (simp add: TrimRight_def)
  moreover have "LastIndexByte s CHR ''/'' = None" using s by (simp add: LastIndexByte_None proper_name_def)
  ultimately show ?thesis using s by (simp add: Base_def Let_def proper_name_def)
qed

lemma bad_id_proper:
  assumes "list_all stored_char i" and "proper_name i" and "length i \<le> 512" shows "bad_id i \<longleftrightarrow> Contains i ''..''"
proof -
  have "\<not> stored_char CHR ''/''" "\<not> stored_char CHR 0x5C" "\<not> stored_char CHR 0x00" by code_simp+
  then have "\<not> ContainsAny i [CHR ''/'', CHR 0x5C]" "CHR 0x00 \<notin> set i"
    using assms(1) by (auto simp: ContainsAny_def list_ex_iff list_all_iff)
  moreover have "\<not> IsAbs i" using assms(2) by (cases i) (auto simp: IsAbs_def HasPrefix_iff proper_name_def)
  ultimately show ?thesis
    using assms(2,3) Clean_proper Base_proper by (auto simp: bad_id_def proper_name_def)
qed

lemma storedName_shape:
  assumes "length token = uploadTokenBytes" and i_def: "i = hex_encode token @ ''-'' @ sanitiseFilename name"
  shows "proper_name i \<and> list_all stored_char i \<and> length i \<le> 512 \<and> originalName i = sanitiseFilename name \<and>
    (Contains i ''..'' \<longleftrightarrow> Contains (sanitiseFilename name) ''..'')"
proof -
  note safe = sanitiseFilename_shape [of name]
  have len: "length (hex_encode token) = 16" using assms(1) by (simp add: uploadTokenBytes_def)
  have chars: "list_all stored_char i"
    using safe hex_stored(1) by (auto simp: i_def list_all_iff) (simp add: stored_char_def shell_chars_def byte_def)
  then have "CHR ''/'' \<notin> set i" by (auto simp: list_all_iff stored_char_def)
  moreover have "length i > 2" using len by (simp add: i_def)
  ultimately have "proper_name i" by (auto simp: proper_name_def)
  moreover have "IndexByte i CHR ''-'' = Some 16"
    using IndexByte_append_notin [OF hex_stored(2), of token] len by (simp add: i_def)
  then have "originalName i = sanitiseFilename name" using len by (simp add: originalName_def uploadTokenBytes_def i_def)
  moreover have "Contains i ''..'' \<longleftrightarrow> Contains (sanitiseFilename name) ''..''"
    using Contains_dots_prefix [of "hex_encode token @ ''-''"] hex_stored(3) by (simp add: i_def)
  ultimately show ?thesis using chars safe len by (simp add: i_def)
qed

lemma rooted_Clean: "rooted_dir d \<Longrightarrow> Clean d = d"
  using Clean_rooted by (auto simp only: rooted_dir_def)

text \<open>
  C34. An upload can be used exactly when its name holds no two dots in a row. Storing a file under a fresh token puts
  its content at one new path of the upload directory and touches nothing else. The id handed back resolves to
  that very path, and the original name is read back from it, unless the kept name contains "..": then the upload is
  stored and answered with success, and every job that names it is refused.
\<close>
theorem upload_resolves:
  assumes "storeUpload env d content (sanitiseFilename name) fs = (Inr (i, n), fs')"
    and "\<And>t. se_token env = Some t \<Longrightarrow> length t = uploadTokenBytes"
    and "evalDir disk = Inr d" and "rooted_dir d"
    and "\<And>p. fs' p \<noteq> None \<Longrightarrow> rs_eval disk p = Some p \<and> rs_regular disk p"
  shows "n = int (length content) \<and> fs (d @ ''/'' @ i) = None \<and> fs' = fs(d @ ''/'' @ i \<mapsto> content) \<and>
    originalName i = sanitiseFilename name \<and>
    resolveUpload disk i = (if Contains (sanitiseFilename name) ''..'' then Inl BadUploadID else Inr (d @ ''/'' @ i))"
proof -
  obtain t where t: "se_token env = Some t" "i = hex_encode t @ ''-'' @ sanitiseFilename name"
      "fs (Join_path [d, i]) = None" "fs' = fs(Join_path [d, i] \<mapsto> content)" "n = int (length content)"
    using assms(1) by (auto simp: storeUpload_def storedName_def Let_def split: option.splits if_splits)
  note name = storedName_shape [OF assms(2) [OF t(1)] t(2)]
  have join: "Join_path [d, i] = d @ ''/'' @ i" using Join_path_rooted [OF assms(4)] name by blast
  have "rs_eval disk (d @ ''/'' @ i) = Some (d @ ''/'' @ i)" "rs_regular disk (d @ ''/'' @ i)"
    using assms(5) t(4) join by auto
  moreover have "HasPrefix (d @ ''/'' @ i) (d @ ''/'')" by (simp add: HasPrefix_iff)
  ultimately have "resolveUpload disk i = (if bad_id i then Inl BadUploadID else Inr (d @ ''/'' @ i))"
    by (simp add: resolveUpload_def assms(3) join)
  then show ?thesis using name bad_id_proper [of i] t join by auto
qed

definition demo_disk :: resolve_env where
  "demo_disk = \<lparr>rs_dir = ''/data/uploads'', rs_abs = Some, rs_eval = Some, rs_regular = (\<lambda>_. True)\<rparr>"

definition demo_store :: store_env where
  "demo_store = \<lparr>se_token = Some [0, 1, 2, 3, 4, 5, 6, 255], se_create_ok = True, se_copy = None, se_close_ok = True, se_written = 0,
     se_remove_ok = True\<rparr>"

lemma demo_dir: "rooted_dir ''/data/uploads''"
  unfolding rooted_dir_def by (rule exI [of _ "[''data'', ''uploads'']"]) (simp add: proper_name_def)

text \<open>A name with two dots in a row is stored, and then never found.\<close>

lemma upload_resolves_witness:
  "resolveUpload demo_disk ''00010203040506ff-my_clip.mp4'' = Inr ''/data/uploads/00010203040506ff-my_clip.mp4'' \<and>
   resolveUpload demo_disk ''00010203040506ff-wait..what.mp4'' = Inl BadUploadID"
proof
  have names: "sanitiseFilename ''dir/my clip.mp4'' = ''my_clip.mp4''" "sanitiseFilename ''wait..what.mp4'' = ''wait..what.mp4''"
    by code_simp+
  have hex: "hex_encode [0, 1, 2, 3, 4, 5, 6, 255] = ''00010203040506ff''" by code_simp
  have path: "Join_path [''/data/uploads'', ''00010203040506ff-my_clip.mp4''] = ''/data/uploads/00010203040506ff-my_clip.mp4''"
    "Join_path [''/data/uploads'', ''00010203040506ff-wait..what.mp4''] = ''/data/uploads/00010203040506ff-wait..what.mp4''"
    by code_simp+
  have stored: "storeUpload demo_store ''/data/uploads'' ''x'' (sanitiseFilename ''dir/my clip.mp4'') (\<lambda>_. None) =
      (Inr (''00010203040506ff-my_clip.mp4'', 1), [''/data/uploads/00010203040506ff-my_clip.mp4'' \<mapsto> ''x''])"
    "storeUpload demo_store ''/data/uploads'' ''x'' (sanitiseFilename ''wait..what.mp4'') (\<lambda>_. None) =
      (Inr (''00010203040506ff-wait..what.mp4'', 1), [''/data/uploads/00010203040506ff-wait..what.mp4'' \<mapsto> ''x''])"
    by (simp_all add: names storeUpload_def demo_store_def storedName_def hex path del: hex_encode.simps)
  have env: "length t = uploadTokenBytes" if "se_token demo_store = Some t" for t
    using that by (auto simp: demo_store_def uploadTokenBytes_def)
  have disk: "evalDir demo_disk = Inr ''/data/uploads''" "\<And>p. rs_eval demo_disk p = Some p \<and> rs_regular demo_disk p"
    by (simp_all add: evalDir_def demo_disk_def)
  note use = upload_resolves [OF _ env disk(1) demo_dir disk(2), THEN conjunct2, THEN conjunct2, THEN conjunct2, THEN conjunct2]
  show "resolveUpload demo_disk ''00010203040506ff-my_clip.mp4'' = Inr ''/data/uploads/00010203040506ff-my_clip.mp4''"
    using use [OF stored(1)] by (simp add: names HasPrefix_def)
  show "resolveUpload demo_disk ''00010203040506ff-wait..what.mp4'' = Inl BadUploadID"
    using use [OF stored(2)] by (simp add: names HasPrefix_def)
qed

end
