(* ===== verification/Respond.thy ===== *)
theory Respond
  imports Presets Exec
begin

text \<open>
  How handlers answer and read their bodies, \<open>internal/api/respond.go\<close>. An answer is a status with a JSON value or
  the error envelope.
\<close>

record errorBody =
  eb_Code :: string
  eb_Message :: string
  eb_Field :: string
  eb_Reason :: "reason option"

datatype 'a reply = Reply nat 'a | ErrorReply nat errorBody

definition writeError :: "nat \<Rightarrow> string \<Rightarrow> string \<Rightarrow> 'a reply" where
  "writeError status code message =
     ErrorReply status \<lparr>eb_Code = code, eb_Message = message, eb_Field = '''', eb_Reason = None\<rparr>"

text \<open>Every error the handlers pass here is a \<open>*presets.ValidationError\<close>.\<close>

definition writeValidationError :: "ValidationError \<Rightarrow> 'a reply" where
  "writeValidationError e =
     ErrorReply 400 \<lparr>eb_Code = ''invalid_params'', eb_Message = '''', eb_Field = v_field e, eb_Reason = Some (v_reason e)\<rparr>"

definition is_error :: "'a reply \<Rightarrow> bool" where
  "is_error r \<longleftrightarrow> (case r of Reply _ _ \<Rightarrow> False | ErrorReply _ _ \<Rightarrow> True)"

lemma is_error_simps [simp]:
  "\<not> is_error (Reply s r)" "is_error (ErrorReply s e)" "is_error (writeError s c m)" "is_error (writeValidationError v)"
  by (simp_all add: is_error_def writeError_def writeValidationError_def)

subsection \<open>Reading a body\<close>

text \<open>What the decoder finds: more than the limit allows, no JSON value, or a first value.\<close>

datatype body = TooLarge | Malformed | Body json

text \<open>Without \<open>DisallowUnknownFields\<close> a member that names no field is skipped.\<close>

fun decode_lenient :: "'p json_fields \<Rightarrow> json \<Rightarrow> 'p \<Rightarrow> 'p option" where
  "decode_lenient fs (JObj ms) p = decode_members fs (filter (\<lambda>(k, _). find_field fs k \<noteq> None) ms) p"
| "decode_lenient fs j p = decode_struct fs j p"

text \<open>\<open>media\<close> is what \<open>mime.ParseMediaType\<close> reads from the content type.\<close>

definition decodeJSON :: "string option \<Rightarrow> body \<Rightarrow> 'p json_fields \<Rightarrow> 'p \<Rightarrow> ('a reply, 'p) result" where
  "decodeJSON media body fs zero =
     (if media \<noteq> Some ''application/json'' then
        Inl (writeError 415 ''unsupported_media_type'' ''Content-Type must be application/json'')
      else case body of
        TooLarge \<Rightarrow> Inl (writeError 413 ''body_too_large'' ''request body is too large'')
      | Malformed \<Rightarrow> Inl (writeError 400 ''invalid_json'' ''request body is not valid JSON'')
      | Body j \<Rightarrow> (case decode_lenient fs j zero of
          None \<Rightarrow> Inl (writeError 400 ''invalid_json'' ''request body is not valid JSON'')
        | Some v \<Rightarrow> Inr v))"

lemma decodeJSON_Inl: "decodeJSON media body fs zero = Inl r \<Longrightarrow> is_error r"
  by (auto simp: decodeJSON_def split: if_splits body.splits option.splits)

end
