(* ===== verification/Handlers.thy ===== *)
theory Handlers
  imports Respond Uploads Params SourceURL Queue ProbeLimit Manager
begin

text \<open>
  The handlers of \<open>internal/api/\<close>: jobs, uploads, files, lookups, sessions and the event stream. A handler takes what
  the request and the system answer, and the state it works on, and gives the reply and the state it leaves.
\<close>

subsection \<open>Creating a job\<close>

record createJobRequest =
  rq_Type :: string
  rq_URL :: string
  rq_UploadID :: string
  rq_Params :: "json option"

text \<open>A \<open>json.RawMessage\<close> takes the value as it is, \<open>null\<close> too.\<close>

definition CreateFields :: "createJobRequest json_fields" where
  "CreateFields =
     [(''type'', store_string rq_Type_update), (''url'', store_string rq_URL_update),
      (''upload_id'', store_string rq_UploadID_update), (''params'', \<lambda>v p. Some (p\<lparr>rq_Params := Some v\<rparr>))]"

text \<open>
  \<open>ce_parse\<close> and \<open>ce_resolve\<close> are \<open>url.Parse\<close> and the resolver, \<open>ce_json\<close> is the text \<open>json.Marshal\<close> writes for a value,
  \<open>ce_dec\<close> what it makes of a float, \<open>ce_nid\<close> the id drawn.
\<close>

record create_env =
  ce_parse :: "string \<Rightarrow> URL option"
  ce_resolve :: "string \<Rightarrow> Addr option list option"
  ce_disk :: resolve_env
  ce_json :: "json \<Rightarrow> string"
  ce_dec :: "rat \<Rightarrow> rat"
  ce_h_first :: bool
  ce_now :: Time
  ce_nid :: string

text \<open>Where the job's input comes from: the source URL, or an upload.\<close>

definition job_source :: "create_env \<Rightarrow> Type \<Rightarrow> createJobRequest \<Rightarrow> (ValidationError, Job) result" where
  "job_source env typ req =
     (let job = new_job typ in
      if typ = TypeDownload then
        case ValidateSourceURL (ce_parse env) (ce_resolve env) (rq_URL req) of
          Inl e \<Rightarrow> Inl e
        | Inr clean \<Rightarrow> Inr (job\<lparr>j_Source := clean, j_Title := clean\<rparr>)
      else if TrimSpace (rq_UploadID req) = '''' then Inl (invalid ''upload_id'' (Text ''is required for this job type''))
      else case resolveUpload (ce_disk env) (rq_UploadID req) of
          Inl _ \<Rightarrow> Inl (invalid ''upload_id'' (Text ''unknown or invalid upload''))
        | Inr path \<Rightarrow>
            let source = originalName (Base path) in
            Inr (job\<lparr>j_InputPath := path, j_Source := source, j_Title := source\<rparr>))"

definition day :: int where "day = 24 * 3600 * 1000000000"

definition job_of_request :: "create_env \<Rightarrow> int \<Rightarrow> createJobRequest \<Rightarrow> (ValidationError, Job) result" where
  "job_of_request env retention req =
     (case valid_type (TrimSpace (rq_Type req)) of
        None \<Rightarrow> Inl (invalid ''type'' (Text ''must be download, convert, compress, image or edit''))
      | Some typ \<Rightarrow> (case job_source env typ req of
          Inl e \<Rightarrow> Inl e
        | Inr job \<Rightarrow> (case parseParams (ce_h_first env) typ (rq_Params req) retention of
            Inl e \<Rightarrow> Inl e
          | Inr (ps, days) \<Rightarrow>
              Inr (job\<lparr>j_Params := ce_json env (Marshal (ce_dec env) ps),
                       j_ExpiresAt := (if days > 0 then Some (ce_now env + days * day) else None)\<rparr>))))"

text \<open>A send on the closed channel panics; \<open>recoverMW\<close> answers for it.\<close>

definition submit_error :: "queue_error \<Rightarrow> 'a reply" where
  "submit_error e =
     (case e of
        ErrQueueFull \<Rightarrow> writeError 503 ''queue_full'' ''the job queue is full, try again shortly''
      | ErrNoRunner \<Rightarrow> writeError 503 ''no_runner'' ''no runner is registered for this job type''
      | SendOnClosed \<Rightarrow> writeError 500 ''internal_error'' ''internal server error''
      | _ \<Rightarrow> writeError 500 ''internal_error'' ''could not queue the job'')"

definition handleCreateJob ::
  "create_env \<Rightarrow> int \<Rightarrow> string option \<Rightarrow> body \<Rightarrow> queue \<Rightarrow> Job reply \<times> queue" where
  "handleCreateJob env retention media body q =
     (case decodeJSON media body CreateFields \<lparr>rq_Type = '''', rq_URL = '''', rq_UploadID = '''', rq_Params = None\<rparr> of
        Inl r \<Rightarrow> (r, q)
      | Inr req \<Rightarrow> (case job_of_request env retention req of
          Inl e \<Rightarrow> (writeValidationError e, q)
        | Inr job \<Rightarrow> (case Submit (ce_now env) (ce_nid env) job q of
            (Inl e, q') \<Rightarrow> (submit_error e, q')
          | (Inr j, q') \<Rightarrow> (Reply 202 j, q'))))"

subsection \<open>Reading and changing jobs\<close>

text \<open>\<open>db_ok\<close>: whether the database answers.\<close>

definition lookup_job :: "bool \<Rightarrow> queue \<Rightarrow> string \<Rightarrow> ('a reply, Job) result" where
  "lookup_job db_ok q i =
     (case (if db_ok then Get (q_store q) i else Inl ErrUnavailable) of
        Inl e \<Rightarrow> Inl (if e = ErrNotFound then writeError 404 ''not_found'' ''job not found''
                      else writeError 500 ''internal_error'' ''could not load the job'')
      | Inr j \<Rightarrow> Inr j)"

definition handleGetJob :: "bool \<Rightarrow> string \<Rightarrow> queue \<Rightarrow> Job reply" where
  "handleGetJob db_ok i q = (case lookup_job db_ok q i of Inl r \<Rightarrow> r | Inr j \<Rightarrow> Reply 200 j)"

definition handleListJobs :: "bool \<Rightarrow> string \<Rightarrow> string \<Rightarrow> queue \<Rightarrow> Job list reply" where
  "handleListJobs db_ok status limit q =
     (case (if limit \<noteq> '''' then Atoi limit else Some 0) of
        None \<Rightarrow> writeValidationError (invalid ''limit'' (Text ''must be a non-negative integer''))
      | Some n \<Rightarrow>
          if n < 0 then writeValidationError (invalid ''limit'' (Text ''must be a non-negative integer''))
          else if \<not> db_ok then writeError 500 ''internal_error'' ''could not list jobs''
          else Reply 200 (List_jobs (q_store q) (TrimSpace status) n))"

text \<open>The replies below that carry only \<open>ok\<close> and the id are that id.\<close>

definition handleCancelJob :: "bool \<Rightarrow> string \<Rightarrow> queue \<Rightarrow> string reply \<times> queue" where
  "handleCancelJob db_ok i q =
     (case lookup_job db_ok q i of
        Inl r \<Rightarrow> (r, q)
      | Inr j \<Rightarrow> (case Cancel (j_ID j) q of
          (Inl _, q') \<Rightarrow> (writeError 409 ''not_cancelable'' ''job is not running'', q')
        | (Inr _, q') \<Rightarrow> (Reply 202 (j_ID j), q')))"

text \<open>\<open>rm_ok\<close> says which files can be removed; a failure is only logged.\<close>

definition removeFile :: "(string \<Rightarrow> bool) \<Rightarrow> string \<Rightarrow> queue \<Rightarrow> queue" where
  "removeFile rm_ok path q =
     (if path = '''' \<or> \<not> rm_ok path then q else q\<lparr>q_files := (q_files q)(path := None)\<rparr>)"

definition handleDeleteJob :: "bool \<Rightarrow> bool \<Rightarrow> (string \<Rightarrow> bool) \<Rightarrow> string \<Rightarrow> queue \<Rightarrow> string reply \<times> queue" where
  "handleDeleteJob db_ok delete_ok rm_ok i q =
     (case lookup_job db_ok q i of
        Inl r \<Rightarrow> (r, q)
      | Inr j \<Rightarrow>
          let q = snd (Cancel (j_ID j) q);
              q = removeFile rm_ok (j_InputPath j) (removeFile rm_ok (j_OutputPath j) q)
          in case (if delete_ok then Delete (q_store q) (j_ID j) else Inl ErrUnavailable) of
              Inl e \<Rightarrow> (if e = ErrNotFound then writeError 404 ''not_found'' ''job not found''
                        else writeError 500 ''internal_error'' ''could not delete the job'', q)
            | Inr s \<Rightarrow>
                (Reply 200 (j_ID j),
                 q\<lparr>q_store := s, q_bus := Publish \<lparr>Kind = EventDeleted, JobID = j_ID j, e_Job = None, e_Progress = None\<rparr> (q_bus q)\<rparr>))"

subsection \<open>Downloads\<close>

text \<open>\<open>filepath.Abs\<close> with the working directory, and \<open>filepath.Rel\<close> between two absolute clean paths.\<close>

definition Abs_path :: "string option \<Rightarrow> string \<Rightarrow> string option" where
  "Abs_path cwd p = (if IsAbs p then Some (Clean p) else map_option (\<lambda>wd. Join_path [wd, p]) cwd)"

definition elems_of :: "string \<Rightarrow> string list" where
  "elems_of p = filter (\<lambda>e. e \<noteq> '''') (Split p CHR ''/'')"

fun rel_elems :: "string list \<Rightarrow> string list \<Rightarrow> string list" where
  "rel_elems [] ts = ts"
| "rel_elems (b # bs) [] = replicate (Suc (length bs)) ''..''"
| "rel_elems (b # bs) (t # ts) = (if b = t then rel_elems bs ts else replicate (Suc (length bs)) ''..'' @ t # ts)"

definition Rel :: "string \<Rightarrow> string \<Rightarrow> string" where
  "Rel base targ = (let r = rel_elems (elems_of base) (elems_of targ) in if r = [] then ''.'' else Join r ''/'')"

text \<open>\<open>url.PathEscape\<close>\<close>

definition upper_hex :: "nat \<Rightarrow> char" where
  "upper_hex d = ''0123456789ABCDEF'' ! d"

definition path_unreserved :: "char \<Rightarrow> bool" where
  "path_unreserved c \<longleftrightarrow> is_alnum c \<or> c \<in> set ''-_.~$&+:=@''"

definition escape_byte :: "char \<Rightarrow> string" where
  "escape_byte c = (if path_unreserved c then [c] else [CHR ''%'', upper_hex (byte c div 16), upper_hex (byte c mod 16)])"

definition PathEscape :: "string \<Rightarrow> string" where
  "PathEscape s = concat (map escape_byte s)"

definition accelPath :: "string option \<Rightarrow> string \<Rightarrow> string \<Rightarrow> string \<Rightarrow> string option" where
  "accelPath cwd pre base outputPath =
     (case Abs_path cwd base of
        None \<Rightarrow> None
      | Some absRoot \<Rightarrow> (case Abs_path cwd outputPath of
          None \<Rightarrow> None
        | Some absOut \<Rightarrow>
            let rel = Rel absRoot absOut in
            if rel = ''.'' \<or> rel = ''..'' \<or> HasPrefix rel ''../'' then None
            else Some (TrimRight pre ''/'' @ ''/'' @ Join (map PathEscape (Split rel CHR ''/'')) ''/'')))"

definition mediaTypes :: "(string \<times> string) list" where
  "mediaTypes =
     [(''.mp4'', ''video/mp4''), (''.m4v'', ''video/mp4''), (''.mov'', ''video/quicktime''), (''.mkv'', ''video/x-matroska''),
      (''.webm'', ''video/webm''), (''.mp3'', ''audio/mpeg''), (''.m4a'', ''audio/mp4''), (''.aac'', ''audio/aac''),
      (''.ogg'', ''audio/ogg''), (''.opus'', ''audio/ogg''), (''.wav'', ''audio/wav''), (''.flac'', ''audio/flac''),
      (''.heic'', ''image/heic''), (''.heif'', ''image/heif''), (''.avif'', ''image/avif''), (''.tif'', ''image/tiff''),
      (''.tiff'', ''image/tiff''), (''.bmp'', ''image/bmp'')]"

text \<open>\<open>types\<close> is the system's table, \<open>mime.TypeByExtension\<close>, empty for an unknown extension.\<close>

definition contentTypeFor :: "(string \<Rightarrow> string) \<Rightarrow> string \<Rightarrow> string" where
  "contentTypeFor types name =
     (let ext = ToLower (Ext name) in
      case map_of mediaTypes ext of
        Some ct \<Rightarrow> ct
      | None \<Rightarrow> if types ext \<noteq> '''' then types ext else ''application/octet-stream'')"

text \<open>
  A download: the file name offered, and either the internal location with its content type, or a file Go streams
  itself with a content type when one is known. \<open>stat\<close> is the size of a regular file.
\<close>

datatype delivery = Accel string string string | Stream string string "string option"

definition handleDownload ::
  "bool \<Rightarrow> string option \<Rightarrow> (string \<Rightarrow> int option) \<Rightarrow> (string \<Rightarrow> string) \<Rightarrow> Config \<Rightarrow> string \<Rightarrow> queue \<Rightarrow> delivery reply" where
  "handleDownload db_ok cwd stat types cfg i q =
     (case lookup_job db_ok q i of
        Inl r \<Rightarrow> r
      | Inr j \<Rightarrow>
          if j_Status j \<noteq> StatusDone then
            writeError 409 ''not_ready'' (''job status is \"'' @ status_string (j_Status j) @ ''\", not done'')
          else if j_OutputPath j = '''' then writeError 404 ''no_output'' ''this job produced no file''
          else if stat (j_OutputPath j) = None then writeError 404 ''file_missing'' ''the output file is no longer on disk''
          else let name = Base (j_OutputPath j); ct = contentTypeFor types name in
            case (if cf_XAccelPrefix cfg \<noteq> '''' then accelPath cwd (cf_XAccelPrefix cfg) (cf_DownloadDir cfg) (j_OutputPath j)
                  else None) of
              Some internal \<Rightarrow> Reply 200 (Accel name internal ct)
            | None \<Rightarrow> Reply 200 (Stream name (j_OutputPath j) (if ct \<noteq> ''application/octet-stream'' then Some ct else None)))"

subsection \<open>Files\<close>

record reusableFile =
  rf_JobID :: string
  rf_Source :: string
  rf_Name :: string
  rf_Size :: int
  rf_CreatedAt :: Time

definition filePath :: "Job \<Rightarrow> string \<Rightarrow> string" where
  "filePath j source = (if source = ''output'' then j_OutputPath j else if source = ''input'' then j_InputPath j else '''')"

definition describeFile :: "(string \<Rightarrow> int option) \<Rightarrow> Job \<Rightarrow> string \<Rightarrow> reusableFile option" where
  "describeFile stat j source =
     (let path = filePath j source in
      if path = '''' then None
      else case stat path of
        None \<Rightarrow> None
      | Some sz \<Rightarrow> Some \<lparr>rf_JobID = j_ID j, rf_Source = source,
          rf_Name = (if source = ''output'' \<and> j_OutputName j \<noteq> '''' then j_OutputName j else originalName (Base path)),
          rf_Size = sz, rf_CreatedAt = j_CreatedAt j\<rparr>)"

text \<open>One source of one job against the paths already listed.\<close>

definition add_file ::
  "(string \<Rightarrow> int option) \<Rightarrow> Job \<Rightarrow> string \<Rightarrow> string list \<times> reusableFile list \<Rightarrow> string list \<times> reusableFile list" where
  "add_file stat j source acc =
     (case describeFile stat j source of
        None \<Rightarrow> acc
      | Some f \<Rightarrow> (case acc of (seen, out) \<Rightarrow>
          if filePath j source \<in> set seen then acc else (filePath j source # seen, out @ [f])))"

definition list_files :: "(string \<Rightarrow> int option) \<Rightarrow> Job list \<Rightarrow> reusableFile list" where
  "list_files stat js =
     snd (fold (\<lambda>j acc. add_file stat j ''input'' (if j_Status j = StatusDone then add_file stat j ''output'' acc else acc)) js ([], []))"

definition handleListFiles :: "bool \<Rightarrow> (string \<Rightarrow> int option) \<Rightarrow> queue \<Rightarrow> reusableFile list reply" where
  "handleListFiles db_ok stat q =
     (if \<not> db_ok then writeError 500 ''internal_error'' ''could not list files''
      else Reply 200 (list_files stat (List_jobs (q_store q) '''' 0)))"

text \<open>A stored upload: its id, the name offered, its size.\<close>

type_synonym stored = "string \<times> string \<times> int"

definition handleReuseFile ::
  "string option \<Rightarrow> body \<Rightarrow> bool \<Rightarrow> (string \<Rightarrow> int option) \<Rightarrow>
    (string \<Rightarrow> string \<Rightarrow> files \<Rightarrow> (upload_error, string \<times> int) result \<times> files) \<Rightarrow> string \<Rightarrow> queue \<Rightarrow> files \<Rightarrow> stored reply \<times> files" where
  "handleReuseFile media body db_ok stat link i q fs =
     (case decodeJSON media body [(''source'', store_string (\<lambda>f. f))] '''' of
        Inl r \<Rightarrow> (r, fs)
      | Inr source \<Rightarrow> (case lookup_job db_ok q i of
          Inl r \<Rightarrow> (r, fs)
        | Inr j \<Rightarrow> (case describeFile stat j source of
            None \<Rightarrow> (writeError 404 ''file_missing'' ''that file is no longer on disk'', fs)
          | Some f \<Rightarrow> (case link (filePath j source) (rf_Name f) fs of
              (Inl _, fs') \<Rightarrow> (writeError 500 ''upload_failed'' ''could not reuse that file'', fs')
            | (Inr (stored, sz), fs') \<Rightarrow> (Reply 200 (stored, rf_Name f, sz), fs')))))"

subsection \<open>Uploads\<close>

text \<open>What \<open>NextPart\<close> yields: a part with its form name, file name, content and how writing it goes, or an error.\<close>

datatype part = Part string string string store_env | BadPart

fun upload_parts :: "int \<Rightarrow> string \<Rightarrow> part list \<Rightarrow> files \<Rightarrow> stored reply \<times> files" where
  "upload_parts limit dir [] fs = (writeError 400 ''missing_file'' ''multipart form field \"file\" is required'', fs)"
| "upload_parts limit dir (BadPart # ps) fs = (writeError 400 ''invalid_multipart'' ''could not read the upload'', fs)"
| "upload_parts limit dir (Part form name content env # ps) fs =
     (if form \<noteq> ''file'' \<or> name = '''' then upload_parts limit dir ps fs
      else let original = sanitiseFilename name in
        case storeUpload env dir content original fs of
          (Inl MaxBytesError, fs') \<Rightarrow>
            (writeError 413 ''file_too_large'' (''file exceeds the '' @ Itoa limit @ '' byte upload limit''), fs')
        | (Inl OtherError, fs') \<Rightarrow> (writeError 500 ''upload_failed'' ''could not store the upload'', fs')
        | (Inr (stored, sz), fs') \<Rightarrow> (Reply 200 (stored, original, sz), fs'))"

text \<open>\<open>None\<close>: the body is no multipart form.\<close>

definition handleUpload :: "Config \<Rightarrow> part list option \<Rightarrow> files \<Rightarrow> stored reply \<times> files" where
  "handleUpload cfg parts fs =
     (case parts of
        None \<Rightarrow> (writeError 400 ''invalid_multipart'' ''expected a multipart/form-data body'', fs)
      | Some ps \<Rightarrow> upload_parts (MaxUploadBytes cfg) (cf_UploadDir cfg) ps fs)"

subsection \<open>Lookups and sessions\<close>

datatype 'a probed = Probed 'a | ProbeTimedOut | ProbeFailed

text \<open>\<open>probe\<close> is \<open>None\<close> when no prober is configured. The slot taken is released when the handler returns.\<close>

definition handleProbe ::
  "(string \<Rightarrow> URL option) \<Rightarrow> (string \<Rightarrow> Addr option list option) \<Rightarrow> Time \<Rightarrow> (string \<Rightarrow> 'a probed) option \<Rightarrow>
    string option \<Rightarrow> body \<Rightarrow> probeLimiter \<Rightarrow> 'a reply \<times> probeLimiter" where
  "handleProbe parse resolve now probe media body l =
     (case decodeJSON media body [(''url'', store_string (\<lambda>f. f))] '''' of
        Inl r \<Rightarrow> (r, l)
      | Inr raw \<Rightarrow> (case ValidateSourceURL parse resolve raw of
          Inl e \<Rightarrow> (writeValidationError e, l)
        | Inr clean \<Rightarrow> (case probe of
            None \<Rightarrow> (writeError 503 ''probe_unavailable'' ''metadata lookup is not configured'', l)
          | Some run \<Rightarrow>
              let (ok, l) = acquire now l in
              if \<not> ok then (writeError 429 ''probe_busy'' ''too many metadata lookups in flight, try again shortly'', l)
              else (case run clean of
                  Probed info \<Rightarrow> Reply 200 info
                | ProbeTimedOut \<Rightarrow> writeError 504 ''probe_timeout'' ''metadata lookup timed out''
                | ProbeFailed \<Rightarrow> writeError 502 ''probe_failed'' ''could not read metadata for that URL'', release l))))"

record login_request =
  lr_Username :: string
  lr_Password :: string

definition handleLogin ::
  "kdf \<Rightarrow> login_env \<Rightarrow> string option \<Rightarrow> body \<Rightarrow> Manager \<Rightarrow> Cookie option reply \<times> Manager" where
  "handleLogin IDKey env media body m =
     (case decodeJSON media body
        [(''username'', store_string lr_Username_update), (''password'', store_string lr_Password_update)]
        \<lparr>lr_Username = '''', lr_Password = ''''\<rparr> of
        Inl r \<Rightarrow> (r, m)
      | Inr req \<Rightarrow> (case Login IDKey env (lr_Username req) (lr_Password req) m of
          (Inr cookie, m') \<Rightarrow> (Reply 200 cookie, m')
        | (Inl ErrBadCredentials, m') \<Rightarrow> (writeError 401 ''invalid_credentials'' ''invalid username or password'', m')
        | (Inl ErrRateLimited, m') \<Rightarrow>
            (writeError 429 ''too_many_attempts'' ''too many failed login attempts, try again later'', m')
        | (Inl _, m') \<Rightarrow> (writeError 500 ''internal_error'' ''login failed'', m')))"

definition handleLogout :: "bool \<Rightarrow> string option \<Rightarrow> bool \<Rightarrow> Manager \<Rightarrow> Cookie reply \<times> Manager" where
  "handleLogout delete_ok cookie https m = (let (c, m) = Logout delete_ok cookie https m in (Reply 200 c, m))"

text \<open>Whether the request is authenticated, the name shown, whether authentication is on.\<close>

definition handleMe :: "bool \<Rightarrow> Time \<Rightarrow> string option \<Rightarrow> Config \<Rightarrow> Manager \<Rightarrow> (bool \<times> string \<times> bool) reply \<times> Manager" where
  "handleMe delete_ok now cookie cfg m =
     (let (authed, m) = Authenticated delete_ok now cookie m in
      (Reply 200 (authed, if authed then cf_AuthUsername cfg else '''', cfg_AuthEnabled cfg), m))"

definition handleHealth :: "Config \<Rightarrow> (string \<times> bool) reply" where
  "handleHealth cfg = Reply 200 (''ok'', cfg_AuthEnabled cfg)"

subsection \<open>The event stream\<close>

text \<open>What wakes the loop: the request ends, the channel yields an event or is closed, the ticker fires.\<close>

datatype wake = ClientGone | GotEvent Event | ChannelClosed | Tick

fun kind_string :: "EventKind \<Rightarrow> string" where
  "kind_string EventCreated = ''created''"
| "kind_string EventProgress = ''progress''"
| "kind_string EventStatus = ''status''"
| "kind_string EventDeleted = ''deleted''"

definition newline :: string where "newline = [CHR 0x0A]"

definition event_frame :: "string \<Rightarrow> string \<Rightarrow> string" where
  "event_frame kind payload = ''event: '' @ kind @ newline @ ''data: '' @ payload @ newline @ newline"

text \<open>
  The frames sent. \<open>encode\<close> is \<open>json.Marshal\<close>, \<open>ok k\<close> whether the \<open>k\<close>th write reaches the client; the first that does
  not is the last.
\<close>

fun sse_loop :: "(Event \<Rightarrow> string option) \<Rightarrow> (nat \<Rightarrow> bool) \<Rightarrow> nat \<Rightarrow> wake list \<Rightarrow> string list" where
  "sse_loop encode ok k [] = []"
| "sse_loop encode ok k (ClientGone # ws) = []"
| "sse_loop encode ok k (ChannelClosed # ws) = []"
| "sse_loop encode ok k (GotEvent e # ws) =
     (case encode e of
        None \<Rightarrow> sse_loop encode ok k ws
      | Some payload \<Rightarrow> event_frame (kind_string (Kind e)) payload # (if ok k then sse_loop encode ok (Suc k) ws else []))"
| "sse_loop encode ok k (Tick # ws) =
     ('': keepalive'' @ newline @ newline) # (if ok k then sse_loop encode ok (Suc k) ws else [])"

definition handleEvents :: "(Event \<Rightarrow> string option) \<Rightarrow> (nat \<Rightarrow> bool) \<Rightarrow> wake list \<Rightarrow> string list" where
  "handleEvents encode ok ws = event_frame ''ready'' ''{}'' # (if ok 0 then sse_loop encode ok 1 ws else [])"

end
