(* ===== verification/DownloadSpec.thy ===== *)
theory DownloadSpec
  imports Handlers
begin

text \<open>
  Where the location handed to nginx leads: the escaping is undone by percent-decoding, and the path below the prefix is
  the path of the file below the download directory.
\<close>

subsection \<open>Percent-encoding\<close>

definition nibble :: "char \<Rightarrow> nat" where
  "nibble c = (if is_digit c then byte c - 48 else byte c - 55)"

fun percent_decode :: "string \<Rightarrow> string" where
  "percent_decode [] = []"
| "percent_decode (c # s) =
     (if c = CHR ''%'' then
        (case s of a # b # t \<Rightarrow> char_of (16 * nibble a + nibble b) # percent_decode t | _ \<Rightarrow> c # percent_decode s)
      else c # percent_decode s)"

lemma nibble_upper: "d < 16 \<Longrightarrow> nibble (upper_hex d) = d"
proof -
  assume "d < 16"
  then have "d \<in> set [0..<16]" by simp
  then show ?thesis by (auto simp: upt_rec upper_hex_def nibble_def byte_class_defs)
qed

lemma byte_halves: "byte c div 16 < 16" "byte c mod 16 < 16"
proof -
  have "byte c < 256" by (simp add: byte_def)
  then show "byte c div 16 < 16" by (intro less_mult_imp_div_less) simp
qed simp

lemma percent_decode_escape: "percent_decode (escape_byte c @ s) = c # percent_decode s"
proof (cases "path_unreserved c")
  case True
  then have "c \<noteq> CHR ''%''" by (auto simp: path_unreserved_def byte_class_defs)
  with True show ?thesis by (simp add: escape_byte_def)
next
  case False
  have "nibble (upper_hex (byte c div 16)) = byte c div 16" "nibble (upper_hex (byte c mod 16)) = byte c mod 16"
    by (intro nibble_upper byte_halves)+
  moreover have "char_of (16 * (byte c div 16) + byte c mod 16) = c" by (simp add: byte_def)
  ultimately show ?thesis using False by (simp add: escape_byte_def)
qed

lemma percent_decode_PathEscape: "percent_decode (PathEscape s) = s"
  by (induction s) (simp_all add: PathEscape_def percent_decode_escape)

text \<open>No byte that ends or splits a location survives: letters, digits, a few marks, and the percent sign of an escape.\<close>

definition location_char :: "char \<Rightarrow> bool" where
  "location_char c \<longleftrightarrow> path_unreserved c \<or> c = CHR ''%''"

lemma upper_hex_alnum: "d < 16 \<Longrightarrow> is_alnum (upper_hex d)"
proof -
  assume "d < 16"
  then have "d \<in> set [0..<16]" by simp
  then show ?thesis by (auto simp: upt_rec upper_hex_def byte_class_defs)
qed

lemma escape_chars: "list_all location_char (PathEscape s)"
proof -
  have "list_all location_char (escape_byte c)" for c
  proof -
    have "is_alnum (upper_hex (byte c div 16))" "is_alnum (upper_hex (byte c mod 16))"
      by (intro upper_hex_alnum byte_halves)+
    then show ?thesis by (simp add: escape_byte_def location_char_def path_unreserved_def)
  qed
  then show ?thesis by (induction s) (simp_all add: PathEscape_def)
qed

subsection \<open>Relative paths\<close>

lemma elems_of_rooted: "list_all proper_name es \<Longrightarrow> elems_of (''/'' @ Join es ''/'') = es"
proof (cases "es = []")
  case False
  assume es: "list_all proper_name es"
  then have "Split (Join es ''/'') CHR ''/'' = es" using Split_Join [OF False proper_no_slash] by simp
  moreover have "filter (\<lambda>e. e \<noteq> '''') es = es" using es by (auto simp: filter_id_conv list_all_iff proper_name_def)
  ultimately show ?thesis by (simp add: elems_of_def)
qed (simp add: elems_of_def)

lemma Clean_IsAbs: "IsAbs p \<Longrightarrow> \<exists>es. list_all proper_name es \<and> Clean p = ''/'' @ Join es ''/''"
proof -
  assume "IsAbs p"
  then have "Clean p = ''/'' @ Join (clean_elems True (Split p CHR ''/'')) ''/''" by (simp add: Clean_def Let_def)
  moreover have "list_all proper_name (clean_elems True (Split p CHR ''/''))"
    using clean_rooted_proper [of "Split p CHR ''/''" "[]"] Split_no_sep [of _ p "CHR ''/''"]
    by (fastforce simp: clean_elems_def list_all_iff)
  ultimately show ?thesis by blast
qed

lemma Abs_path_clean:
  assumes "Abs_path cwd p = Some a" and "\<And>wd. cwd = Some wd \<Longrightarrow> IsAbs wd"
  shows "\<exists>es. list_all proper_name es \<and> a = ''/'' @ Join es ''/''"
proof (cases "IsAbs p")
  case True
  with assms(1) have "a = Clean p" by (simp add: Abs_path_def)
  with Clean_IsAbs [OF True] show ?thesis by simp
next
  case False
  then obtain wd where wd: "a = Join_path [wd, p]" "IsAbs wd" using assms by (auto simp: Abs_path_def)
  then obtain t where "wd = CHR ''/'' # t" by (auto simp: IsAbs_def HasPrefix_iff)
  then have "a = Clean (if p = '''' then wd else wd @ ''/'' @ p)" "IsAbs (if p = '''' then wd else wd @ ''/'' @ p)"
    using wd(1) by (simp_all add: Join_path_def IsAbs_def HasPrefix_def)
  with Clean_IsAbs show ?thesis by metis
qed

lemma rel_elems_cases:
  "(\<exists>names. ts = bs @ names \<and> rel_elems bs ts = names) \<or>
   (\<nexists>names. ts = bs @ names) \<and> (\<exists>r. rel_elems bs ts = ''..'' # r)"
  by (induction bs ts rule: rel_elems.induct) auto

lemma not_up: "proper_name n \<Longrightarrow> \<not> HasPrefix (Join (n # ns) ''/'') ''../''"
proof
  assume n: "proper_name n" and "HasPrefix (Join (n # ns) ''/'') ''../''"
  then obtain r where "Join (n # ns) ''/'' = ''../'' @ r" by (auto simp: HasPrefix_iff)
  then have "Split (Join (n # ns) ''/'') CHR ''/'' = ''..'' # Split r CHR ''/''" by (simp add: Split_append)
  moreover obtain t where "Join (n # ns) ''/'' = n \<or> Join (n # ns) ''/'' = n @ CHR ''/'' # t" by (cases ns) auto
  then have "hd (Split (Join (n # ns) ''/'') CHR ''/'') = n"
    using n by (auto simp: proper_name_def Split_id Split_append)
  ultimately show False using n by (simp add: proper_name_def)
qed

lemma up_path: "Join (''..'' # r) ''/'' = ''..'' \<or> HasPrefix (Join (''..'' # r) ''/'') ''../''"
  by (cases r) (simp_all add: HasPrefix_def)

lemma Join_proper: "names \<noteq> [] \<Longrightarrow> list_all proper_name names \<Longrightarrow> Join names ''/'' \<notin> {'''', ''.'', ''..''}"
proof -
  assume n: "names \<noteq> []" "list_all proper_name names"
  then have "Split (Join names ''/'') CHR ''/'' = names" using Split_Join [OF n(1) proper_no_slash [OF n(2)]] by simp
  moreover have "Split '''' CHR ''/'' = ['''']" "Split ''.'' CHR ''/'' = [''.'']" "Split ''..'' CHR ''/'' = [''..'']" by simp_all
  ultimately show ?thesis using n(2) by (auto simp: proper_name_def)
qed

text \<open>The handoff between two lists of names: what is left of the second once the first is taken off its front.\<close>

lemma accelPath_names:
  assumes "Abs_path cwd base = Some (''/'' @ Join bs ''/'')" and "list_all proper_name bs"
    and "Abs_path cwd out = Some (''/'' @ Join es ''/'')" and "list_all proper_name es"
  shows "accelPath cwd pre base out = Some u \<longleftrightarrow>
    (\<exists>names. names \<noteq> [] \<and> es = bs @ names \<and> u = TrimRight pre ''/'' @ ''/'' @ Join (map PathEscape names) ''/'')"
proof -
  define r where "r = rel_elems bs es"
  have rel: "Rel (''/'' @ Join bs ''/'') (''/'' @ Join es ''/'') = (if r = [] then ''.'' else Join r ''/'')"
    by (simp only: Rel_def Let_def elems_of_rooted [OF assms(2)] elems_of_rooted [OF assms(4)] r_def)
  have acc: "accelPath cwd pre base out =
      (let rel = (if r = [] then ''.'' else Join r ''/'') in if rel = ''.'' \<or> rel = ''..'' \<or> HasPrefix rel ''../'' then None
       else Some (TrimRight pre ''/'' @ ''/'' @ Join (map PathEscape (Split rel CHR ''/'')) ''/''))"
    by (simp only: accelPath_def assms(1,3) option.case rel Let_def)
  consider (below) "es = bs @ r" | (outside) r' where "\<nexists>names. es = bs @ names" "r = ''..'' # r'"
    using rel_elems_cases [of es bs] by (auto simp: r_def)
  then show ?thesis
  proof cases
    case below
    then have names: "list_all proper_name r" using assms(4) by (metis list_all_append)
    show ?thesis
    proof (cases r)
      case (Cons n ns)
      then have "Split (Join r ''/'') CHR ''/'' = r" "\<not> HasPrefix (Join r ''/'') ''../''"
        using Split_Join [OF _ proper_no_slash [OF names]] not_up [of n ns] names by auto
      with Join_proper [OF _ names] Cons below show ?thesis by (auto simp: acc)
    qed (use below in \<open>simp add: acc\<close>)
  next
    case outside
    then show ?thesis using up_path [of r'] by (auto simp: acc)
  qed
qed

lemma escaped_names:
  "map percent_decode (map PathEscape names) = names" "list_all (list_all location_char) (map PathEscape names)"
  by (induction names) (simp_all add: percent_decode_PathEscape escape_chars)

text \<open>
  C36. A download handed to nginx names the file and nothing else. The handoff happens exactly when the output lies
  strictly below the download directory, after both were made absolute and clean; the location is then the prefix
  followed by the file's path below that directory, escaped so that decoding it segment by segment gives the names back,
  and no byte of it can end the header line, start a query or a fragment, or climb out with a dot segment.
\<close>
theorem accel_exact:
  assumes "Abs_path cwd base = Some (''/'' @ Join bs ''/'')" and "list_all proper_name bs"
    and "\<And>wd. cwd = Some wd \<Longrightarrow> IsAbs wd"
  shows "accelPath cwd pre base out = Some u \<longleftrightarrow>
    (\<exists>names. names \<noteq> [] \<and> list_all proper_name names \<and> Abs_path cwd out = Some (''/'' @ Join (bs @ names) ''/'') \<and>
       u = TrimRight pre ''/'' @ ''/'' @ Join (map PathEscape names) ''/'' \<and>
       map percent_decode (map PathEscape names) = names \<and> list_all (list_all location_char) (map PathEscape names))"
proof (cases "Abs_path cwd out")
  case None
  then show ?thesis by (simp add: accelPath_def assms(1))
next
  case (Some a)
  obtain es where es: "list_all proper_name es" "a = ''/'' @ Join es ''/''" using Abs_path_clean [OF Some assms(3)] by blast
  have "''/'' @ Join es ''/'' = ''/'' @ Join (bs @ names) ''/'' \<longleftrightarrow> es = bs @ names" if "list_all proper_name names" for names
    using elems_of_rooted [of es] elems_of_rooted [of "bs @ names"] that es(1) assms(2) by (metis list_all_append)
  moreover have "es = bs @ names \<Longrightarrow> list_all proper_name names" for names using es(1) by simp
  ultimately show ?thesis
    unfolding accelPath_names [OF assms(1,2) Some [unfolded es(2)] es(1)] Some es(2) option.inject
    using escaped_names by blast
qed

lemma accel_exact_witness:
  "accelPath None ''/_protected/'' ''/data/downloads'' ''/data/tmp/../downloads/a b#1.mp4'' = Some ''/_protected/a%20b%231.mp4'' \<and>
   accelPath None ''/_protected/'' ''/data/downloads'' ''/data/downloads-old/a.mp4'' = None"
proof
  have base: "Abs_path None ''/data/downloads'' = Some (''/'' @ Join [''data'', ''downloads''] ''/'')"
      "list_all proper_name [''data'', ''downloads'']" by code_simp+

  have name: "proper_name ''a b#1.mp4'' \<and> Abs_path None ''/data/tmp/../downloads/a b#1.mp4'' =
      Some (''/'' @ Join ([''data'', ''downloads''] @ [''a b#1.mp4'']) ''/'') \<and>
      ''/_protected/a%20b%231.mp4'' = TrimRight ''/_protected/'' ''/'' @ ''/'' @ Join (map PathEscape [''a b#1.mp4'']) ''/'' \<and>
      map percent_decode (map PathEscape [''a b#1.mp4'']) = [''a b#1.mp4''] \<and>
      list_all (list_all location_char) (map PathEscape [''a b#1.mp4''])"
    by code_simp
  show "accelPath None ''/_protected/'' ''/data/downloads'' ''/data/tmp/../downloads/a b#1.mp4'' = Some ''/_protected/a%20b%231.mp4''"
    by (rule iffD2 [OF accel_exact [OF base]], simp, rule exI [of _ "[''a b#1.mp4'']"])
      (use name in \<open>simp only: list.pred_inject list.distinct simp_thms not_False_eq_True\<close>)
  show "accelPath None ''/_protected/'' ''/data/downloads'' ''/data/downloads-old/a.mp4'' = None"
    by code_simp
qed

end
