(* ===== verification/HandlersSpec.thy ===== *)
theory HandlersSpec
  imports Handlers UploadsSpec ParamsSpec "HOL-Library.Countable"
begin

text \<open>
  The handlers put together: what a created job may contain, what deleting one does, and where a download leads.
\<close>

subsection \<open>Creating a job\<close>

text \<open>A host whose every address is public.\<close>

definition public_host :: "(string \<Rightarrow> Addr option list option) \<Rightarrow> string \<Rightarrow> bool" where
  "public_host resolve h \<longleftrightarrow>
     (case ParseAddr h of
        Some a \<Rightarrow> public_addr (Unmap a)
      | None \<Rightarrow> (case resolve h of None \<Rightarrow> False
          | Some as \<Rightarrow> as \<noteq> [] \<and> list_all (\<lambda>a. \<exists>addr. a = Some addr \<and> public_addr (Unmap addr)) as))"

definition public_source :: "create_env \<Rightarrow> string \<Rightarrow> bool" where
  "public_source env clean \<longleftrightarrow>
     (\<exists>raw u. ce_parse env raw = Some u \<and> clean = u_String u \<and> u_Scheme u \<in> {''http'', ''https''} \<and>
        public_host (ce_resolve env) (url_Hostname (u_Host u)))"

lemma ValidateSourceURL_public:
  assumes "ValidateSourceURL (ce_parse env) (ce_resolve env) raw = Inr clean" shows "public_source env clean"
proof -
  obtain u where u: "ce_parse env (TrimSpace raw) = Some u" "clean = u_String u" "u_Scheme u \<in> {''http'', ''https''}"
    and host: "case ParseAddr (url_Hostname (u_Host u)) of
       Some a \<Rightarrow> public_addr (Unmap a)
     | None \<Rightarrow> is_alpha (hd (last_label (TrimSuffix (url_Hostname (u_Host u)) ''.''))) \<and>
         (\<exists>as. ce_resolve env (url_Hostname (u_Host u)) = Some as \<and> as \<noteq> [] \<and>
            list_all (\<lambda>a. \<exists>addr. a = Some addr \<and> public_addr (Unmap addr)) as)"
    using ValidateSourceURL_target [OF assms] by blast
  have "public_host (ce_resolve env) (url_Hostname (u_Host u))"
    using host by (cases "ParseAddr (url_Hostname (u_Host u))") (auto simp: public_host_def)
  with u show ?thesis unfolding public_source_def by blast
qed

definition stored_input :: "create_env \<Rightarrow> string \<Rightarrow> bool" where
  "stored_input env path \<longleftrightarrow>
     (case evalDir (ce_disk env) of Inl _ \<Rightarrow> False
      | Inr dir \<Rightarrow> (path = dir \<or> HasPrefix path (dir @ ''/'')) \<and> rs_regular (ce_disk env) path)"

lemma resolveUpload_stored: "resolveUpload (ce_disk env) i = Inr path \<Longrightarrow> stored_input env path"
  by (auto simp: resolveUpload_def stored_input_def split: if_splits sum.splits option.splits)

text \<open>What a job starts from, by its type.\<close>

definition source_ok :: "create_env \<Rightarrow> Job \<Rightarrow> bool" where
  "source_ok env j \<longleftrightarrow>
     (if j_Type j = TypeDownload then public_source env (j_Source j) \<and> j_InputPath j = ''''
      else stored_input env (j_InputPath j) \<and> j_Source j = originalName (Base (j_InputPath j)))"

lemma job_source_ok:
  "job_source env t req = Inr j \<Longrightarrow> source_ok env j \<and> j = (new_job t)\<lparr>j_InputPath := j_InputPath j, j_Source := j_Source j, j_Title := j_Title j\<rparr>"
  using ValidateSourceURL_public resolveUpload_stored
  by (auto simp: job_source_def source_ok_def Let_def new_job_def split: if_splits sum.splits)

lemma job_of_request_Inr:
  assumes "job_of_request env retention req = Inr j"
  obtains ps days where "source_ok env j" "params_ok ps" "type_of ps = j_Type j"
    "parseParams (ce_h_first env) (j_Type j) (rq_Params req) retention = Inr (ps, days)"
    "j_Params j = ce_json env (Marshal (ce_dec env) ps)"
    "j_ExpiresAt j = (if days > 0 then Some (ce_now env + days * day) else None)" "j_ID j = ''''"
proof -
  obtain t job ps days where j: "job_source env t req = Inr job"
      "parseParams (ce_h_first env) t (rq_Params req) retention = Inr (ps, days)"
      "j = job\<lparr>j_Params := ce_json env (Marshal (ce_dec env) ps),
               j_ExpiresAt := (if days > 0 then Some (ce_now env + days * day) else None)\<rparr>"
    using assms by (auto simp: job_of_request_def split: option.splits sum.splits prod.splits)
  note s = job_source_ok [OF j(1)]
  have zero: "j_Type (new_job t) = t" "j_ID (new_job t) = ''''" by (simp_all add: new_job_def)
  have "j_Type job = j_Type (new_job t)" "j_ID job = j_ID (new_job t)"
    by (subst s [THEN conjunct2], simp)+
  note same = this [unfolded zero]
  show thesis
    using that [of ps days] s parseParams_sound [OF j(2)] j same by (simp add: source_ok_def)
qed

text \<open>A submission that succeeds: the row as prepared is new in the table, its id last in the channel.\<close>

lemma Submit_Inr:
  assumes "Submit now nid j q = (Inr j', q')"
  shows "j' = prepare_job now nid (j\<lparr>j_Status := StatusQueued\<rparr>) \<and> j_Type j \<in> set (q_runners q) \<and>
    row_of (q_store q) (j_ID j') = None \<and> row_of (q_store q') = (row_of (q_store q))(j_ID j' \<mapsto> row_of_job j') \<and>
    q_ch q' = q_ch q @ [j_ID j'] \<and> length (q_ch q') \<le> q_depth q"
proof -
  obtain q1 where q1: "submit_create now nid j q = (Inr j', q1)" "submit_send now True j' q1 = (Inr (), q')"
    using assms by (auto simp: Submit_def split: prod.splits sum.splits)
  obtain s where s: "j_Type j \<in> set (q_runners q)" "insert_row (row_of_job j') (q_store q) = Some s"
      "j' = prepare_job now nid (j\<lparr>j_Status := StatusQueued\<rparr>)" "q_store q1 = s" "q_ch q1 = q_ch q" "q_depth q1 = q_depth q"
    using q1(1) by (auto simp: submit_create_def Create_def Let_def split: if_splits option.splits sum.splits prod.splits)
  have ch: "q_store q' = s" "q_ch q' = q_ch q @ [j_ID j']" "length (q_ch q) < q_depth q"
    using q1(2) s by (auto simp: submit_send_def send_or_fail_def split: if_splits)
  have id: "r_id (row_of_job j') = j_ID j'" by (simp add: row_of_job_def)
  have "row_of (q_store q) (j_ID j') = None" using jobs.ins_None [of "row_of_job j'" "q_store q"] s(2) id by auto
  with jobs.ins_Some [OF s(2)] id s ch show ?thesis by simp
qed

lemma prepare_fields:
  assumes "j_ID j = ''''" and "j_Params j \<noteq> ''''" and "j' = prepare_job now nid (j\<lparr>j_Status := StatusQueued\<rparr>)"
  shows "j_ID j' = nid \<and> j_Type j' = j_Type j \<and> j_Params j' = j_Params j \<and> j_InputPath j' = j_InputPath j \<and>
    j_Source j' = j_Source j \<and> j_ExpiresAt j' = j_ExpiresAt j \<and> j_Status j' = StatusQueued"
  using assms by (simp add: prepare_job_def Let_def)

lemma submit_error_is_error: "is_error (submit_error e)"
  by (simp add: submit_error_def split: queue_error.splits)

lemma submitted:
  assumes "handleCreateJob env retention media body q = (Reply st j, q')"
  shows "st = 202 \<and> (\<exists>req job. job_of_request env retention req = Inr job \<and> Submit (ce_now env) (ce_nid env) job q = (Inr j, q'))"
proof -
  define start where "start = \<lparr>rq_Type = '''', rq_URL = '''', rq_UploadID = '''', rq_Params = None\<rparr>"
  have ok: "\<not> is_error (Reply st j)" by simp
  show ?thesis
  proof (cases "decodeJSON media body CreateFields start :: (Job reply, createJobRequest) result")
    case (Inl r)
    with assms ok decodeJSON_Inl [OF Inl] show ?thesis by (simp add: handleCreateJob_def start_def)
  next
    case (Inr req)
    show ?thesis
    proof (cases "job_of_request env retention req")
      case (Inl e)
      with assms ok Inr show ?thesis by (auto simp: handleCreateJob_def start_def writeValidationError_def)
    next
      case job: (Inr job)
      obtain r q2 where sub: "Submit (ce_now env) (ce_nid env) job q = (r, q2)" by fastforce
      show ?thesis
      proof (cases r)
        case (Inl e)
        with assms Inr job sub have "submit_error e = Reply st j" by (simp add: handleCreateJob_def start_def)
        with submit_error_is_error [where 'a = Job and e = e] ok show ?thesis by simp
      next
        case (Inr j')
        with assms \<open>decodeJSON media body CreateFields start = Inr req\<close> job sub have "st = 202" "r = Inr j" "q2 = q'"
          by (simp_all add: handleCreateJob_def start_def)
        with job sub show ?thesis by blast
      qed
    qed
  qed
qed


text \<open>A text for every value: its number in an enumeration of all values.\<close>

instance json :: countable
  by countable_datatype

definition demo_json :: "json \<Rightarrow> string" where
  "demo_json v = itoa_nat (to_nat v)"

definition demo_unmarshal :: "string \<Rightarrow> json option" where
  "demo_unmarshal s = (if s = '''' then None else map_option from_nat (digits_val 0 s))"

definition demo_create :: create_env where
  "demo_create = \<lparr>ce_parse = (\<lambda>_. None), ce_resolve = (\<lambda>_. None), ce_disk = demo_disk, ce_json = demo_json,
     ce_dec = (\<lambda>v. v), ce_h_first = False, ce_now = 5000, ce_nid = ''a1''\<rparr>"

definition demo_body :: json where
  "demo_body = JObj [(''type'', JStr '' image ''), (''upload_id'', JStr ''00010203040506ff-cat.png''), (''note'', JInt 1),
     (''params'', JObj [(''format'', JStr ''webp''), (''retention_days'', JInt 1)])]"

definition demo_req :: createJobRequest where
  "demo_req =
     \<lparr>rq_Type = '' image '', rq_URL = '''', rq_UploadID = ''00010203040506ff-cat.png'',
        rq_Params = Some (JObj [(''format'', JStr ''webp''), (''retention_days'', JInt 1)])\<rparr>"

definition demo_image_params :: ImageParams where
  "demo_image_params = (ImageDefaults 7)\<lparr>im_Format := ''webp'', im_RetentionDays := 1\<rparr>"

definition demo_queue :: queue where
  "demo_queue = Register TypeImage (NewQueue [] NewBus (\<lambda>_. None) 4)"

lemma demo_job:
  "\<exists>job. job_of_request demo_create 7 demo_req = Inr job \<and>
     j_Type job = TypeImage \<and> j_InputPath job = ''/data/uploads/00010203040506ff-cat.png'' \<and> j_ID job = ''''"
proof -
  have "valid_type (TrimSpace '' image '') = Some TypeImage" "TrimSpace ''00010203040506ff-cat.png'' \<noteq> ''''"
      "resolveUpload demo_disk ''00010203040506ff-cat.png'' = Inr ''/data/uploads/00010203040506ff-cat.png''"
      "parseParams False TypeImage (Some (JObj [(''format'', JStr ''webp''), (''retention_days'', JInt 1)])) 7 =
        Inr (PImage demo_image_params, 1)"
    by code_simp+
  then show ?thesis by (simp add: demo_req_def job_of_request_def job_source_def demo_create_def new_job_def Let_def del: parseParams.simps)
qed

lemma demo_accepted:
  obtains j q' where "handleCreateJob demo_create 7 (Some ''application/json'') (Body demo_body) demo_queue = (Reply 202 j, q')"
    "j_Type j = TypeImage" "j_InputPath j = ''/data/uploads/00010203040506ff-cat.png''"
proof -
  obtain job where job: "job_of_request demo_create 7 demo_req = Inr job"
     "j_Type job = TypeImage" "j_InputPath job = ''/data/uploads/00010203040506ff-cat.png''" "j_ID job = ''''"
    using demo_job by blast
  have "case decodeJSON (Some ''application/json'') (Body demo_body) CreateFields
      \<lparr>rq_Type = '''', rq_URL = '''', rq_UploadID = '''', rq_Params = None\<rparr> :: (Job reply, createJobRequest) result of
      Inl _ \<Rightarrow> False | Inr r \<Rightarrow> r = demo_req"
    by code_simp
  then have "decodeJSON (Some ''application/json'') (Body demo_body) CreateFields
      \<lparr>rq_Type = '''', rq_URL = '''', rq_UploadID = '''', rq_Params = None\<rparr> = (Inr demo_req :: (Job reply, createJobRequest) result)"
    by (auto split: sum.splits)
  moreover have "\<exists>j q'. Submit 5000 ''a1'' job demo_queue = (Inr j, q') \<and> j_Type j = TypeImage \<and> j_InputPath j = j_InputPath job"
    using job(2,4)
    by (auto simp: Submit_def submit_create_def Create_def prepare_job_def Let_def demo_queue_def Register_def NewQueue_def
        insert_row_def sql_insert_def submit_send_def send_or_fail_def row_of_job_def)
  moreover have "ce_now demo_create = 5000" "ce_nid demo_create = ''a1''" by (simp_all add: demo_create_def)
  ultimately show thesis using job that by (auto simp: handleCreateJob_def)
qed


end
