(* ===== verification/DeleteSpec.thy ===== *)
theory DeleteSpec
  imports HandlersSpec QueueProps
begin

text \<open>
  Deleting a job over the API: what goes with it, and that another job may lose its input.
\<close>

lemma Cancel_frame:
  "q_store (snd (Cancel i q)) = q_store q" "q_bus (snd (Cancel i q)) = q_bus q" "q_files (snd (Cancel i q)) = q_files q"
  by (auto simp: Cancel_def set_worker_def split: option.splits)

lemma removeFile_frame [simp]:
  "q_store (removeFile rm p q) = q_store q" "q_bus (removeFile rm p q) = q_bus q" "q_workers (removeFile rm p q) = q_workers q"
  "q_files (removeFile rm p q) = (\<lambda>f. if f = p \<and> p \<noteq> '''' \<and> rm p then None else q_files q f)"
  by (auto simp: removeFile_def)

definition deleted_event :: "string \<Rightarrow> Event" where
  "deleted_event i = \<lparr>Kind = EventDeleted, JobID = i, e_Job = None, e_Progress = None\<rparr>"

text \<open>
  A delete that succeeds removes the row and, as far as the system lets it, both files of the job, tells every
  subscriber with room, and has canceled the worker that runs the job; no other row and no other file changes.
\<close>
theorem delete_job:
  assumes "handleDeleteJob db_ok delete_ok rm i q = (Reply st i', q')"
  shows "\<exists>r. row_of (q_store q) i = Some r \<and> st = 200 \<and> i' = i \<and>
    row_of (q_store q') = (row_of (q_store q))(i := None) \<and>
    q_files q' = (\<lambda>f. if f \<noteq> '''' \<and> rm f \<and> f \<in> {r_input_path r, r_output_path r} then None else q_files q f) \<and>
    q_bus q' = Publish (deleted_event i) (q_bus q) \<and>
    q_workers q' = q_workers (snd (Cancel i q))"
proof -
  obtain r where r: "row_of (q_store q) i = Some r"
    using assms by (auto simp: handleDeleteJob_def lookup_job_def Get_def writeError_def split: if_splits option.splits)
  have id: "r_id r = i" using jobs.sel_key [OF r] .
  show ?thesis
    using assms r id jobs.sel_del
    by (auto simp: handleDeleteJob_def lookup_job_def Get_def Let_def scanJob_def Delete_def writeError_def Cancel_frame
        deleted_event_def fun_eq_iff split: if_splits)
qed

text \<open>
  The input goes even when another job still needs it: two jobs made from one upload, the first deleted, and the
  second is queued without a file to read.
\<close>

definition shared_jobs :: queue where
  "shared_jobs =
     (let j = (new_job TypeImage)\<lparr>j_InputPath := ''/up/a.png''\<rparr>;
          q = Register TypeImage (NewQueue [] NewBus [''/up/a.png'' \<mapsto> 7] 4)
      in snd (Submit 2 ''two'' j (snd (Submit 1 ''one'' j q))))"

lemma delete_breaks_shared:
  "let q' = snd (handleDeleteJob True True (\<lambda>_. True) ''one'' shared_jobs) in
     map (\<lambda>r. (r_id r, r_input_path r, r_status r)) (q_store q') = [(''two'', ''/up/a.png'', StatusQueued)] \<and>
     q_files q' ''/up/a.png'' = None \<and> InputPathShared (q_store shared_jobs) ''/up/a.png'' ''one''"
  by code_simp

end
