(* ===== verification/Drain.thy ===== *)
theory Drain
  imports QueueSpec
begin

text \<open>
  Shutting down: once \<open>Stop\<close> has closed the channel, a worker's loop ends. The worker runs its own steps only, each as
  \<open>Start\<close> and \<open>execute\<close> take it; \<open>run j\<close> is what the runner leaves behind and returns.
\<close>

definition own_step :: "Time \<Rightarrow> (Job \<Rightarrow> (string \<Rightarrow> int option) \<times> Result \<times> string option) \<Rightarrow> nat \<Rightarrow> queue \<Rightarrow> queue" where
  "own_step now run w q =
     (case phase_of q w of
        Idle \<Rightarrow> if q_ch q \<noteq> [] then worker_take w q else worker_exit w q
      | Received i \<Rightarrow> exec_load now w i q
      | Loaded j \<Rightarrow> exec_register w j q
      | Registered j \<Rightarrow> exec_mark now w j q
      | Marked j \<Rightarrow> exec_announce w j q
      | Running j _ _ \<Rightarrow> (case run j of (files, res, err) \<Rightarrow> exec_return files res err w j q)
      | Finishing j acts \<Rightarrow> (case acts of [] \<Rightarrow> exec_done w j q | a # as \<Rightarrow> exec_act now w j a as q)
      | Exited \<Rightarrow> q)"

text \<open>How many steps are left at most: by the phase, and eleven for every id still in the channel.\<close>

fun steps_in :: "phase \<Rightarrow> nat" where
  "steps_in Exited = 0"
| "steps_in Idle = 1"
| "steps_in (Finishing j acts) = 2 + length acts"
| "steps_in (Running j a b) = 7"
| "steps_in (Marked j) = 8"
| "steps_in (Registered j) = 9"
| "steps_in (Loaded j) = 10"
| "steps_in (Received i) = 11"

definition effort :: "queue \<Rightarrow> nat \<Rightarrow> nat" where
  "effort q w = steps_in (phase_of q w) + 11 * length (q_ch q)"

lemma finish_acts_short: "length (finish_acts d c files res err) \<le> 4"
  by (simp add: finish_acts_def split: option.splits)

lemma set_phase_frame [simp]:
  "q_ch (set_phase w p q) = q_ch q" "q_closed (set_phase w p q) = q_closed q"
  "length (q_workers (set_phase w p q)) = length (q_workers q)"
  by (simp_all add: set_phase_def set_worker_def)

lemma publishStatus_frame [simp]:
  "q_ch (publishStatus l i q) = q_ch q" "q_closed (publishStatus l i q) = q_closed q" "q_workers (publishStatus l i q) = q_workers q"
  by (simp_all add: publishStatus_def split: sum.splits)

lemma fail_frame [simp]:
  "q_ch (fail now i e q) = q_ch q" "q_closed (fail now i e q) = q_closed q" "q_workers (fail now i e q) = q_workers q"
  by (simp_all add: fail_def)

lemma do_act_frame [simp]:
  "q_ch (do_act now i a q) = q_ch q" "q_closed (do_act now i a q) = q_closed q" "q_workers (do_act now i a q) = q_workers q"
  by (cases a; simp add: cleanup_def)+

text \<open>One step of a worker that has not exited.\<close>

definition advanced :: "nat \<Rightarrow> queue \<Rightarrow> queue \<Rightarrow> bool" where
  "advanced w q q' \<longleftrightarrow> qstep q q' \<and> w < length (q_workers q') \<and> q_closed q' \<and> effort q' w < effort q w \<and>
     (phase_of q' w = Exited \<longrightarrow> q_ch q' = [])"

lemma advance_phase:
  assumes "qstep q (set_phase w p q0)" and "w < length (q_workers q)" and "q_closed q"
    and "q_workers q0 = q_workers q" "q_ch q0 = q_ch q" "q_closed q0 = q_closed q"
    and "steps_in p < steps_in (phase_of q w)" and "p = Exited \<longrightarrow> q_ch q = []"
  shows "advanced w q (set_phase w p q0)"
  using assms by (simp add: advanced_def effort_def)

lemma own_step_advances:
  assumes w: "w < length (q_workers q)" and closed: "q_closed q" and live: "phase_of q w \<noteq> Exited"
  shows "advanced w q (own_step now run w q)"
proof (cases "phase_of q w")
  case Idle
  show ?thesis
  proof (cases "q_ch q")
    case Nil
    then have "qstep q (worker_exit w q)" using w closed Idle by (intro qstep.exit) auto
    then show ?thesis using w closed Idle Nil
      unfolding own_step_def worker_exit_def by simp (rule advance_phase, simp_all)
  next
    case (Cons i ids)
    then have "qstep q (worker_take w q)" using w Idle by (intro qstep.take) auto
    then show ?thesis using w closed Idle Cons
      by (simp add: own_step_def advanced_def effort_def) (simp add: worker_take_def set_worker_def phase_of_def)
  qed
next
  case (Received i)
  then have "qstep q (exec_load now w i q)" using w by (intro qstep.load)
  moreover obtain p q0 where "exec_load now w i q = set_phase w p q0" "p = Idle \<or> (\<exists>j. p = Loaded j)" "q_workers q0 = q_workers q"
      "q_ch q0 = q_ch q" "q_closed q0 = q_closed q"
  proof (rule exec_load_shape [of now w i q])
    fix p q0
    assume eq: "exec_load now w i q = set_phase w p q0" and p: "p = Idle \<or> (\<exists>j. p = Loaded j)" "q_workers q0 = q_workers q"
    have "q_ch (exec_load now w i q) = q_ch q" "q_closed (exec_load now w i q) = q_closed q"
      by (simp_all add: exec_load_def split: sum.splits)
    then show thesis using that [OF eq p] unfolding eq by simp
  qed
  ultimately show ?thesis using w closed Received
    by (simp add: own_step_def) (rule advance_phase, auto)
next
  case (Loaded j)
  then have "qstep q (exec_register w j q)" using w by (intro qstep.register)
  then show ?thesis using w closed Loaded unfolding own_step_def exec_register_def by simp (rule advance_phase, simp_all)
next
  case (Registered j)
  then have "qstep q (exec_mark now w j q)" using w by (intro qstep.mark)
  moreover have "own_step now run w q = exec_mark now w j q" using Registered by (simp add: own_step_def)
  ultimately show ?thesis using w closed Registered unfolding exec_mark_def by (simp only:) (rule advance_phase, auto)
next
  case (Marked j)
  then have "qstep q (exec_announce w j q)" using w by (intro qstep.announce)
  then show ?thesis using w closed Marked unfolding own_step_def exec_announce_def by simp (rule advance_phase, simp_all)
next
  case (Running j a b)
  obtain files res err where r: "run j = (files, res, err)" by (cases "run j")
  from Running have "qstep q (exec_return files res err w j q)" using w by (intro qstep.return)
  then show ?thesis
    using w closed Running r finish_acts_short [of "q_timeout q" "cause_of q w" files res err]
    unfolding own_step_def exec_return_def by simp (rule advance_phase, simp_all)
next
  case (Finishing j acts)
  show ?thesis
  proof (cases acts)
    case Nil
    with Finishing have "qstep q (exec_done w j q)" using w by (intro qstep.finish) auto
    then show ?thesis using w closed Finishing Nil unfolding own_step_def exec_done_def by simp (rule advance_phase, simp_all)
  next
    case (Cons x xs)
    with Finishing have "qstep q (exec_act now w j x xs q)" using w by (intro qstep.act) auto
    then show ?thesis using w closed Finishing Cons unfolding own_step_def exec_act_def by simp (rule advance_phase, simp_all)
  qed
qed (use live in simp)

lemma drained:
  assumes "w < length (q_workers q)" and "q_closed q" and "phase_of q w \<noteq> Exited"
  shows "\<exists>n \<le> effort q w. qstep\<^sup>*\<^sup>* q ((own_step now run w ^^ n) q) \<and>
    phase_of ((own_step now run w ^^ n) q) w = Exited \<and> q_ch ((own_step now run w ^^ n) q) = []"
  using assms
proof (induction "effort q w" arbitrary: q rule: less_induct)
  case less
  define q' where "q' = own_step now run w q"
  have adv: "advanced w q q'" unfolding q'_def by (rule own_step_advances [OF less.prems])
  show ?case
  proof (cases "phase_of q' w = Exited")
    case True
    with adv show ?thesis by (intro exI [of _ 1]) (auto simp: advanced_def simp flip: q'_def)
  next
    case False
    then obtain n where n: "n \<le> effort q' w" "qstep\<^sup>*\<^sup>* q' ((own_step now run w ^^ n) q')"
        "phase_of ((own_step now run w ^^ n) q') w = Exited" "q_ch ((own_step now run w ^^ n) q') = []"
      using less.hyps [of q'] adv by (auto simp: advanced_def)
    have "(own_step now run w ^^ Suc n) q = (own_step now run w ^^ n) q'" by (simp add: q'_def funpow_swap1)
    moreover have "qstep\<^sup>*\<^sup>* q ((own_step now run w ^^ n) q')"
      using adv n(2) by (auto simp: advanced_def intro: converse_rtranclp_into_rtranclp)
    ultimately show ?thesis using n adv by (intro exI [of _ "Suc n"]) (auto simp: advanced_def)
  qed
qed



end
