(* ===== verification/Menu.thy ===== *)
theory Menu
  imports Handlers
begin

text \<open>
  What the form is told: \<open>presets.All\<close> and \<open>handlePresets\<close>. A Go map is written with its keys in some order, here the
  order of the table.
\<close>

definition json_options :: "Options \<Rightarrow> json" where
  "json_options opts = JArr (map (\<lambda>(v, l). JObj [(''value'', JStr v), (''label'', JStr l)]) opts)"

definition json_ints :: "(string \<times> int) list \<Rightarrow> json" where
  "json_ints m = JObj (map (\<lambda>(k, n). (k, JInt n)) m)"

text \<open>A table without an entry for the key clones to a nil map, which is written as null.\<close>

definition json_crf :: "(string \<times> (string \<times> int) list) list \<Rightarrow> string \<Rightarrow> json" where
  "json_crf m k = (case map_of m k of None \<Rightarrow> JNull | Some n \<Rightarrow> json_ints n)"

definition All :: "(string \<times> json) list" where
  "All =
     [(''video_containers'', json_options VideoContainers), (''video_codecs'', json_options VideoCodecs),
      (''encode_speeds'', json_options EncodeSpeeds), (''resolutions'', json_options Resolutions),
      (''frame_rates'', json_options FrameRates), (''audio_codecs'', json_options AudioCodecs),
      (''audio_bitrates'', json_options AudioBitrates), (''encode_presets'', json_options EncodePresets),
      (''audio_formats'', json_options AudioFormats), (''image_formats'', json_options ImageFormats),
      (''compress_targets'', json_options CompressTargets), (''retention_choices'', json_options RetentionChoices),
      (''trace_targets'', json_options TraceTargets),
      (''crf_bounds'', JObj (map (\<lambda>(k, lo, hi). (k, JArr [JInt lo, JInt hi])) CRFBounds)),
      (''target_size_bounds'', JObj [(''min_mb'', JInt TargetSizeMinMB), (''max_mb'', JInt TargetSizeMaxMB)]),
      (''encode_preset_values'', JObj (map (\<lambda>(k, v). (k, JObj [(''speed'', JStr (ev_Speed v)), (''crf'', json_crf EncodePresetCRF k)]))
         encodePresetValues)),
      (''compress_target_values'', JObj (map (\<lambda>(k, v). (k, JObj [(''crf'', json_crf CompressCRF k), (''speed'', JStr (tv_Speed v)),
         (''resolution'', JStr (tv_Resolution v)), (''audio_bitrate'', JStr (tv_AudioBitrate v))])) compressTargetValues)),
      (''image_compress_quality'', json_ints ImageCompressQuality), (''image_quality_presets'', json_options ImageQualityPresets),
      (''image_convert_quality'', json_ints ImageConvertQuality)]"

definition handlePresets :: "string \<Rightarrow> Config \<Rightarrow> json reply" where
  "handlePresets version cfg =
     Reply 200 (JObj (All @
       [(''version'', JStr version), (''update_checks_disabled'', JBool (cf_DisableUpdateChecks cfg)),
        (''default_retention_days'', JInt (cf_DefaultRetentionDays cfg)), (''max_upload_bytes'', JInt (MaxUploadBytes cfg))]))"

subsection \<open>The form and the parser\<close>

fun member :: "json \<Rightarrow> string \<Rightarrow> json" where
  "member (JObj ms) k = (case map_of ms k of None \<Rightarrow> JNull | Some v \<Rightarrow> v)"
| "member _ k = JNull"

fun values_of :: "json \<Rightarrow> string list" where
  "values_of (JArr js) = concat (map (\<lambda>j. case member j ''value'' of JStr s \<Rightarrow> [s] | _ \<Rightarrow> []) js)"
| "values_of _ = []"

definition offered :: "string \<Rightarrow> string list" where
  "offered k = values_of (member (JObj All) k)"

lemma values_of_options [simp]: "values_of (json_options opts) = map fst opts"
  by (induction opts) (auto simp: json_options_def)

lemma member_ints: "member (json_ints m) k = (case map_of m k of None \<Rightarrow> JNull | Some n \<Rightarrow> JInt n)"
  by (induction m) (auto simp: json_ints_def split: option.splits)

text \<open>A value passes the check of its field exactly when the form offers it.\<close>

lemma oneOf_offered:
  "oneOf f v VideoContainers = None \<longleftrightarrow> v \<in> set (offered ''video_containers'')"
  "oneOf f v VideoCodecs = None \<longleftrightarrow> v \<in> set (offered ''video_codecs'')"
  "oneOf f v EncodeSpeeds = None \<longleftrightarrow> v \<in> set (offered ''encode_speeds'')"
  "oneOf f v Resolutions = None \<longleftrightarrow> v \<in> set (offered ''resolutions'')"
  "oneOf f v FrameRates = None \<longleftrightarrow> v \<in> set (offered ''frame_rates'')"
  "oneOf f v AudioCodecs = None \<longleftrightarrow> v \<in> set (offered ''audio_codecs'')"
  "oneOf f v AudioBitrates = None \<longleftrightarrow> v \<in> set (offered ''audio_bitrates'')"
  "oneOf f v EncodePresets = None \<longleftrightarrow> v \<in> set (offered ''encode_presets'')"
  "oneOf f v AudioFormats = None \<longleftrightarrow> v \<in> set (offered ''audio_formats'')"
  "oneOf f v ImageFormats = None \<longleftrightarrow> v \<in> set (offered ''image_formats'')"
  "oneOf f v CompressTargets = None \<longleftrightarrow> v \<in> set (offered ''compress_targets'')"
  "oneOf f v TraceTargets = None \<longleftrightarrow> v \<in> set (offered ''trace_targets'')"
  by (simp_all add: oneOf_def offered_def All_def)

lemma member_map: "member (JObj (map (\<lambda>(k, v). (k, f k v)) m)) k = (case map_of m k of None \<Rightarrow> JNull | Some v \<Rightarrow> f k v)"
  by (induction m) (auto split: option.splits)

lemma map_of_encodePresetValues:
  "map_of encodePresetValues k = map_option (\<lambda>s. \<lparr>ev_Speed = s, ev_CRF = inner EncodePresetCRF k\<rparr>) (map_of EncodePresetSpeed k)"
  by (simp add: encodePresetValues_def EncodePresetSpeed_def)

text \<open>The speed and the quality shown for a preset and a codec are the ones the server encodes with.\<close>

lemma preset_shown:
  assumes "shown = member (member (JObj All) ''encode_preset_values'') (cv_Preset p)"
    and "member (member shown ''crf'') (cv_VideoCodec p) = JInt n"
  shows "member shown ''speed'' = JStr (fst (Resolved p)) \<and> n = snd (Resolved p)"
proof -
  have "member (JObj All) ''encode_preset_values'' =
      JObj (map (\<lambda>(k, v). (k, JObj [(''speed'', JStr (ev_Speed v)), (''crf'', json_crf EncodePresetCRF k)])) encodePresetValues)"
    by (simp add: All_def)
  then have shown: "shown = (case map_of encodePresetValues (cv_Preset p) of None \<Rightarrow> JNull
      | Some v \<Rightarrow> JObj [(''speed'', JStr (ev_Speed v)), (''crf'', json_crf EncodePresetCRF (cv_Preset p))])"
    using assms(1) by (simp only: member_map)
  then obtain sp where sp: "map_of EncodePresetSpeed (cv_Preset p) = Some sp"
    using assms(2) by (cases "map_of EncodePresetSpeed (cv_Preset p)") (simp_all add: map_of_encodePresetValues)
  with shown have eq: "shown = JObj [(''speed'', JStr sp), (''crf'', json_crf EncodePresetCRF (cv_Preset p))]"
    by (simp add: map_of_encodePresetValues)
  then obtain m where m: "map_of EncodePresetCRF (cv_Preset p) = Some m" "map_of m (cv_VideoCodec p) = Some n"
    using assms(2) by (auto simp: json_crf_def member_ints split: option.splits)
  then have "Resolved p = (sp, n)" using sp by (simp add: Resolved_def lookup2_def)
  with eq show ?thesis by simp
qed

end
