(* ===== verification/Server.thy ===== *)
theory Server
  imports QueueProps Manager Retention Config ProbeLimit Handlers
begin

text \<open>
  The process itself: \<open>db.Open\<close> with the schema it applies, \<open>main\<close> and \<open>run\<close> of \<open>cmd/server\<close>, and what \<open>api.New\<close> builds. A run
  is the state it serves with and the trace of what it opened, started and shut down; the answers of the
  database, the listener and the operating system are the record \<open>server_env\<close>.
\<close>

subsection \<open>The data source name\<close>

text \<open>\<open>url.QueryEscape\<close>, and \<open>url.Values.Encode\<close> of a single key.\<close>

definition query_byte :: "char \<Rightarrow> string" where
  "query_byte c =
     (if is_alnum c \<or> c \<in> set ''-_.~'' then [c]
      else if c = CHR '' '' then ''+''
      else [CHR ''%'', upper_hex (byte c div 16), upper_hex (byte c mod 16)])"

definition QueryEscape :: "string \<Rightarrow> string" where
  "QueryEscape s = concat (map query_byte s)"

definition Encode :: "string \<Rightarrow> string list \<Rightarrow> string" where
  "Encode key vs = Join (map (\<lambda>v. QueryEscape key @ ''='' @ QueryEscape v) vs) ''&''"

definition pragmas :: "string list" where
  "pragmas = [''journal_mode(WAL)'', ''busy_timeout(5000)'', ''synchronous(NORMAL)'', ''foreign_keys(ON)'']"

definition dsn :: "string \<Rightarrow> string" where
  "dsn path = ''file:'' @ path @ ''?'' @ Encode ''_pragma'' pragmas"

subsection \<open>The schema\<close>

text \<open>The statements of \<open>schema.sql\<close>, on a database of named tables and indexes; rows are of any type.\<close>

datatype ddl = CreateTable string | CreateIndex string string | DropIndex string

record 'r database =
  db_tables :: "(string \<times> 'r list) list"
  db_indexes :: "(string \<times> string) list"

definition exec_ddl :: "ddl \<Rightarrow> 'r database \<Rightarrow> 'r database option" where
  "exec_ddl st d =
     (case st of
        CreateTable t \<Rightarrow> Some (if t \<in> set (keys (db_tables d)) then d else d\<lparr>db_tables := put t [] (db_tables d)\<rparr>)
      | CreateIndex i t \<Rightarrow>
          if i \<in> set (keys (db_indexes d)) then Some d
          else if t \<in> set (keys (db_tables d)) then Some (d\<lparr>db_indexes := put i t (db_indexes d)\<rparr>) else None
      | DropIndex i \<Rightarrow> Some (d\<lparr>db_indexes := remove_key i (db_indexes d)\<rparr>))"

fun exec_script :: "ddl list \<Rightarrow> 'r database \<Rightarrow> 'r database option" where
  "exec_script [] d = Some d"
| "exec_script (st # sts) d = (case exec_ddl st d of None \<Rightarrow> None | Some d' \<Rightarrow> exec_script sts d')"

definition schema :: "ddl list" where
  "schema =
     [CreateTable ''jobs'', DropIndex ''idx_jobs_created_at'', DropIndex ''idx_jobs_status'',
      CreateIndex ''idx_jobs_created'' ''jobs'', CreateIndex ''idx_jobs_status_created'' ''jobs'',
      CreateIndex ''idx_jobs_expires_at'' ''jobs'', CreateTable ''settings'', CreateTable ''sessions'',
      CreateIndex ''idx_sessions_expires_at'' ''sessions'', CreateTable ''session_credential'']"

subsection \<open>Traces\<close>

datatype server_event =
  SignalsOn | SignalsOff | HandleOpened string | HandleClosed | Recovered bool | Resumed bool | WorkersStarted nat
| SessionsRestored bool | ReaperStarted | SweeperStarted Sweeper | Listening string | ShutDown bool | Drained

datatype server_error = ConfigError config_error | OpenSqlite | PingSqlite | ApplySchema | ListenError

datatype ending = ListenFails | Signalled

record server_env =
  se_look :: environment
  se_mkdir :: "string \<Rightarrow> bool"
  se_open_ok :: "string \<Rightarrow> bool"
  se_ping_ok :: bool
  se_schema_ok :: bool
  se_jobs :: Store
  se_files :: "string \<Rightarrow> int option"
  se_sessions :: SQLSessionStore
  se_recover :: Time
  se_recover_ok :: bool
  se_queued_ok :: bool
  se_resume :: Time
  se_sha256 :: "string \<Rightarrow> 8 word list"
  se_persist_ok :: "bool \<times> bool \<times> bool"
  se_persist :: Time
  se_limiter :: Time
  se_end :: ending
  se_shutdown_ok :: bool

definition Open :: "server_env \<Rightarrow> string \<Rightarrow> (server_error, unit) result \<times> server_event list" where
  "Open env path =
     (let d = dsn path in
      if \<not> se_open_ok env d then (Inl OpenSqlite, [])
      else if \<not> se_ping_ok env then (Inl PingSqlite, [HandleOpened d, HandleClosed])
      else if \<not> se_schema_ok env then (Inl ApplySchema, [HandleOpened d, HandleClosed])
      else (Inr (), [HandleOpened d]))"

subsection \<open>The state a server runs with\<close>

text \<open>What \<open>api.New\<close> keeps of its dependencies besides them, and the whole.\<close>

record api_server =
  as_limit :: probeLimiter
  as_trust :: Trust

record served =
  sv_queue :: queue
  sv_auth :: Manager
  sv_sweeper :: Sweeper
  sv_api :: api_server

definition api_New :: "Config option \<Rightarrow> Time \<Rightarrow> api_server" where
  "api_New cfg now =
     \<lparr>as_limit = newProbeLimiter (case cfg of None \<Rightarrow> 1 | Some c \<Rightarrow> cf_MaxConcurrentJobs c) now,
      as_trust = New (case cfg of None \<Rightarrow> [] | Some c \<Rightarrow> cf_TrustedProxies c)\<rparr>"

text \<open>Recovery, the queue with its runners, what was queued, the workers; an error of a statement is logged, not returned.\<close>

definition recovered :: "server_env \<Rightarrow> Store" where
  "recovered env = (if se_recover_ok env then fst (FailInterrupted (se_recover env) (se_jobs env)) else se_jobs env)"

definition register_runners :: "queue \<Rightarrow> queue" where
  "register_runners = fold Register [TypeDownload, TypeConvert, TypeCompress, TypeImage, TypeEdit]"

definition start_queue :: "server_env \<Rightarrow> Config \<Rightarrow> queue" where
  "start_queue env cfg =
     (let q = NewQueue (recovered env) NewBus (se_files env) (cf_QueueDepth cfg);
          q = register_runners (SetTimeout (JobTimeout cfg) q);
          q = (if se_queued_ok env then snd (Resume (se_resume env) q) else q)
      in Start (nat (cf_MaxConcurrentJobs cfg)) q)"

definition start_auth :: "server_env \<Rightarrow> Config \<Rightarrow> Manager \<times> bool" where
  "start_auth env cfg =
     Persist (se_sha256 env) (se_persist_ok env) (se_persist env) (Some (se_sessions env))
       (NewManager (cf_AuthUsername cfg) (cf_AuthPasswordHash cfg) (cf_SessionTTLHours cfg))"

definition start_sweeper :: "Config \<Rightarrow> Sweeper" where
  "start_sweeper cfg = WithUploadGC (cf_UploadDir cfg) DefaultUploadGrace (NewSweeper DefaultInterval)"

definition start_server :: "server_env \<Rightarrow> Config \<Rightarrow> served \<times> server_event list" where
  "start_server env cfg =
     (case start_auth env cfg of (m, persisted) \<Rightarrow>
        (\<lparr>sv_queue = start_queue env cfg, sv_auth = m, sv_sweeper = start_sweeper cfg,
          sv_api = api_New (Some cfg) (se_limiter env)\<rparr>,
         [Recovered (se_recover_ok env), Resumed (se_queued_ok env), WorkersStarted (nat (cf_MaxConcurrentJobs cfg)),
          SessionsRestored persisted, ReaperStarted, SweeperStarted (start_sweeper cfg)]))"

text \<open>From the listener to the end: an error of the listener, or a signal and the two shutdowns.\<close>

definition serve_until :: "server_env \<Rightarrow> Config \<Rightarrow> (server_error, unit) result \<times> server_event list" where
  "serve_until env cfg =
     (case se_end env of
        ListenFails \<Rightarrow> (Inl ListenError, [Listening (cf_Addr cfg)])
      | Signalled \<Rightarrow> (Inr (), [Listening (cf_Addr cfg), ShutDown (se_shutdown_ok env), Drained]))"

definition run :: "server_env \<Rightarrow> (server_error, unit) result \<times> server_event list" where
  "run env =
     (case Load (se_look env) (se_mkdir env) of
        Inl e \<Rightarrow> (Inl (ConfigError e), [])
      | Inr cfg \<Rightarrow>
          (case Open env (cf_DBPath cfg) of
             (Inl e, opened) \<Rightarrow> (Inl e, SignalsOn # opened @ [SignalsOff])
           | (Inr _, opened) \<Rightarrow>
               (case (start_server env cfg, serve_until env cfg) of
                  ((sv, booted), (r, ended)) \<Rightarrow> (r, SignalsOn # opened @ booted @ ended @ [HandleClosed, SignalsOff]))))"

text \<open>\<open>main\<close>: the exit code and what is printed on the standard output. \<open>flag\<close> is \<open>-hash-password\<close>.\<close>

definition main :: "kdf \<Rightarrow> string option \<Rightarrow> server_env \<Rightarrow> string \<Rightarrow> nat \<times> string" where
  "main IDKey salt env flag =
     (if flag \<noteq> '''' then (case HashPassword IDKey salt flag of Inl _ \<Rightarrow> (1, '''') | Inr h \<Rightarrow> (0, h @ newline))
      else (case fst (run env) of Inl _ \<Rightarrow> (1, '''') | Inr _ \<Rightarrow> (0, '''')))"

end
