(* ===== verification/ServerSpec.thy ===== *)
theory ServerSpec
  imports Server QueueSpec LoginsSpec ConfigSpec DownloadSpec
begin

text \<open>
  The server as a whole: its data source name carries the pragmas, its schema can be applied again and again, every return
  releases the database, what it serves with is a state of the queue's theory, and a hash it printed lets its owner log in.
\<close>

subsection \<open>The data source name\<close>

text \<open>\<open>url.QueryUnescape\<close> and \<open>url.ParseQuery\<close>, which the driver uses.\<close>

fun query_decode :: "string \<Rightarrow> string" where
  "query_decode [] = []"
| "query_decode (c # s) =
     (if c = CHR ''+'' then CHR '' '' # query_decode s
      else if c = CHR ''%'' then
        (case s of a # b # t \<Rightarrow> char_of (16 * nibble a + nibble b) # query_decode t | _ \<Rightarrow> c # query_decode s)
      else c # query_decode s)"

definition parse_query :: "string \<Rightarrow> (string \<times> string) list" where
  "parse_query q = map (\<lambda>p. case Cut p CHR ''='' of (k, v, _) \<Rightarrow> (query_decode k, query_decode v)) (Split q CHR ''&'')"

lemma query_decode_byte: "query_decode (query_byte c @ s) = c # query_decode s"
proof (cases "is_alnum c \<or> c \<in> set ''-_.~''")
  case True
  then have "c \<noteq> CHR ''%''" "c \<noteq> CHR ''+''" by (auto simp: byte_class_defs)
  with True show ?thesis by (simp add: query_byte_def)
next
  case False
  have "nibble (upper_hex (byte c div 16)) = byte c div 16" "nibble (upper_hex (byte c mod 16)) = byte c mod 16"
    by (intro nibble_upper byte_halves)+
  moreover have "char_of (16 * (byte c div 16) + byte c mod 16) = c" by (simp add: byte_def)
  ultimately show ?thesis using False by (simp add: query_byte_def)
qed

lemma query_decode_escape: "query_decode (QueryEscape s) = s"
  by (induction s) (simp_all add: QueryEscape_def query_decode_byte)

lemma query_bytes: "d \<in> set (query_byte c) \<Longrightarrow> is_alnum d \<or> d \<in> set ''-_.~+%''"
  using upper_hex_alnum [OF byte_halves(1), of c] upper_hex_alnum [OF byte_halves(2), of c]
  by (auto simp: query_byte_def split: if_splits)

lemma query_escape_clean:
  "CHR ''='' \<notin> set (QueryEscape s)" "CHR ''&'' \<notin> set (QueryEscape s)" "CHR ''?'' \<notin> set (QueryEscape s)"
  by (auto simp: QueryEscape_def byte_class_defs dest!: query_bytes)

lemma parse_Encode:
  assumes "vs \<noteq> []"
  shows "parse_query (Encode k vs) = map (Pair k) vs"
proof -
  let ?pair = "\<lambda>v. QueryEscape k @ ''='' @ QueryEscape v"
  have "Split (Join (map ?pair vs) ''&'') CHR ''&'' = map ?pair vs"
    using assms query_escape_clean by (intro Split_Join) (auto simp: list_all_iff)
  moreover have "Cut (?pair v) CHR ''='' = (QueryEscape k, QueryEscape v, True)" for v
    using IndexByte_append_notin [OF query_escape_clean(1), of k "QueryEscape v"] by (simp add: Cut_def)
  ultimately show ?thesis by (simp add: parse_query_def Encode_def query_decode_escape)
qed

text \<open>
  The driver cuts the name at the first question mark. For a path without one it finds the file and all four pragmas; a
  question mark in the path takes the first pragma, the journal mode, with it.
\<close>

lemma dsn_pragmas:
  assumes "CHR ''?'' \<notin> set path"
  shows "\<exists>q. Cut (dsn path) CHR ''?'' = (''file:'' @ path, q, True) \<and> parse_query q = map (Pair ''_pragma'') pragmas"
proof -
  have "IndexByte ((''file:'' @ path) @ CHR ''?'' # Encode ''_pragma'' pragmas) CHR ''?'' = Some (length (''file:'' @ path))"
    using assms by (intro IndexByte_append_notin) auto
  then have "Cut (dsn path) CHR ''?'' = (''file:'' @ path, Encode ''_pragma'' pragmas, True)"
    by (simp add: Cut_def dsn_def)
  then show ?thesis by (simp add: parse_Encode pragmas_def)
qed

lemma dsn_question_mark:
  "case Cut (dsn ''/data/what?.db'') CHR ''?'' of (file, q, _) \<Rightarrow>
     file = ''file:/data/what'' \<and> map fst (parse_query q) = [''.db?_pragma'', ''_pragma'', ''_pragma'', ''_pragma'']"
  by code_simp

subsection \<open>The schema\<close>

lemma keys_put: "set (keys (put k v m)) = insert k (set (keys m))"
  by (auto simp: map_of_keys split: if_splits)

lemma keys_remove: "set (keys (remove_key k m)) = set (keys m) - {k}"
  by (auto simp: map_of_keys split: if_splits)

lemma remove_absent: "k \<notin> set (keys m) \<Longrightarrow> remove_key k m = m"
  by (force simp: remove_key_def keys_def filter_id_conv)

text \<open>Statements keep the rows of every table.\<close>

lemma exec_ddl_keeps:
  "exec_ddl st d = Some d' \<Longrightarrow> map_of (db_tables d) t = Some rows \<Longrightarrow> map_of (db_tables d') t = Some rows"
  by (cases st) (auto simp: exec_ddl_def map_of_keys simp del: map_of_eq_None_iff split: if_splits)

lemma exec_script_keeps:
  "exec_script sts d = Some d' \<Longrightarrow> map_of (db_tables d) t = Some rows \<Longrightarrow> map_of (db_tables d') t = Some rows"
  by (induction sts arbitrary: d) (auto split: option.splits dest: exec_ddl_keeps)

text \<open>What a script has made, when it creates no index that it drops, and that it fails only on an index of a missing table.\<close>

definition created_tables :: "ddl list \<Rightarrow> string set" where
  "created_tables sts = {t. CreateTable t \<in> set sts}"

definition created_indexes :: "ddl list \<Rightarrow> string set" where
  "created_indexes sts = {i. \<exists>t. CreateIndex i t \<in> set sts}"

definition dropped_indexes :: "ddl list \<Rightarrow> string set" where
  "dropped_indexes sts = {i. DropIndex i \<in> set sts}"

lemma created_simps [simp]:
  "created_tables [] = {}" "created_tables (CreateTable t # sts) = insert t (created_tables sts)"
  "created_tables (CreateIndex i t # sts) = created_tables sts" "created_tables (DropIndex i # sts) = created_tables sts"
  "created_indexes [] = {}" "created_indexes (CreateTable t # sts) = created_indexes sts"
  "created_indexes (CreateIndex i t # sts) = insert i (created_indexes sts)" "created_indexes (DropIndex i # sts) = created_indexes sts"
  "dropped_indexes [] = {}" "dropped_indexes (CreateTable t # sts) = dropped_indexes sts"
  "dropped_indexes (CreateIndex i t # sts) = dropped_indexes sts" "dropped_indexes (DropIndex i # sts) = insert i (dropped_indexes sts)"
  by (auto simp: created_tables_def created_indexes_def dropped_indexes_def)

lemma exec_script_tables:
  "exec_script sts d = Some d' \<Longrightarrow> set (keys (db_tables d')) = set (keys (db_tables d)) \<union> created_tables sts"
proof (induction sts arbitrary: d)
  case (Cons st sts)
  then show ?case by (cases st) (auto simp: exec_ddl_def keys_put split: if_splits)
qed simp

lemma exec_script_indexes:
  assumes "exec_script sts d = Some d'" and "created_indexes sts \<inter> dropped_indexes sts = {}"
  shows "set (keys (db_indexes d')) = (set (keys (db_indexes d)) - dropped_indexes sts) \<union> created_indexes sts"
  using assms
proof (induction sts arbitrary: d)
  case (Cons st sts)
  then obtain e where e: "exec_ddl st d = Some e" "exec_script sts e = Some d'" by (auto split: option.splits)
  have "created_indexes sts \<inter> dropped_indexes sts = {}" using Cons.prems(2) by (cases st) auto
  from Cons.IH [OF e(2) this] e(1) Cons.prems(2) show ?case
    by (cases st) (auto simp: exec_ddl_def keys_put keys_remove split: if_splits)
qed simp

fun refers :: "string set \<Rightarrow> ddl list \<Rightarrow> bool" where
  "refers ts [] = True"
| "refers ts (CreateTable t # sts) = refers (insert t ts) sts"
| "refers ts (CreateIndex i t # sts) = (t \<in> ts \<and> refers ts sts)"
| "refers ts (DropIndex i # sts) = refers ts sts"

lemma exec_script_total: "refers ts sts \<Longrightarrow> ts \<subseteq> set (keys (db_tables d)) \<Longrightarrow> \<exists>d'. exec_script sts d = Some d'"
proof (induction ts sts arbitrary: d rule: refers.induct)
  case (2 ts t sts)
  then show ?case by (auto simp: exec_ddl_def keys_put intro!: "2.IH")
next
  case (3 ts i t sts)
  then show ?case by (auto simp: exec_ddl_def)
next
  case (4 ts i sts)
  then show ?case by (simp add: exec_ddl_def)
qed simp

lemma exec_script_stable:
  assumes "created_tables sts \<subseteq> set (keys (db_tables d))" and "created_indexes sts \<subseteq> set (keys (db_indexes d))"
    and "dropped_indexes sts \<inter> set (keys (db_indexes d)) = {}"
  shows "exec_script sts d = Some d"
  using assms
proof (induction sts)
  case (Cons st sts)
  then show ?case by (cases st) (auto simp: exec_ddl_def remove_absent)
qed simp

lemma schema_names:
  "created_tables schema = {''jobs'', ''settings'', ''sessions'', ''session_credential''}"
  "created_indexes schema = {''idx_jobs_created'', ''idx_jobs_status_created'', ''idx_jobs_expires_at'', ''idx_sessions_expires_at''}"
  "dropped_indexes schema = {''idx_jobs_created_at'', ''idx_jobs_status''}"
  by (auto simp: schema_def)


subsection \<open>The database handle\<close>

text \<open>A trace in which the handle is opened at most once at a time, used only while it is open, and not left open.\<close>

fun guarded :: "bool \<Rightarrow> server_event list \<Rightarrow> bool" where
  "guarded up [] = (\<not> up)"
| "guarded up (HandleOpened d # es) = (\<not> up \<and> guarded True es)"
| "guarded up (HandleClosed # es) = (up \<and> guarded False es)"
| "guarded up (SignalsOn # es) = guarded up es"
| "guarded up (SignalsOff # es) = guarded up es"
| "guarded up (e # es) = (up \<and> guarded up es)"

definition listens :: "server_event \<Rightarrow> bool" where
  "listens e \<longleftrightarrow> (\<exists>a. e = Listening a)"

definition booted :: "server_event list \<Rightarrow> bool" where
  "booted es \<longleftrightarrow> (\<exists>d a b n c sw. es = [SignalsOn, HandleOpened d, Recovered a, Resumed b, WorkersStarted n, SessionsRestored c,
     ReaperStarted, SweeperStarted sw])"

lemma start_server_events:
  "\<exists>a b n c sw. snd (start_server env cfg) =
     [Recovered a, Resumed b, WorkersStarted n, SessionsRestored c, ReaperStarted, SweeperStarted sw]"
  by (auto simp: start_server_def split: prod.splits)


text \<open>
  When the listener fails, an address in use, the workers are running by then and are not drained: the process ends under
  them, and what they had taken is failed by the next recovery.
\<close>

lemma listen_failure_skips_drain:
  assumes "Load (se_look env) (se_mkdir env) = Inr cfg" and "Open env (cf_DBPath cfg) = (Inr (), opened)"
    and "se_end env = ListenFails"
  shows "fst (run env) = Inl ListenError \<and> WorkersStarted (nat (cf_MaxConcurrentJobs cfg)) \<in> set (snd (run env)) \<and>
    Drained \<notin> set (snd (run env))"
  using assms by (auto simp: run_def serve_until_def start_server_def Open_def Let_def split: prod.splits if_splits)

subsection \<open>What it serves with\<close>

lemma register_runners_all: "register_runners = fold Register all_types"
  by (simp add: register_runners_def all_types_def)

lemma start_queue_boot:
  "se_recover_ok env \<Longrightarrow> se_queued_ok env \<Longrightarrow>
   start_queue env cfg = boot (se_recover env) (se_resume env) NewBus (se_files env) (cf_QueueDepth cfg) (JobTimeout cfg)
     (nat (cf_MaxConcurrentJobs cfg)) (se_jobs env)"
  by (simp add: start_queue_def boot_def recovered_def register_runners_all)

lemma boot_table: "store_ok []"
  by (rule jobs.invar_empty)


definition demo_server :: "string \<Rightarrow> server_env" where
  "demo_server h = \<lparr>se_look = [''AUTH_USERNAME'' \<mapsto> ''admin'', ''AUTH_PASSWORD_HASH'' \<mapsto> h], se_mkdir = (\<lambda>_. True),
     se_open_ok = (\<lambda>_. True), se_ping_ok = True, se_schema_ok = True, se_jobs = q_store (demo_marked 1), se_files = Map.empty,
     se_sessions = demo_store, se_recover = 5000000, se_recover_ok = True, se_queued_ok = True, se_resume = 6000000,
     se_sha256 = toy_sha, se_persist_ok = (True, True, True), se_persist = 7000000, se_limiter = 8000000,
     se_end = Signalled, se_shutdown_ok = True\<rparr>"

lemma demo_server_fields:
  "se_look (demo_server h) = [''AUTH_USERNAME'' \<mapsto> ''admin'', ''AUTH_PASSWORD_HASH'' \<mapsto> h]" "se_mkdir (demo_server h) = (\<lambda>_. True)"
  "se_jobs (demo_server h) = q_store (demo_marked 1)" "se_recover_ok (demo_server h)" "se_queued_ok (demo_server h)"
  by (simp_all add: demo_server_def)


text \<open>When the recovery fails, \<open>run\<close> goes on: a row left running stays so, and no worker has it.\<close>

lemma unrecovered_stays_running:
  assumes "\<not> se_recover_ok env" and "store_ok (se_jobs env)" and "row_of (se_jobs env) i = Some r" and "r_status r = StatusRunning"
  shows "row_of (q_store (start_queue env cfg)) i = Some r \<and> q_running (start_queue env cfg) = Map.empty"
proof -
  let ?q = "register_runners (SetTimeout (JobTimeout cfg) (NewQueue (se_jobs env) NewBus (se_files env) (cf_QueueDepth cfg)))"
  have q: "\<not> q_closed ?q" "length (q_ch ?q) \<le> q_depth ?q" "q_store ?q = se_jobs env" "q_running ?q = Map.empty"
    by (simp_all add: register_runners_all Register_all SetTimeout_def NewQueue_def)
  have "i \<notin> set (QueuedIDs (se_jobs env))" using QueuedIDs_row [OF assms(2), of i] assms(3,4) by auto
  then have "i \<notin> set (drop k (QueuedIDs (se_jobs env)))" for k by (meson in_set_dropD)
  then show ?thesis
    using resume_loop_eq [OF q(1,2), of "se_resume env" "QueuedIDs (se_jobs env)" 0] q(3,4) assms(1,3)
      QueuedIDs_distinct [OF assms(2)]
    by (auto simp: start_queue_def recovered_def Resume_def Start_def Let_def row_of_fail_full distinct_drop)
qed

subsection \<open>From the printed hash to a session\<close>

lemma verify_format:
  assumes "salt \<noteq> []" and "key \<noteq> []"
  shows "VerifyPassword IDKey (format_hash salt key) p = Inr (IDKey p salt argonTime argonMemory argonThreads (length key) = key)"
  using decodeHash_format [OF assms] by (simp add: VerifyPassword_def Let_def)

lemma Persist_keeps [simp]:
  "m_user (fst (Persist sha oks now st m)) = m_user m" "m_hash (fst (Persist sha oks now st m)) = m_hash m"
  "m_failures (fst (Persist sha oks now st m)) = m_failures m" "m_global (fst (Persist sha oks now st m)) = m_global m"
  by (auto simp: Persist_def Let_def split: option.split prod.split)

lemma sv_auth_start [simp]: "sv_auth (fst (start_server env cfg)) = fst (start_auth env cfg)"
  by (simp add: start_server_def split: prod.split)

text \<open>
  C37. What the server prints for \<open>-hash-password\<close> is what its configuration needs: with the printed line as the hash and a user
  name, a configuration that loads gives a manager where that user logs in with that password, whatever
  sessions were adopted; and a password is refused exactly when the derivation gives another key for it.
\<close>
theorem hash_flag_logs_in:
  assumes len: "\<And>pw s t m p n. length (IDKey pw s t m p n) = n" and salt: "salt \<noteq> []" and flag: "flag \<noteq> ''''"
    and printed: "main IDKey (Some salt) env0 flag = (code, h @ newline)"
    and cfg: "Load (se_look env) (se_mkdir env) = Inr cfg"
    and look: "se_look env ''AUTH_PASSWORD_HASH'' = Some h" "se_look env ''AUTH_USERNAME'' = Some user" "user \<noteq> ''''"
    and m: "m = sv_auth (fst (start_server env cfg))" and login: "l_slot lenv" "l_rand lenv = Some token"
  shows "code = 0 \<and> (\<exists>c. fst (Login IDKey lenv user flag m) = Inr (Some c)) \<and>
    (fst (Login IDKey lenv user other m) = Inl ErrBadCredentials \<longleftrightarrow>
       IDKey other salt argonTime argonMemory argonThreads argonKeyLen \<noteq> IDKey flag salt argonTime argonMemory argonThreads argonKeyLen)"
proof -
  let ?key = "\<lambda>p. IDKey p salt argonTime argonMemory argonThreads argonKeyLen"
  have key: "?key flag \<noteq> []" using len [of flag salt argonTime argonMemory argonThreads argonKeyLen] by (auto simp: argonKeyLen_def)
  have h: "h = format_hash salt (?key flag)" "code = 0"
    using printed flag by (simp_all add: main_def HashPassword_def Let_def newline_def)
  have set: "h \<noteq> ''''" by (simp add: h format_not_empty)
  have "cf_AuthUsername cfg = user" "cf_AuthPasswordHash cfg = h"
    using cfg look set by (auto simp: Load_Inr read_config_def Let_def env_or_def)
  then have fields: "m_user m = user" "m_hash m = h" "m_failures m = []" "m_global m = no_failures"
    by (simp_all add: m start_auth_def NewManager_def Let_def)
  have "rateLimited now ip m = (False, m)" for now ip
    using fields by (simp add: rateLimited_def no_failures_def globalMaxFailures_def)
  moreover have "VerifyPassword IDKey h p = Inr (?key p = ?key flag)" for p
    using verify_format [OF salt key, of IDKey p] len by (simp add: h)
  moreover have "AuthEnabled m" using fields look(3) set by (simp add: AuthEnabled_def)
  ultimately show ?thesis using fields login h(2)
    by (auto simp: Login_def verifyPassword_def newToken_def Let_def)
qed

lemma demo_server_loads:
  assumes "h \<noteq> ''''"
  shows "\<exists>cfg. Load (se_look (demo_server h)) (se_mkdir (demo_server h)) = Inr cfg"
proof -
  let ?look = "[''AUTH_USERNAME'' \<mapsto> ''admin'', ''AUTH_PASSWORD_HASH'' \<mapsto> h]"
  have "parseLevel ''warn'' = Inr LevelWarn" "parsePrefixes '''' = Inr []" "parseHosts '''' = Inr []" by code_simp+
  then have "Load ?look (\<lambda>_. True) = Inr (read_config ?look LevelWarn [] [])"
    unfolding Load_Inr
    by (intro exI [of _ LevelWarn] exI [of _ "[]"])
      (simp add: assms env_or_def config_checks_def read_config_def Let_def envInt_def maxUploadMiBCeiling_def
        jobTimeoutMinutesCeiling_def minute_def HasPrefix_def)
  then show ?thesis by (simp add: demo_server_fields)
qed

lemma hash_flag_logs_in_witness:
  "\<exists>h cfg. main toy_kdf (Some ''salt'') (demo_server '''') ''pw'' = (0, h @ newline) \<and>
     Load (se_look (demo_server h)) (se_mkdir (demo_server h)) = Inr cfg \<and>
     (\<exists>c. fst (Login toy_kdf demo_login ''admin'' ''pw'' (sv_auth (fst (start_server (demo_server h) cfg)))) = Inr (Some c)) \<and>
     fst (Login toy_kdf demo_login ''admin'' ''no'' (sv_auth (fst (start_server (demo_server h) cfg)))) = Inl ErrBadCredentials"
proof -
  define h where "h = format_hash ''salt'' (toy_kdf ''pw'' ''salt'' 3 65536 2 32)"
  have len: "length (toy_kdf pw s t m p n) = n" for pw s t m p n by (simp add: toy_kdf_def)
  have printed: "main toy_kdf (Some ''salt'') (demo_server '''') ''pw'' = (0, h @ newline)"
    by (simp add: main_def HashPassword_def h_def argonTime_def argonMemory_def argonThreads_def argonKeyLen_def)
  obtain cfg where cfg: "Load (se_look (demo_server h)) (se_mkdir (demo_server h)) = Inr cfg"
    using demo_server_loads [of h] format_not_empty unfolding h_def by blast
  show ?thesis
    using hash_flag_logs_in [OF len _ _ printed cfg _ _ _ refl, of "''admin''" demo_login "[1, 2]" "''no''"] printed cfg
    by (simp add: demo_server_fields demo_login_def toy_kdf_def argonKeyLen_def)
qed

end
