(* ===== verification/Spec2Isabelle.thy ===== *)
theory Spec2Isabelle
  imports QueueSpec Retention AuthSpec LoginsSpec Proxy ParamsSpec SourceURL ExecSpec RunnerSpec RunFiles Pipes BudgetSpec ProgressSpec ConfigSpec MiddlewareSpec ProbeLimitSpec UploadsSpec DownloadSpec DeleteSpec Drain Menu ServerSpec
begin

text \<open>
  A verification library for aiofiles, a self-hosted server that downloads, converts, compresses and edits media files.
  The program is the Go code under \<open>src/cmd\<close> and \<open>src/internal\<close>; this theory imports all others and holds no model of its
  own.

  How the program works. \<open>config.Load\<close> reads the environment. \<open>main\<close> opens the database, repairs the job table of the last
  run, registers the runners, re-enqueues what was queued, and starts the workers. A request passes the middleware chain
  (host, origin, body limit, session) and reaches a handler. A job is created from validated parameters and either a
  source URL or an upload; the queue stores its row and sends its id through a bounded channel to a worker, whose \<open>execute\<close>
  marks the row, calls the runner of the job's type, and writes the outcome. Runners start yt-dlp, ffmpeg, ImageMagick,
  rsvg-convert and potrace as child processes and move the result into the download directory. Subscribers of the bus see
  what happens over server-sent events. The retention sweeper removes expired jobs with their files, and uploads nobody
  uses.

  Which theory models what:
    \<^item> \<open>Prelude\<close>: collections, results, Go maps as association lists. \<open>GoString\<close>, \<open>GoPath\<close>, \<open>GoScan\<close>, \<open>GoFloat\<close>, \<open>GoJson\<close>: the
      parts of \<open>strings\<close>, \<open>strconv\<close>, \<open>filepath\<close>, \<open>fmt.Sscanf\<close> and \<open>encoding/json\<close> the program uses, on byte strings; \<open>fl\<close> rounds
      a rational to the nearest float64, ties to even, \<open>None\<close> on overflow. \<open>Netip\<close>: addresses and prefixes of \<open>net/netip\<close>.
    \<^item> \<open>JobTypes\<close>, \<open>SqlTable\<close>, \<open>JobStore\<close>: \<open>internal/jobs/types.go\<close> and \<open>store.go\<close>. The interface of a keyed table is the locale
      \<open>keyed_table\<close>, interpreted on lists of rows for jobs and sessions; every statement of the store is a function on it.
    \<^item> \<open>Bus\<close>: \<open>bus.go\<close>. \<open>Queue\<close>: \<open>queue.go\<close>, one definition per atomic piece; \<open>QueueRuns\<close>: the step relation \<open>qstep\<close> of all
      goroutines, the boot sequence of \<open>main.go\<close> and the states reachable over crashes and restarts; \<open>QueueProps\<close> and
      \<open>QueueSpec\<close>: invariants, outcomes, progress; \<open>Drain\<close>: the end of a stopped pool.
    \<^item> \<open>Retention\<close>: \<open>internal/retention\<close>. \<open>Password\<close>, \<open>Sessions\<close>, \<open>Manager\<close>, \<open>AuthSpec\<close>: \<open>internal/auth\<close>, with the locale of a
      session store; \<open>Logins\<close>, \<open>LoginsSpec\<close>: logins that overlap, piece by piece, with the channel \<open>hashSlots\<close>. \<open>Proxy\<close>:
      \<open>internal/proxy\<close>. \<open>Config\<close>, \<open>ConfigSpec\<close>: \<open>internal/config\<close>.
    \<^item> \<open>Presets\<close>, \<open>Params\<close>, \<open>ParamsSpec\<close>, \<open>SourceURL\<close>: \<open>internal/presets\<close>, its option tables, parsers and the URL check, and
      \<open>parseParams\<close> of the API.
    \<^item> \<open>Exec\<close>, \<open>ExecSpec\<close>: \<open>internal/runner/exec.go\<close>; \<open>Pipes\<close>: a child process against the goroutines that scan its pipes,
      and its group against the kill.
      \<open>Encoders\<close>, \<open>YtDlp\<close>, \<open>SvgWrap\<close>, \<open>Runners\<close>: argument vectors, plans and the \<open>Run\<close> functions of \<open>ffmpeg.go\<close>, \<open>image.go\<close>
      and \<open>ytdlp.go\<close>; a run is a program on a world, the files and the trace of processes started and reports emitted.
      \<open>RunnerSpec\<close>: no text of a client becomes an option. \<open>RunFiles\<close>: which files a run leaves. \<open>BudgetSpec\<close>: size targets.
      \<open>Progress\<close>, \<open>ProgressSpec\<close>: how progress lines become percentages.
    \<^item> \<open>Middleware\<close>, \<open>MiddlewareSpec\<close>: \<open>internal/api/middleware.go\<close> and the routes of \<open>api.go\<close>. \<open>ProbeLimit\<close>, \<open>ProbeLimitSpec\<close>:
      \<open>probelimit.go\<close>, with the locale of a metered resource. \<open>Uploads\<close>, \<open>UploadsSpec\<close>: \<open>uploads.go\<close>. \<open>Respond\<close>, \<open>Handlers\<close>:
      \<open>respond.go\<close>, \<open>handlers_jobs.go\<close>, \<open>handlers_files.go\<close>, \<open>handlers_meta.go\<close>, \<open>events.go\<close>; \<open>HandlersSpec\<close>, \<open>DeleteSpec\<close>,
      \<open>DownloadSpec\<close>: what creating, deleting and downloading do. \<open>Menu\<close>: \<open>presets.All\<close> and \<open>handlePresets\<close>.
    \<^item> \<open>Server\<close>, \<open>ServerSpec\<close>: \<open>cmd/server/main.go\<close>, \<open>internal/db\<close> with its schema, and \<open>api.New\<close>: the state the server runs with,
      composed of the other components, and the trace of what it opens, starts and shuts down.

  How state is modelled. Structs are records, errors are the left part of a sum or \<open>None\<close>, times are nanoseconds,
  Go \<open>int\<close> and \<open>int64\<close> are integers with \<open>wrap64\<close> where a result could leave 64 bits. Operations return the new state. What the
  operating system, the database, the clock, the random source, the resolver or a child process answers is an argument.
  Addresses and Argon2 parameters are words. Concurrency is the interleaving of atomic pieces: database statements,
  channel operations, critical sections, reads and writes of a pipe.

  What is proved. The queue: who runs what, statuses that only move forward, no queued job lost unless given up on for a
  stated reason, exact outcomes and cancellation, recovery after a crash, progress and the end after \<open>Stop\<close>.
  Authentication: login, lockouts and how far overlapping logins overshoot them, sessions over restarts, passwords that
  verify. Forwarding headers that cannot be forged. Sweeps that take exactly what expired. Parameters within their tables
  that reach the runner unchanged, source URLs whose targets are public, argument vectors without injected options,
  bitrates within the size asked for, percentages in order. Runs that leave no work file and deliver what the tool made,
  child processes that are never stuck with their scanners and lose no line. Names and paths that stay in their
  directories, moves that are all or nothing, lines independent of how a pipe is read. A configuration that cannot
  overflow, a middleware chain equal to its specification, lookups limited in rate and number, uploads that resolve, jobs
  that are created sound, downloads handed over exactly. The whole: a server that serves with a reachable queue, releases
  its database on every return, re-applies its schema, and accepts the password whose hash it printed.

  Bounds and termination. Loops are structural or carry a measure; \<open>uniqueOutputPath\<close> has sixteen attempts as in the code.
  \<open>own_step\<close> of \<open>Drain\<close> needs at most \<open>effort\<close> steps, eleven for each id: taking, loading, registering, marking, announcing,
  running and returning are one step each, and at most four updates follow. \<open>work\<close> of \<open>Pipes\<close> bounds the steps of a child: two
  for each byte, one for each scanner's end and one for the exit.

  Not modelled: SQLite and its driver; argon2, \<open>url.Parse\<close>, the resolver, \<open>json.Marshal\<close>'s text, \<open>strconv.ParseFloat\<close>, the
  multipart reader and the multiplexer, which are arguments; logging, the delivery of signals and the listener, of which
  only the outcome is an argument, and the timeouts of the HTTP server; processes that leave the group of
  their command, and \<open>WaitDelay\<close>; tickers of the sweeper and the reaper; the browser code and nginx.
\<close>

end
